theory Spec2Isabelle
  imports Complex_Main "HOL-Library.Word" "HOL-Library.AList" "HOL-Library.Sublist" "HOL-Library.Multiset"
    "HOL-Library.Log_Nat"
begin

section \<open>Values, errors and the host environment\<close>

text \<open>
  The host-process service (main/services/CherryINOAuthService.ts) talks to three things
  outside the repository: Electron's \<^verbatim>\<open>safeStorage\<close>, the file system and \<^verbatim>\<open>net.fetch\<close>.
  They are parameters of the model (the record \<open>env\<close>); what the service changes (files,
  directories, the requests it has sent) is the record \<open>state\<close>, passed explicitly.
  Each service method runs from start to end without interleaving with another one.
\<close>

type_synonym bytes = "8 word list"

text \<open>\<^verbatim>\<open>!v\<close> for a \<^verbatim>\<open>string | null\<close>: true for \<^verbatim>\<open>null\<close> and for the empty string.\<close>

fun falsy_string :: "string option \<Rightarrow> bool" where
  "falsy_string None = True"
| "falsy_string (Some t) = (t = [])"

text \<open>
  A JavaScript value as \<^verbatim>\<open>response.json()\<close> yields it, plus \<^verbatim>\<open>undefined\<close>. A number is
  the rational that a finite double denotes. An object is the list of its own properties
  (\<open>map_of\<close> reads one).
\<close>

datatype jsval =
    JUndefined
  | JNull
  | JBool bool
  | JNum rat
  | JStr string
  | JArr "jsval list"
  | JObj "(string \<times> jsval) list"

fun truthy :: "jsval \<Rightarrow> bool" where
  "truthy JUndefined = False"
| "truthy JNull = False"
| "truthy (JBool b) = b"
| "truthy (JNum n) = (n \<noteq> 0)"
| "truthy (JStr s) = (s \<noteq> [])"
| "truthy (JArr xs) = True"
| "truthy (JObj kvs) = True"

text \<open>
  The errors the code throws or receives. \<open>CherryINOAuthServiceError message cause\<close> is the
  service's own class; \<open>HttpError status statusText\<close> stands for
  \<^verbatim>\<open>new Error(`HTTP ${response.status}: ${response.statusText}`)\<close> and
  \<open>StatusError prefix status\<close> for \<^verbatim>\<open>new Error(`${prefix}${status}`)\<close>; the others are thrown by
  the platform: a rejected fetch, a failed file operation, \<^verbatim>\<open>safeStorage\<close>, a body that is
  not JSON, a property read on \<^verbatim>\<open>null\<close>, a failed zod parse.
\<close>

datatype error =
    CherryINOAuthServiceError string "error option"
  | Error string
  | HttpError nat string
  | StatusError string nat
  | ZodError
  | TypeError
  | SyntaxError
  | FetchFailed
  | FsError
  | SafeStorageError

text \<open>
  Reading \<^verbatim>\<open>v.key\<close> for the keys the code reads (none of them is a property of a string,
  a number, a boolean or an array): a \<^verbatim>\<open>TypeError\<close> on \<^verbatim>\<open>null\<close> and \<^verbatim>\<open>undefined\<close>.
\<close>

fun get_prop :: "jsval \<Rightarrow> string \<Rightarrow> error + jsval" where
  "get_prop JUndefined k = Inl TypeError"
| "get_prop JNull k = Inl TypeError"
| "get_prop (JObj kvs) k = (case map_of kvs k of None \<Rightarrow> Inr JUndefined | Some v \<Rightarrow> Inr v)"
| "get_prop v k = Inr JUndefined"

record request =
  req_url :: string
  req_method :: string
  req_headers :: "(string \<times> string) list"
  req_form :: "(string \<times> string) list"

text \<open>
  \<open>req_form\<close> holds the pairs given to \<^verbatim>\<open>new URLSearchParams({...})\<close>; their serialisation
  is the platform's. A response carries its status and the value \<^verbatim>\<open>json()\<close> resolves to
  (\<open>None\<close>: the body is not JSON and \<^verbatim>\<open>json()\<close> rejects).
\<close>

record response =
  resp_status :: nat
  resp_statusText :: string
  resp_json :: "jsval option"

definition resp_ok :: "response \<Rightarrow> bool" where
  "resp_ok r = (200 \<le> resp_status r \<and> resp_status r \<le> 299)"

record env =
  configDir :: string
  encryptString :: "string \<Rightarrow> bytes option"
  decryptString :: "bytes \<Rightarrow> string option"
  toString :: "jsval \<Rightarrow> string"
  net :: "request list \<Rightarrow> request \<Rightarrow> response option"
  mkdir_fails :: "string \<Rightarrow> bool"
  write_fails :: "string \<Rightarrow> bool"
  read_fails :: "string \<Rightarrow> bool"
  unlink_fails :: "string \<Rightarrow> bool"

text \<open>
  \<open>configDir\<close> is \<^verbatim>\<open>getConfigDir()\<close>. \<open>encryptString\<close> and \<open>decryptString\<close> are
  \<^verbatim>\<open>safeStorage\<close>'s (\<open>None\<close>: the call throws). \<open>net sent rq\<close> is the answer to request
  \<open>rq\<close> after the requests \<open>sent\<close> (\<open>None\<close>: \<^verbatim>\<open>net.fetch\<close> rejects). The four predicates say
  which file operations fail. \<open>toString\<close> is the platform's conversion of a value that is
  not a string inside a template literal.
\<close>

record state =
  files :: "string \<rightharpoonup> bytes"
  dirs :: "string set"
  sent :: "request list"

text \<open>
  An asynchronous function is a state transformer that returns a value or throws.
  \<open>io_catch\<close> is \<^verbatim>\<open>try { ... } catch (err) { ... }\<close>: the handler runs in the state the
  body left behind.
\<close>

type_synonym ('a, 's) eff = "'s \<Rightarrow> (error + 'a) \<times> 's"

type_synonym 'a io = "('a, state) eff"

definition io_return :: "'a \<Rightarrow> ('a, 's) eff" where
  "io_return x = (\<lambda>s. (Inr x, s))"

definition io_throw :: "error \<Rightarrow> ('a, 's) eff" where
  "io_throw e = (\<lambda>s. (Inl e, s))"

definition io_bind :: "('a, 's) eff \<Rightarrow> ('a \<Rightarrow> ('b, 's) eff) \<Rightarrow> ('b, 's) eff" where
  "io_bind m f = (\<lambda>s. case m s of (Inl e, s') \<Rightarrow> (Inl e, s') | (Inr x, s') \<Rightarrow> f x s')"

definition io_catch :: "('a, 's) eff \<Rightarrow> (error \<Rightarrow> ('a, 's) eff) \<Rightarrow> ('a, 's) eff" where
  "io_catch m h = (\<lambda>s. case m s of (Inl e, s') \<Rightarrow> h e s' | (Inr x, s') \<Rightarrow> (Inr x, s'))"

definition io_lift :: "error + 'a \<Rightarrow> ('a, 's) eff" where
  "io_lift r = (\<lambda>s. (r, s))"

subsection \<open>The file system, safeStorage and the network\<close>

definition existsSync :: "string \<Rightarrow> state \<Rightarrow> bool" where
  "existsSync p s = (files s p \<noteq> None)"

definition mkdir :: "env \<Rightarrow> string \<Rightarrow> unit io" where
  "mkdir e d = (\<lambda>s. if mkdir_fails e d then (Inl FsError, s)
                     else (Inr (), s\<lparr>dirs := insert d (dirs s)\<rparr>))"

definition writeFile :: "env \<Rightarrow> string \<Rightarrow> bytes \<Rightarrow> unit io" where
  "writeFile e p b = (\<lambda>s. if write_fails e p then (Inl FsError, s)
                          else (Inr (), s\<lparr>files := (files s)(p \<mapsto> b)\<rparr>))"

definition readFile :: "env \<Rightarrow> string \<Rightarrow> bytes io" where
  "readFile e p = (\<lambda>s. case files s p of
                          None \<Rightarrow> (Inl FsError, s)
                        | Some b \<Rightarrow> if read_fails e p then (Inl FsError, s) else (Inr b, s))"

definition unlink :: "env \<Rightarrow> string \<Rightarrow> unit io" where
  "unlink e p = (\<lambda>s. if files s p = None \<or> unlink_fails e p then (Inl FsError, s)
                     else (Inr (), s\<lparr>files := (files s)(p := None)\<rparr>))"

text \<open>\<^verbatim>\<open>safeStorage.encryptString\<close> takes a string: any other argument makes the call throw.\<close>

definition encryptString_js :: "env \<Rightarrow> jsval \<Rightarrow> bytes io" where
  "encryptString_js e v =
     (case v of
        JStr t \<Rightarrow> (case encryptString e t of None \<Rightarrow> io_throw SafeStorageError | Some b \<Rightarrow> io_return b)
      | _ \<Rightarrow> io_throw TypeError)"

definition decryptString_io :: "env \<Rightarrow> bytes \<Rightarrow> string io" where
  "decryptString_io e b =
     (case decryptString e b of None \<Rightarrow> io_throw SafeStorageError | Some t \<Rightarrow> io_return t)"

definition net_fetch :: "env \<Rightarrow> request \<Rightarrow> response io" where
  "net_fetch e rq = (\<lambda>s. (case net e (sent s) rq of None \<Rightarrow> Inl FetchFailed | Some r \<Rightarrow> Inr r,
                          s\<lparr>sent := sent s @ [rq]\<rparr>))"

definition response_json :: "response \<Rightarrow> (jsval, 's) eff" where
  "response_json r = (case resp_json r of None \<Rightarrow> io_throw SyntaxError | Some v \<Rightarrow> io_return v)"

section \<open>The token store and the authenticated fetch (CherryINOAuthService.ts)\<close>

definition TOKEN_FILE_NAME :: string where
  "TOKEN_FILE_NAME = ''.cherryin_oauth_token''"

definition REFRESH_TOKEN_FILE_NAME :: string where
  "REFRESH_TOKEN_FILE_NAME = ''.cherryin_oauth_refresh_token''"

definition CLIENT_ID :: string where
  "CLIENT_ID = ''2a348c87-bae1-4756-a62f-b2e97200fd6d''"

text \<open>\<^verbatim>\<open>path.join(getConfigDir(), name)\<close>, and \<^verbatim>\<open>path.dirname\<close> of it is the directory again.\<close>

definition tokenFilePath :: "env \<Rightarrow> string" where
  "tokenFilePath e = configDir e @ ''/'' @ TOKEN_FILE_NAME"

definition refreshTokenFilePath :: "env \<Rightarrow> string" where
  "refreshTokenFilePath e = configDir e @ ''/'' @ REFRESH_TOKEN_FILE_NAME"

text \<open>
  \<^verbatim>\<open>
  saveToken = async (_, accessToken, refreshToken?) => {
    try {
      const dir = path.dirname(this.tokenFilePath)
      if (!fs.existsSync(dir)) await fs.promises.mkdir(dir, { recursive: true })
      const encryptedToken = safeStorage.encryptString(accessToken)
      await fs.promises.writeFile(this.tokenFilePath, encryptedToken)
      if (refreshToken) {
        const encryptedRefreshToken = safeStorage.encryptString(refreshToken)
        await fs.promises.writeFile(this.refreshTokenFilePath, encryptedRefreshToken)
      }
    } catch (error) { throw new CherryINOAuthServiceError('Failed to save OAuth token', error) }
  }
  \<close>
  The arguments arrive over IPC or from a parsed token response, so they are \<open>jsval\<close>s.
\<close>

definition saveToken :: "env \<Rightarrow> jsval \<Rightarrow> jsval \<Rightarrow> unit io" where
  "saveToken e accessToken refreshToken =
     io_catch
       (io_bind (\<lambda>s. if configDir e \<in> dirs s then (Inr (), s) else mkdir e (configDir e) s) (\<lambda>_.
        io_bind (encryptString_js e accessToken) (\<lambda>encryptedToken.
        io_bind (writeFile e (tokenFilePath e) encryptedToken) (\<lambda>_.
        if truthy refreshToken then
          io_bind (encryptString_js e refreshToken) (\<lambda>encryptedRefreshToken.
          writeFile e (refreshTokenFilePath e) encryptedRefreshToken)
        else io_return ()))))
       (\<lambda>err. io_throw (CherryINOAuthServiceError ''Failed to save OAuth token'' (Some err)))"

text \<open>
  \<^verbatim>\<open>
  getToken = async () => {
    try {
      if (!fs.existsSync(this.tokenFilePath)) return null
      const encryptedToken = await fs.promises.readFile(this.tokenFilePath)
      return safeStorage.decryptString(Buffer.from(encryptedToken))
    } catch (error) { return null }
  }
  \<close>
  \<open>None\<close> is \<^verbatim>\<open>null\<close>.
\<close>

definition read_decrypted :: "env \<Rightarrow> string \<Rightarrow> string option io" where
  "read_decrypted e p =
     io_catch
       (\<lambda>s. if \<not> existsSync p s then (Inr None, s)
            else io_bind (readFile e p) (\<lambda>encryptedToken.
                 io_bind (decryptString_io e encryptedToken) (\<lambda>t. io_return (Some t))) s)
       (\<lambda>err. io_return None)"

definition getToken :: "env \<Rightarrow> string option io" where
  "getToken e = read_decrypted e (tokenFilePath e)"

definition getRefreshToken :: "env \<Rightarrow> string option io" where
  "getRefreshToken e = read_decrypted e (refreshTokenFilePath e)"


text \<open>
  \<^verbatim>\<open>
  refreshAccessToken = async (apiHost) => {
    try {
      const refreshToken = await this.getRefreshToken()
      if (!refreshToken) return null
      const response = await net.fetch(`${apiHost}/oauth2/token`, { method: 'POST', ... })
      if (!response.ok) return null
      const tokenData = await response.json()
      const newAccessToken = tokenData.access_token
      const newRefreshToken = tokenData.refresh_token
      if (newAccessToken) {
        await this.saveToken({}, newAccessToken, newRefreshToken)
        return newAccessToken
      }
      return null
    } catch (error) { return null }
  }
  \<close>
  \<open>JNull\<close> is the \<^verbatim>\<open>null\<close> it returns.
\<close>

definition refresh_request :: "string \<Rightarrow> string \<Rightarrow> request" where
  "refresh_request apiHost refreshToken =
     \<lparr>req_url = apiHost @ ''/oauth2/token'',
      req_method = ''POST'',
      req_headers = [(''Content-Type'', ''application/x-www-form-urlencoded'')],
      req_form = [(''grant_type'', ''refresh_token''),
                  (''refresh_token'', refreshToken),
                  (''client_id'', CLIENT_ID)]\<rparr>"

definition refreshAccessToken :: "env \<Rightarrow> string \<Rightarrow> jsval io" where
  "refreshAccessToken e apiHost =
     io_catch
       (io_bind (getRefreshToken e) (\<lambda>refreshToken.
        case refreshToken of
          None \<Rightarrow> io_return JNull
        | Some rt \<Rightarrow>
            if rt = [] then io_return JNull
            else
              io_bind (net_fetch e (refresh_request apiHost rt)) (\<lambda>response.
              if \<not> resp_ok response then io_return JNull
              else
                io_bind (response_json response) (\<lambda>tokenData.
                io_bind (io_lift (get_prop tokenData ''access_token'')) (\<lambda>newAccessToken.
                io_bind (io_lift (get_prop tokenData ''refresh_token'')) (\<lambda>newRefreshToken.
                if truthy newAccessToken then
                  io_bind (saveToken e newAccessToken newRefreshToken) (\<lambda>_.
                  io_return newAccessToken)
                else io_return JNull))))))
       (\<lambda>err. io_return JNull)"

text \<open>
  \<^verbatim>\<open>
  authenticatedFetch = async (apiHost, endpoint, options = {}) => {
    const token = await this.getToken()
    if (!token) throw new CherryINOAuthServiceError('No OAuth token found')
    const makeRequest = async (accessToken) =>
      net.fetch(`${apiHost}${endpoint}`, { ...options,
        headers: { ...options.headers, Authorization: `Bearer ${accessToken}`,
                   'Content-Type': 'application/json' } })
    let response = await makeRequest(token)
    if (response.status === 401) {
      const newToken = await this.refreshAccessToken(apiHost)
      if (newToken) response = await makeRequest(newToken)
    }
    return response
  }
  \<close>
  Its three callers pass no \<^verbatim>\<open>options\<close>, so the request is a GET with the two headers.
\<close>

definition bearer :: "(jsval \<Rightarrow> string) \<Rightarrow> jsval \<Rightarrow> string" where
  "bearer to_string accessToken =
     ''Bearer '' @ (case accessToken of JStr t \<Rightarrow> t | v \<Rightarrow> to_string v)"

definition api_request :: "env \<Rightarrow> string \<Rightarrow> string \<Rightarrow> jsval \<Rightarrow> request" where
  "api_request e apiHost endpoint accessToken =
     \<lparr>req_url = apiHost @ endpoint,
      req_method = ''GET'',
      req_headers = [(''Authorization'', bearer (toString e) accessToken),
                     (''Content-Type'', ''application/json'')],
      req_form = []\<rparr>"

definition makeRequest :: "env \<Rightarrow> string \<Rightarrow> string \<Rightarrow> jsval \<Rightarrow> response io" where
  "makeRequest e apiHost endpoint accessToken = net_fetch e (api_request e apiHost endpoint accessToken)"

definition authenticatedFetch :: "env \<Rightarrow> string \<Rightarrow> string \<Rightarrow> response io" where
  "authenticatedFetch e apiHost endpoint =
     io_bind (getToken e) (\<lambda>token.
     case token of
       None \<Rightarrow> io_throw (CherryINOAuthServiceError ''No OAuth token found'' None)
     | Some t \<Rightarrow>
         if t = [] then io_throw (CherryINOAuthServiceError ''No OAuth token found'' None)
         else
           io_bind (makeRequest e apiHost endpoint (JStr t)) (\<lambda>response.
           if resp_status response = 401 then
             io_bind (refreshAccessToken e apiHost) (\<lambda>newToken.
             if truthy newToken then makeRequest e apiHost endpoint newToken
             else io_return response)
           else io_return response))"

subsection \<open>The three API calls\<close>

text \<open>
  The zod schemas: \<^verbatim>\<open>z.object\<close> wants an object and ignores keys it does not name,
  \<^verbatim>\<open>z.boolean()\<close>, \<^verbatim>\<open>z.number()\<close> and \<^verbatim>\<open>z.string()\<close> want a value of that type (a number
  that is finite), and \<^verbatim>\<open>.optional()\<close> also takes a missing key.
\<close>

fun z_object :: "jsval \<Rightarrow> error + (string \<rightharpoonup> jsval)" where
  "z_object (JObj kvs) = Inr (map_of kvs)"
| "z_object v = Inl ZodError"

fun z_boolean :: "jsval option \<Rightarrow> error + bool" where
  "z_boolean (Some (JBool b)) = Inr b"
| "z_boolean v = Inl ZodError"

fun z_number :: "jsval option \<Rightarrow> error + rat" where
  "z_number (Some (JNum n)) = Inr n"
| "z_number v = Inl ZodError"

fun z_string :: "jsval option \<Rightarrow> error + string" where
  "z_string (Some (JStr t)) = Inr t"
| "z_string v = Inl ZodError"

fun z_string_optional :: "jsval option \<Rightarrow> error + string option" where
  "z_string_optional None = Inr None"
| "z_string_optional (Some JUndefined) = Inr None"
| "z_string_optional (Some (JStr t)) = Inr (Some t)"
| "z_string_optional v = Inl ZodError"

definition sum_bind :: "error + 'a \<Rightarrow> ('a \<Rightarrow> error + 'b) \<Rightarrow> error + 'b" where
  "sum_bind r f = (case r of Inl err \<Rightarrow> Inl err | Inr x \<Rightarrow> f x)"

definition z_field_object :: "jsval option \<Rightarrow> error + (string \<rightharpoonup> jsval)" where
  "z_field_object v = (case v of None \<Rightarrow> Inl ZodError | Some d \<Rightarrow> z_object d)"

record BalanceData =
  bd_quota :: rat
  bd_used_quota :: rat

definition BalanceResponseSchema_parse :: "jsval \<Rightarrow> error + bool \<times> BalanceData" where
  "BalanceResponseSchema_parse json =
     sum_bind (z_object json) (\<lambda>obj.
     sum_bind (z_boolean (obj ''success'')) (\<lambda>success.
     sum_bind (z_field_object (obj ''data'')) (\<lambda>d.
     sum_bind (z_number (d ''quota'')) (\<lambda>quota.
     sum_bind (z_number (d ''used_quota'')) (\<lambda>used_quota.
     Inr (success, \<lparr>bd_quota = quota, bd_used_quota = used_quota\<rparr>))))))"

record UsageData =
  ud_request_count :: rat
  ud_used_quota :: rat
  ud_quota :: rat

definition UsageResponseSchema_parse :: "jsval \<Rightarrow> error + bool \<times> UsageData" where
  "UsageResponseSchema_parse json =
     sum_bind (z_object json) (\<lambda>obj.
     sum_bind (z_boolean (obj ''success'')) (\<lambda>success.
     sum_bind (z_field_object (obj ''data'')) (\<lambda>d.
     sum_bind (z_number (d ''request_count'')) (\<lambda>request_count.
     sum_bind (z_number (d ''used_quota'')) (\<lambda>used_quota.
     sum_bind (z_number (d ''quota'')) (\<lambda>quota.
     Inr (success, \<lparr>ud_request_count = request_count, ud_used_quota = used_quota,
                    ud_quota = quota\<rparr>)))))))"

record UserInfoResponse =
  ui_id :: rat
  ui_username :: string
  ui_displayName :: "string option"
  ui_email :: string
  ui_group :: "string option"

definition UserInfoResponseSchema_parse :: "jsval \<Rightarrow> error + bool \<times> UserInfoResponse" where
  "UserInfoResponseSchema_parse json =
     sum_bind (z_object json) (\<lambda>obj.
     sum_bind (z_boolean (obj ''success'')) (\<lambda>success.
     sum_bind (z_field_object (obj ''data'')) (\<lambda>d.
     sum_bind (z_number (d ''id'')) (\<lambda>uid.
     sum_bind (z_string (d ''username'')) (\<lambda>username.
     sum_bind (z_string_optional (d ''display_name'')) (\<lambda>display_name.
     sum_bind (z_string (d ''email'')) (\<lambda>email.
     sum_bind (z_string_optional (d ''group'')) (\<lambda>grp.
     Inr (success, \<lparr>ui_id = uid, ui_username = username, ui_displayName = display_name,
                    ui_email = email, ui_group = grp\<rparr>)))))))))"

text \<open>
  The \<^verbatim>\<open>catch\<close> of the three methods: a \<^verbatim>\<open>ZodError\<close> becomes
  'Invalid response format from server', anything else the method's own message.
\<close>

definition api_catch :: "string \<Rightarrow> 'a io \<Rightarrow> 'a io" where
  "api_catch failed m =
     io_catch m (\<lambda>err.
       if err = ZodError
       then io_throw (CherryINOAuthServiceError ''Invalid response format from server'' (Some err))
       else io_throw (CherryINOAuthServiceError failed (Some err)))"

text \<open>
  JavaScript numbers are IEEE 754 binary64 values. A finite one is kept as the rational it
  denotes (\<open>Fin\<close>; the two zeros are one value, as they are for \<^verbatim>\<open>===\<close> and \<^verbatim>\<open>>\<close>); the
  others are the two infinities and \<^verbatim>\<open>NaN\<close>. An arithmetic operation rounds its exact result
  to the nearest binary64 value, ties to the even significand: a positive \<open>x\<close> in the binade
  \<open>k = ilog2 x\<close>, that is \<^verbatim>\<open>2^k <= x < 2^(k+1)\<close>, goes to the nearest multiple of \<^verbatim>\<open>2^e\<close>
  with \<open>e = max (k - 52) (- 1074)\<close>, and a result of magnitude \<^verbatim>\<open>2^1024\<close> or more is an
  infinity. \<open>bitlen n\<close> is the number of binary digits of \<open>n\<close>.
\<close>

datatype jsnum = Fin rat | PInf | NInf | NaN

definition round_half_even :: "rat \<Rightarrow> int" where
  "round_half_even x =
     (let f = \<lfloor>x\<rfloor>; d = x - of_int f
      in if d < 1 / 2 then f else if d > 1 / 2 then f + 1 else if even f then f else f + 1)"

definition ilog2 :: "rat \<Rightarrow> int" where
  "ilog2 x = (if 1 \<le> x then bitlen \<lfloor>x\<rfloor> - 1 else - bitlen (\<lceil>1 / x\<rceil> - 1))"

definition exponent_of :: "rat \<Rightarrow> int" where
  "exponent_of x = max (ilog2 x - 52) (- 1074)"

definition round_pos :: "rat \<Rightarrow> rat" where
  "round_pos x = of_int (round_half_even (x / 2 powi exponent_of x)) * 2 powi exponent_of x"

definition to_double :: "rat \<Rightarrow> jsnum" where
  "to_double x =
     (if x = 0 then Fin 0
      else if 0 < x then (if 2 powi 1024 \<le> round_pos x then PInf else Fin (round_pos x))
      else (if 2 powi 1024 \<le> round_pos (- x) then NInf else Fin (- round_pos (- x))))"

definition is_double :: "rat \<Rightarrow> bool" where
  "is_double x = (to_double x = Fin x)"

text \<open>
  The operators on numbers. \<^verbatim>\<open>NaN\<close> is handed on; the infinities follow the rules of
  IEEE 754; a zero divisor is \<^verbatim>\<open>+0\<close>. \<^verbatim>\<open>Math.round\<close> gives the nearest integer, a tie going
  up; on a double the result is again a double.
\<close>

fun js_add :: "jsnum \<Rightarrow> jsnum \<Rightarrow> jsnum" where
  "js_add (Fin x) (Fin y) = to_double (x + y)"
| "js_add NaN b = NaN"
| "js_add a NaN = NaN"
| "js_add PInf NInf = NaN"
| "js_add NInf PInf = NaN"
| "js_add PInf b = PInf"
| "js_add a PInf = PInf"
| "js_add NInf b = NInf"
| "js_add a NInf = NInf"

fun js_mul :: "jsnum \<Rightarrow> jsnum \<Rightarrow> jsnum" where
  "js_mul (Fin x) (Fin y) = to_double (x * y)"
| "js_mul NaN b = NaN"
| "js_mul a NaN = NaN"
| "js_mul (Fin x) b = (if x = 0 then NaN else if (0 < x) = (b = PInf) then PInf else NInf)"
| "js_mul a (Fin y) = (if y = 0 then NaN else if (0 < y) = (a = PInf) then PInf else NInf)"
| "js_mul a b = (if a = b then PInf else NInf)"

fun js_div :: "jsnum \<Rightarrow> jsnum \<Rightarrow> jsnum" where
  "js_div (Fin x) (Fin y) =
     (if y = 0 then (if x = 0 then NaN else if 0 < x then PInf else NInf)
      else to_double (x / y))"
| "js_div NaN b = NaN"
| "js_div a NaN = NaN"
| "js_div (Fin x) b = Fin 0"
| "js_div a (Fin y) = (if (0 \<le> y) = (a = PInf) then PInf else NInf)"
| "js_div a b = NaN"

fun js_gt :: "jsnum \<Rightarrow> jsnum \<Rightarrow> bool" where
  "js_gt (Fin x) (Fin y) = (y < x)"
| "js_gt NaN b = False"
| "js_gt a NaN = False"
| "js_gt PInf b = (b \<noteq> PInf)"
| "js_gt a NInf = (a \<noteq> NInf)"
| "js_gt a b = False"

fun Math_round :: "jsnum \<Rightarrow> jsnum" where
  "Math_round (Fin x) = Fin (of_int \<lfloor>x + 1 / 2\<rfloor>)"
| "Math_round a = a"

definition getBalance :: "env \<Rightarrow> string \<Rightarrow> jsnum io" where
  "getBalance e apiHost =
     api_catch ''Failed to get balance''
       (io_bind (authenticatedFetch e apiHost ''/api/v1/oauth/balance'') (\<lambda>response.
        if \<not> resp_ok response
        then io_throw (HttpError (resp_status response) (resp_statusText response))
        else
          io_bind (response_json response) (\<lambda>json.
          io_bind (io_lift (BalanceResponseSchema_parse json)) (\<lambda>(success, d).
          if \<not> success then io_throw (CherryINOAuthServiceError ''API returned success: false'' None)
          else io_return (js_div (Fin (bd_quota d)) (Fin 500000))))))"

text \<open>
  \<^verbatim>\<open>
  const total = quota + used_quota
  const usedPercent = total > 0 ? Math.round((used_quota / total) * 10000) / 100 : 0
  \<close>
\<close>

definition usedPercent_of :: "rat \<Rightarrow> rat \<Rightarrow> jsnum" where
  "usedPercent_of quota used_quota =
     (let total = js_add (Fin quota) (Fin used_quota)
      in if js_gt total (Fin 0)
         then js_div (Math_round (js_mul (js_div (Fin used_quota) total) (Fin 10000))) (Fin 100)
         else Fin 0)"

record UsageResponse =
  requestCount :: rat
  usedPercent :: jsnum

definition getUsage :: "env \<Rightarrow> string \<Rightarrow> UsageResponse io" where
  "getUsage e apiHost =
     api_catch ''Failed to get usage''
       (io_bind (authenticatedFetch e apiHost ''/api/v1/oauth/usage'') (\<lambda>response.
        if \<not> resp_ok response
        then io_throw (HttpError (resp_status response) (resp_statusText response))
        else
          io_bind (response_json response) (\<lambda>json.
          io_bind (io_lift (UsageResponseSchema_parse json)) (\<lambda>(success, d).
          if \<not> success then io_throw (CherryINOAuthServiceError ''API returned success: false'' None)
          else io_return \<lparr>requestCount = ud_request_count d,
                          usedPercent = usedPercent_of (ud_quota d) (ud_used_quota d)\<rparr>))))"

definition getUserInfo :: "env \<Rightarrow> string \<Rightarrow> UserInfoResponse io" where
  "getUserInfo e apiHost =
     api_catch ''Failed to get user info''
       (io_bind (authenticatedFetch e apiHost ''/api/v1/oauth/userinfo'') (\<lambda>response.
        if \<not> resp_ok response
        then io_throw (HttpError (resp_status response) (resp_statusText response))
        else
          io_bind (response_json response) (\<lambda>json.
          io_bind (io_lift (UserInfoResponseSchema_parse json)) (\<lambda>(success, d).
          if \<not> success then io_throw (CherryINOAuthServiceError ''API returned success: false'' None)
          else io_return d))))"

subsection \<open>Logout\<close>

text \<open>
  \<^verbatim>\<open>
  logout = async (_, apiHost) => {
    try {
      const token = await this.getToken()
      if (token) {
        try { await net.fetch(`${apiHost}/oauth2/revoke`, { method: 'POST', ... }) }
        catch (revokeError) { /* log, go on */ }
      }
      if (fs.existsSync(this.tokenFilePath)) await fs.promises.unlink(this.tokenFilePath)
      if (fs.existsSync(this.refreshTokenFilePath)) await fs.promises.unlink(this.refreshTokenFilePath)
    } catch (error) { throw new CherryINOAuthServiceError('Failed to logout', error) }
  }
  \<close>
\<close>

definition revoke_request :: "string \<Rightarrow> string \<Rightarrow> request" where
  "revoke_request apiHost token =
     \<lparr>req_url = apiHost @ ''/oauth2/revoke'',
      req_method = ''POST'',
      req_headers = [(''Content-Type'', ''application/x-www-form-urlencoded'')],
      req_form = [(''token'', token), (''token_type_hint'', ''access_token'')]\<rparr>"

definition unlink_if_exists :: "env \<Rightarrow> string \<Rightarrow> unit io" where
  "unlink_if_exists e p = (\<lambda>s. if existsSync p s then unlink e p s else (Inr (), s))"

definition logout :: "env \<Rightarrow> string \<Rightarrow> unit io" where
  "logout e apiHost =
     io_catch
       (io_bind (getToken e) (\<lambda>token.
        io_bind (case token of
                   None \<Rightarrow> io_return ()
                 | Some t \<Rightarrow>
                     if t = [] then io_return ()
                     else io_catch (io_bind (net_fetch e (revoke_request apiHost t)) (\<lambda>_. io_return ()))
                                   (\<lambda>revokeError. io_return ())) (\<lambda>_.
        io_bind (unlink_if_exists e (tokenFilePath e)) (\<lambda>_.
        unlink_if_exists e (refreshTokenFilePath e)))))
       (\<lambda>err. io_throw (CherryINOAuthServiceError ''Failed to logout'' (Some err)))"

section \<open>The PKCE flow of the renderer (renderer/src/utils/oauth.ts)\<close>

subsection \<open>PKCE parameters\<close>

text \<open>
  \<^verbatim>\<open>
  function generateRandomString(length) {
    const charset = 'ABCDEFGHIJKLMNOPQRSTUVWXYZabcdefghijklmnopqrstuvwxyz0123456789-._~'
    const array = new Uint8Array(length)
    crypto.getRandomValues(array)
    return Array.from(array, (byte) => charset[byte % charset.length]).join('')
  }
  \<close>
  The random source is a stream of bytes (\<open>entropy\<close>) of which \<open>drawn\<close> have been used:
  \<^verbatim>\<open>crypto.getRandomValues\<close> fills the array with the next \<open>length\<close> of them.
\<close>

definition charset :: string where
  "charset = ''ABCDEFGHIJKLMNOPQRSTUVWXYZabcdefghijklmnopqrstuvwxyz0123456789-._~''"

definition getRandomValues :: "(nat \<Rightarrow> 8 word) \<Rightarrow> nat \<Rightarrow> nat \<Rightarrow> bytes" where
  "getRandomValues entropy drawn len = map entropy [drawn ..< drawn + len]"

definition generateRandomString :: "(nat \<Rightarrow> 8 word) \<Rightarrow> nat \<Rightarrow> nat \<Rightarrow> string" where
  "generateRandomString entropy drawn len =
     map (\<lambda>byte. charset ! (unat byte mod length charset)) (getRandomValues entropy drawn len)"

text \<open>
  \<^verbatim>\<open>btoa\<close> is the browser's: Base64 of RFC 4648 section 4, with padding, of a string whose
  characters are bytes.
\<close>

definition b64_alphabet :: string where
  "b64_alphabet = ''ABCDEFGHIJKLMNOPQRSTUVWXYZabcdefghijklmnopqrstuvwxyz0123456789+/''"

definition b64_char :: "nat \<Rightarrow> char" where
  "b64_char i = b64_alphabet ! i"

fun btoa :: "string \<Rightarrow> string" where
  "btoa [] = []"
| "btoa [a] =
     [b64_char (of_char a div 4), b64_char (of_char a mod 4 * 16), CHR ''='', CHR ''='']"
| "btoa [a, b] =
     [b64_char (of_char a div 4), b64_char (of_char a mod 4 * 16 + of_char b div 16),
      b64_char (of_char b mod 16 * 4), CHR ''='']"
| "btoa (a # b # c # rest) =
     [b64_char (of_char a div 4), b64_char (of_char a mod 4 * 16 + of_char b div 16),
      b64_char (of_char b mod 16 * 4 + of_char c div 64), b64_char (of_char c mod 64)]
     @ btoa rest"

text \<open>
  \<^verbatim>\<open>
  function base64UrlEncode(buffer) {
    const bytes = new Uint8Array(buffer)
    let binary = ''
    for (let i = 0; i < bytes.byteLength; i++) binary += String.fromCharCode(bytes[i])
    return btoa(binary).replace(/\+/g, '-').replace(/\//g, '_').replace(/=+$/, '')
  }
  \<close>
\<close>

fun binary_of :: "bytes \<Rightarrow> string" where
  "binary_of [] = []"
| "binary_of (byte # bytes) = char_of (unat byte) # binary_of bytes"

definition replace_all :: "char \<Rightarrow> char \<Rightarrow> string \<Rightarrow> string" where
  "replace_all c d t = map (\<lambda>x. if x = c then d else x) t"

definition strip_trailing_eq :: "string \<Rightarrow> string" where
  "strip_trailing_eq t = rev (dropWhile (\<lambda>x. x = CHR ''='') (rev t))"

text \<open>The two replacements, as they act on one character.\<close>

definition url_safe :: "char \<Rightarrow> char" where
  "url_safe x = (let y = (if x = CHR ''+'' then CHR ''-'' else x) in if y = CHR ''/'' then CHR ''_'' else y)"

definition base64UrlEncode :: "bytes \<Rightarrow> string" where
  "base64UrlEncode buffer =
     strip_trailing_eq
       (replace_all (CHR ''/'') (CHR ''_'') (replace_all (CHR ''+'') (CHR ''-'') (btoa (binary_of buffer))))"

text \<open>
  \<^verbatim>\<open>
  async function generateCodeChallenge(codeVerifier) {
    const data = new TextEncoder().encode(codeVerifier)
    const hash = await crypto.subtle.digest('SHA-256', data)
    return base64UrlEncode(hash)
  }
  \<close>
  \<^verbatim>\<open>crypto.subtle.digest('SHA-256', _)\<close> is the parameter \<open>sha256\<close>. A \<open>string\<close> is a list of
  bytes, which \<^verbatim>\<open>TextEncoder\<close> leaves as they are (the verifier is ASCII).
\<close>

definition TextEncoder_encode :: "string \<Rightarrow> bytes" where
  "TextEncoder_encode t = map of_char t"

definition generateCodeChallenge :: "(bytes \<Rightarrow> bytes) \<Rightarrow> string \<Rightarrow> string" where
  "generateCodeChallenge sha256 codeVerifier = base64UrlEncode (sha256 (TextEncoder_encode codeVerifier))"

text \<open>
  What RFC 7636 asks for, written down independently of the code: the unreserved
  characters of a code verifier (ALPHA is %x41-5A and %x61-7A, DIGIT is %x30-39), and the
  base64url encoding of RFC 4648 section 5
  (alphabet with \<open>-\<close> and \<open>_\<close>) without padding.
\<close>

definition unreserved :: "char \<Rightarrow> bool" where
  "unreserved c =
     (let n = (of_char c :: nat)
      in (65 \<le> n \<and> n \<le> 90) \<or> (97 \<le> n \<and> n \<le> 122) \<or> (48 \<le> n \<and> n \<le> 57)
         \<or> c = CHR ''-'' \<or> c = CHR ''.'' \<or> c = CHR ''_'' \<or> c = CHR ''~'')"

definition b64url_alphabet :: string where
  "b64url_alphabet = ''ABCDEFGHIJKLMNOPQRSTUVWXYZabcdefghijklmnopqrstuvwxyz0123456789-_''"

definition b64url_char :: "nat \<Rightarrow> char" where
  "b64url_char i = b64url_alphabet ! i"

fun base64url_nopad :: "bytes \<Rightarrow> string" where
  "base64url_nopad [] = []"
| "base64url_nopad [a] = [b64url_char (unat a div 4), b64url_char (unat a mod 4 * 16)]"
| "base64url_nopad [a, b] =
     [b64url_char (unat a div 4), b64url_char (unat a mod 4 * 16 + unat b div 16),
      b64url_char (unat b mod 16 * 4)]"
| "base64url_nopad (a # b # c # rest) =
     [b64url_char (unat a div 4), b64url_char (unat a mod 4 * 16 + unat b div 16),
      b64url_char (unat b mod 16 * 4 + unat c div 64), b64url_char (unat c mod 64)]
     @ base64url_nopad rest"

subsection \<open>Pending flows\<close>

record NewApiOAuthConfig =
  cfg_oauthServer :: string
  cfg_clientId :: "string option"
  cfg_apiHost :: "string option"
  cfg_redirectUri :: "string option"
  cfg_scopes :: "string option"

record ResolvedNewApiOAuthConfig =
  rc_oauthServer :: string
  rc_clientId :: string
  rc_apiHost :: string
  rc_redirectUri :: string
  rc_scopes :: string

definition DEFAULT_REDIRECT_URI :: string where
  "DEFAULT_REDIRECT_URI = ''cherrystudio://oauth/callback''"

definition DEFAULT_CHERRYIN_SCOPES :: string where
  "DEFAULT_CHERRYIN_SCOPES =
     ''openid profile email offline_access balance:read usage:read tokens:read tokens:write''"

definition DEFUALT_CHERRYIN_CLIENT_ID :: string where
  "DEFUALT_CHERRYIN_CLIENT_ID = ''2a348c87-bae1-4756-a62f-b2e97200fd6d''"

text \<open>
  \<^verbatim>\<open>pendingOAuthFlows\<close> is a \<^verbatim>\<open>Map\<close> from the state parameter to the flow's data: a list of
  pairs with distinct keys in insertion order (\<open>AList.update\<close> is \<^verbatim>\<open>set\<close>, \<open>AList.delete\<close>
  is \<^verbatim>\<open>delete\<close>, \<open>map_of\<close> is \<^verbatim>\<open>get\<close>). Timestamps are \<^verbatim>\<open>Date.now()\<close>, in milliseconds.
\<close>

record PendingFlow =
  codeVerifier :: string
  config :: ResolvedNewApiOAuthConfig
  timestamp :: int

type_synonym pending = "(string \<times> PendingFlow) list"

text \<open>
  \<^verbatim>\<open>
  function cleanupExpiredFlows() {
    const now = Date.now()
    for (const [state, flow] of pendingOAuthFlows.entries())
      if (now - flow.timestamp > 10 * 60 * 1000) pendingOAuthFlows.delete(state)
  }
  \<close>
\<close>

fun cleanupExpiredFlows :: "int \<Rightarrow> pending \<Rightarrow> pending" where
  "cleanupExpiredFlows now [] = []"
| "cleanupExpiredFlows now ((st, flow) # entries) =
     (if now - timestamp flow > 10 * 60 * 1000
      then cleanupExpiredFlows now entries
      else (st, flow) # cleanupExpiredFlows now entries)"

text \<open>
  The renderer's surroundings: the random source, the digest, \<^verbatim>\<open>fetch\<close> (as \<open>net\<close> above)
  and the platform's string conversion. \<open>rstate\<close> is what the module and its callbacks
  change: the pending flows, how many random bytes were drawn, the requests sent, the
  calls of \<^verbatim>\<open>window.api.cherryin.saveToken\<close> and of \<^verbatim>\<open>setKey\<close>, and the windows opened.
\<close>

record renv =
  entropy :: "nat \<Rightarrow> 8 word"
  sha256 :: "bytes \<Rightarrow> bytes"
  fetch :: "request list \<Rightarrow> request \<Rightarrow> response option"
  r_toString :: "jsval \<Rightarrow> string"

record AuthUrl =
  au_endpoint :: string
  au_searchParams :: "(string \<times> string) list"

record rstate =
  pendingOAuthFlows :: pending
  drawn :: nat
  fetched :: "request list"
  ipc_saveToken_calls :: "(jsval \<times> jsval) list"
  setKey_calls :: "string list"
  opened :: "AuthUrl list"

text \<open>
  One call of \<^verbatim>\<open>oauthWithCherryIn\<close> owns a state parameter, a protocol listener, a timer
  and a promise. A promise is settled once: later \<^verbatim>\<open>resolve\<close>/\<^verbatim>\<open>reject\<close> calls do nothing.
\<close>

datatype promise = Pending | Resolved string | Rejected error

record invocation =
  inv_state :: string
  listening :: bool
  timeoutId :: bool
  promise :: promise

fun settle :: "promise \<Rightarrow> promise \<Rightarrow> promise" where
  "settle Pending p = p"
| "settle q p = q"

type_synonym 'a flow_eff = "('a, invocation \<times> rstate) eff"

definition reject :: "error \<Rightarrow> unit flow_eff" where
  "reject err = (\<lambda>(inv, st). (Inr (), (inv\<lparr>promise := settle (promise inv) (Rejected err)\<rparr>, st)))"

definition resolve :: "string \<Rightarrow> unit flow_eff" where
  "resolve v = (\<lambda>(inv, st). (Inr (), (inv\<lparr>promise := settle (promise inv) (Resolved v)\<rparr>, st)))"

text \<open>
  \<^verbatim>\<open>
  function cleanup() {
    removeListener()
    if (timeoutId) { clearTimeout(timeoutId); timeoutId = null }
    pendingOAuthFlows.delete(state)
  }
  \<close>
\<close>

definition cleanup :: "unit flow_eff" where
  "cleanup = (\<lambda>(inv, st).
     (Inr (), (inv\<lparr>listening := False, timeoutId := False\<rparr>,
               st\<lparr>pendingOAuthFlows := AList.delete (inv_state inv) (pendingOAuthFlows st)\<rparr>)))"

text \<open>
  The synchronous part of \<^verbatim>\<open>oauthWithCherryIn\<close>, up to the creation of the promise:
  \<^verbatim>\<open>
  cleanupExpiredFlows()
  const clientId = config.clientId ?? DEFUALT_CHERRYIN_CLIENT_ID  // and so on
  const codeVerifier = generateRandomString(64)
  const codeChallenge = await generateCodeChallenge(codeVerifier)
  const state = generateRandomString(32)
  pendingOAuthFlows.set(state, { codeVerifier, config: resolvedConfig, timestamp: Date.now() })
  const authUrl = new URL(`${oauthServer}/oauth2/auth`)
  authUrl.searchParams.set('client_id', clientId)  // ... seven parameters
  window.open(authUrl.toString(), 'oauth', ...)
  return new Promise((resolve, reject) => { listener; timeout })
  \<close>
  \<open>now\<close> and \<open>now'\<close> are the two readings of \<^verbatim>\<open>Date.now()\<close>. The server address is taken
  to be one \<^verbatim>\<open>new URL\<close> accepts (the caller passes \<^verbatim>\<open>'https://open.cherryin.ai'\<close>) and to
  carry no query of its own, so the URL's parameters are the seven the code sets.
\<close>

definition resolve_config :: "NewApiOAuthConfig \<Rightarrow> ResolvedNewApiOAuthConfig" where
  "resolve_config cfg =
     \<lparr>rc_oauthServer = cfg_oauthServer cfg,
      rc_clientId = (case cfg_clientId cfg of None \<Rightarrow> DEFUALT_CHERRYIN_CLIENT_ID | Some c \<Rightarrow> c),
      rc_apiHost = (case cfg_apiHost cfg of None \<Rightarrow> cfg_oauthServer cfg | Some h \<Rightarrow> h),
      rc_redirectUri = (case cfg_redirectUri cfg of None \<Rightarrow> DEFAULT_REDIRECT_URI | Some r \<Rightarrow> r),
      rc_scopes = (case cfg_scopes cfg of None \<Rightarrow> DEFAULT_CHERRYIN_SCOPES | Some sc \<Rightarrow> sc)\<rparr>"

definition build_authUrl :: "ResolvedNewApiOAuthConfig \<Rightarrow> string \<Rightarrow> string \<Rightarrow> AuthUrl" where
  "build_authUrl rc st codeChallenge =
     \<lparr>au_endpoint = rc_oauthServer rc @ ''/oauth2/auth'',
      au_searchParams =
        AList.update ''code_challenge_method'' ''S256''
        (AList.update ''code_challenge'' codeChallenge
        (AList.update ''state'' st
        (AList.update ''scope'' (rc_scopes rc)
        (AList.update ''response_type'' ''code''
        (AList.update ''redirect_uri'' (rc_redirectUri rc)
        (AList.update ''client_id'' (rc_clientId rc) []))))))\<rparr>"

definition oauthWithCherryIn_start ::
  "renv \<Rightarrow> NewApiOAuthConfig \<Rightarrow> int \<Rightarrow> int \<Rightarrow> rstate \<Rightarrow> invocation \<times> rstate" where
  "oauthWithCherryIn_start e cfg now now' st0 =
     (let st1 = st0\<lparr>pendingOAuthFlows := cleanupExpiredFlows now (pendingOAuthFlows st0)\<rparr>;
          resolvedConfig = resolve_config cfg;
          codeVerifier = generateRandomString (entropy e) (drawn st1) 64;
          st2 = st1\<lparr>drawn := drawn st1 + 64\<rparr>;
          codeChallenge = generateCodeChallenge (sha256 e) codeVerifier;
          st = generateRandomString (entropy e) (drawn st2) 32;
          st3 = st2\<lparr>drawn := drawn st2 + 32\<rparr>;
          st4 = st3\<lparr>pendingOAuthFlows :=
                  AList.update st \<lparr>codeVerifier = codeVerifier, config = resolvedConfig,
                                   timestamp = now'\<rparr> (pendingOAuthFlows st3)\<rparr>;
          authUrl = build_authUrl resolvedConfig st codeChallenge;
          st5 = st4\<lparr>opened := opened st4 @ [authUrl]\<rparr>
      in (\<lparr>inv_state = st, listening = True, timeoutId = True, promise = Pending\<rparr>, st5))"

subsection \<open>The protocol callback\<close>

text \<open>
  \<open>data\<close> is \<^verbatim>\<open>new URL(data.url)\<close>: \<open>None\<close> when the constructor throws, else the host
  name, the path and the query pairs (\<^verbatim>\<open>params.get\<close> is \<open>map_of\<close>: the first value).
\<close>

record CallbackUrl =
  hostname :: string
  pathname :: string
  searchParams :: "(string \<times> string) list"

definition token_request :: "ResolvedNewApiOAuthConfig \<Rightarrow> string \<Rightarrow> string \<Rightarrow> request" where
  "token_request storedConfig code storedVerifier =
     \<lparr>req_url = rc_oauthServer storedConfig @ ''/oauth2/token'',
      req_method = ''POST'',
      req_headers = [(''Content-Type'', ''application/x-www-form-urlencoded'')],
      req_form = [(''grant_type'', ''authorization_code''),
                  (''client_id'', rc_clientId storedConfig),
                  (''code'', code),
                  (''redirect_uri'', if rc_redirectUri storedConfig = [] then DEFAULT_REDIRECT_URI
                                     else rc_redirectUri storedConfig),
                  (''code_verifier'', storedVerifier)]\<rparr>"

definition apiKeys_request :: "renv \<Rightarrow> ResolvedNewApiOAuthConfig \<Rightarrow> jsval \<Rightarrow> request" where
  "apiKeys_request e storedConfig accessToken =
     \<lparr>req_url = rc_apiHost storedConfig @ ''/api/v1/oauth/tokens'',
      req_method = ''GET'',
      req_headers = [(''Authorization'', bearer (r_toString e) accessToken)],
      req_form = []\<rparr>"

definition fetch_io :: "renv \<Rightarrow> request \<Rightarrow> response flow_eff" where
  "fetch_io e rq = (\<lambda>(inv, st).
     (case fetch e (fetched st) rq of None \<Rightarrow> Inl FetchFailed | Some r \<Rightarrow> Inr r,
      (inv, st\<lparr>fetched := fetched st @ [rq]\<rparr>)))"

text \<open>
  \<^verbatim>\<open>try { await window.api.cherryin.saveToken(accessToken, refreshToken) } catch { }\<close>:
  whether the host saves or throws, the handler goes on.
\<close>

definition ipc_saveToken :: "jsval \<Rightarrow> jsval \<Rightarrow> unit flow_eff" where
  "ipc_saveToken accessToken refreshToken = (\<lambda>(inv, st).
     (Inr (), (inv, st\<lparr>ipc_saveToken_calls := ipc_saveToken_calls st @ [(accessToken, refreshToken)]\<rparr>)))"

definition setKey :: "string \<Rightarrow> unit flow_eff" where
  "setKey k = (\<lambda>(inv, st). (Inr (), (inv, st\<lparr>setKey_calls := setKey_calls st @ [k]\<rparr>)))"

text \<open>
  \<^verbatim>\<open>
  const extractKey = (item) => {
    if (typeof item === 'string') return item
    if (item && typeof item.key === 'string') return item.key
    if (item && typeof item.token === 'string') return item.token
    return null
  }
  apiKeys = list.map(extractKey).filter(Boolean).join(',')
  \<close>
\<close>

fun extractKey :: "jsval \<Rightarrow> string option" where
  "extractKey (JStr t) = Some t"
| "extractKey (JObj kvs) =
     (case map_of kvs ''key'' of
        Some (JStr k) \<Rightarrow> Some k
      | _ \<Rightarrow> (case map_of kvs ''token'' of Some (JStr t) \<Rightarrow> Some t | _ \<Rightarrow> None))"
| "extractKey v = None"

fun join_comma :: "string list \<Rightarrow> string" where
  "join_comma [] = []"
| "join_comma [x] = x"
| "join_comma (x # y # zs) = x @ '','' @ join_comma (y # zs)"

definition keys_of_items :: "jsval list \<Rightarrow> string" where
  "keys_of_items items =
     join_comma (map the (filter (\<lambda>k. \<not> falsy_string k) (map extractKey items)))"

definition apiKeys_of :: "jsval \<Rightarrow> error + string" where
  "apiKeys_of apiKeysData =
     (case apiKeysData of
        JArr items \<Rightarrow> Inr (keys_of_items items)
      | _ \<Rightarrow>
         (case get_prop apiKeysData ''data'' of
            Inl err \<Rightarrow> Inl err
          | Inr (JArr items) \<Rightarrow> Inr (keys_of_items items)
          | Inr _ \<Rightarrow> Inl (Error ''Unexpected API keys response format'')))"

text \<open>The handler after the state checks: token exchange, API keys, settling the promise.\<close>

definition exchange :: "renv \<Rightarrow> string \<Rightarrow> PendingFlow \<Rightarrow> unit flow_eff" where
  "exchange e code flowData =
     io_bind (fetch_io e (token_request (config flowData) code (codeVerifier flowData))) (\<lambda>tokenResponse.
     if \<not> resp_ok tokenResponse
     then io_throw (StatusError ''Failed to exchange code for token: '' (resp_status tokenResponse))
     else
       io_bind (response_json tokenResponse) (\<lambda>tokenData.
       io_bind (io_lift (get_prop tokenData ''access_token'')) (\<lambda>accessToken.
       io_bind (io_lift (get_prop tokenData ''refresh_token'')) (\<lambda>refreshToken.
       if \<not> truthy accessToken
       then io_bind (reject (Error ''No access token received'')) (\<lambda>_. cleanup)
       else
         io_bind (ipc_saveToken accessToken refreshToken) (\<lambda>_.
         io_bind (fetch_io e (apiKeys_request e (config flowData) accessToken)) (\<lambda>apiKeysResponse.
         if \<not> resp_ok apiKeysResponse
         then io_throw (StatusError ''Failed to fetch API keys: '' (resp_status apiKeysResponse))
         else
           io_bind (response_json apiKeysResponse) (\<lambda>apiKeysData.
           io_bind (io_lift (apiKeys_of apiKeysData)) (\<lambda>apiKeys.
           io_bind (if apiKeys \<noteq> []
                    then io_bind (setKey apiKeys) (\<lambda>_. resolve apiKeys)
                    else reject (Error ''No API keys received'')) (\<lambda>_.
           cleanup)))))))))"

text \<open>
  The listener given to \<^verbatim>\<open>window.api.protocol.onReceiveData\<close>, in the order of the source:
  \<^verbatim>\<open>
  try {
    const url = new URL(data.url)
    if (url.hostname !== 'oauth' || url.pathname !== '/callback') return
    const code = params.get('code'), returnedState = params.get('state'), error = params.get('error')
    if (error) { reject(new Error(`OAuth error: ${errorDesc}`)); cleanup(); return }
    if (!code) { reject(new Error('No authorization code received')); cleanup(); return }
    if (!returnedState || !pendingOAuthFlows.has(returnedState)) return
    if (returnedState !== state) return
    const flowData = pendingOAuthFlows.get(returnedState)
    if (!flowData) { reject(new Error('OAuth flow expired or not found')); cleanup(); return }
    pendingOAuthFlows.delete(returnedState)
    ... exchange ...
  } catch (error) { reject(error); cleanup() }
  \<close>
\<close>

definition state_checks :: "renv \<Rightarrow> string \<Rightarrow> string option \<Rightarrow> unit flow_eff" where
  "state_checks e code returnedState = (\<lambda>(inv, st).
     case returnedState of
       None \<Rightarrow> (Inr (), (inv, st))
     | Some rs \<Rightarrow>
         if rs = [] \<or> map_of (pendingOAuthFlows st) rs = None then (Inr (), (inv, st))
         else if rs \<noteq> inv_state inv then (Inr (), (inv, st))
         else
           (case map_of (pendingOAuthFlows st) rs of
              None \<Rightarrow> io_bind (reject (Error ''OAuth flow expired or not found'')) (\<lambda>_. cleanup) (inv, st)
            | Some flowData \<Rightarrow>
                exchange e code flowData
                  (inv, st\<lparr>pendingOAuthFlows := AList.delete rs (pendingOAuthFlows st)\<rparr>)))"

definition onReceiveData :: "renv \<Rightarrow> CallbackUrl option \<Rightarrow> unit flow_eff" where
  "onReceiveData e data =
     io_catch
       (case data of
          None \<Rightarrow> io_throw TypeError
        | Some url \<Rightarrow>
            if hostname url \<noteq> ''oauth'' \<or> pathname url \<noteq> ''/callback'' then io_return ()
            else
              (let params = searchParams url;
                   code = map_of params ''code'';
                   returnedState = map_of params ''state'';
                   err = map_of params ''error''
               in case err of
                    Some (x # xs) \<Rightarrow>
                      (let errorDesc = (case map_of params ''error_description'' of
                                          Some (d # ds) \<Rightarrow> d # ds
                                        | _ \<Rightarrow> x # xs)
                       in io_bind (reject (Error (''OAuth error: '' @ errorDesc))) (\<lambda>_. cleanup))
                  | _ \<Rightarrow>
                      (case code of
                         Some (c # cs) \<Rightarrow> state_checks e (c # cs) returnedState
                       | _ \<Rightarrow> io_bind (reject (Error ''No authorization code received''))
                                       (\<lambda>_. cleanup))))
       (\<lambda>err. io_bind (reject err) (\<lambda>_. cleanup))"

text \<open>A protocol message reaches the listener only while it is registered.\<close>

definition deliver :: "renv \<Rightarrow> CallbackUrl option \<Rightarrow> invocation \<times> rstate \<Rightarrow> invocation \<times> rstate" where
  "deliver e data w = (if listening (fst w) then snd (onReceiveData e data w) else w)"

text \<open>
  \<^verbatim>\<open>
  timeoutId = setTimeout(() => { cleanup(); reject(new Error('OAuth flow timed out')) },
                         10 * 60 * 1000)
  \<close>
  The timer fires ten minutes after the start unless \<^verbatim>\<open>cleanup\<close> has cleared it.
\<close>

definition timeout_fires :: "invocation \<times> rstate \<Rightarrow> invocation \<times> rstate" where
  "timeout_fires w =
     (if timeoutId (fst w)
      then snd (io_bind cleanup (\<lambda>_. reject (Error ''OAuth flow timed out'')) w)
      else w)"

section \<open>Mini-app region filtering (renderer/src/hooks/useMinapps.ts)\<close>

text \<open>
  \<^verbatim>\<open>SupportedRegion\<close> is the union type \<^verbatim>\<open>'CN' | 'Global'\<close>. Of \<^verbatim>\<open>MinAppType\<close> the hook
  reads two fields only: \<^verbatim>\<open>id\<close> and the optional \<^verbatim>\<open>supportedRegions\<close>; every other field of
  an app lives in the record's extension.
\<close>

datatype SupportedRegion = CN | Global

record MinAppType =
  app_id :: string
  supportedRegions :: "SupportedRegion list option"

text \<open>
  \<^verbatim>\<open>
  const isVisibleForRegion = (app, region) => {
    if (region === 'CN') return true
    if (!app.supportedRegions || app.supportedRegions.length === 0) return false
    return app.supportedRegions.includes('Global')
  }
  \<close>
\<close>

fun isVisibleForRegion :: "'a MinAppType_scheme \<Rightarrow> SupportedRegion \<Rightarrow> bool" where
  "isVisibleForRegion app CN = True"
| "isVisibleForRegion app Global =
     (case supportedRegions app of
        None \<Rightarrow> False
      | Some rs \<Rightarrow> if length rs = 0 then False else Global \<in> set rs)"

definition filterByRegion :: "'a MinAppType_scheme list \<Rightarrow> SupportedRegion \<Rightarrow> 'a MinAppType_scheme list" where
  "filterByRegion apps region = filter (\<lambda>app. isVisibleForRegion app region) apps"

text \<open>
  \<^verbatim>\<open>allMinApps\<close> (renderer/src/config/minapps) is the template list of apps; it is a
  parameter. The hook reads \<^verbatim>\<open>enabled\<close>, \<^verbatim>\<open>disabled\<close> and \<^verbatim>\<open>pinned\<close> from the Redux store;
  each \<^verbatim>\<open>update...\<close> function below returns the list it dispatches. A \<^verbatim>\<open>Set\<close> of ids is
  the list of ids, asked for membership.
\<close>

definition getRegionHiddenApps :: "'a MinAppType_scheme list \<Rightarrow> SupportedRegion \<Rightarrow> 'a MinAppType_scheme list" where
  "getRegionHiddenApps allMinApps region = filter (\<lambda>app. \<not> isVisibleForRegion app region) allMinApps"

definition getHiddenApps :: "'a MinAppType_scheme list \<Rightarrow> SupportedRegion \<Rightarrow> string list" where
  "getHiddenApps allMinApps region = map app_id (getRegionHiddenApps allMinApps region)"

text \<open>
  \<^verbatim>\<open>
  mapApps = (apps) => apps.map((app) => allMinApps.find((item) => item.id === app.id) || app)
  getAllApps = (apps, disabledApps) => [...mapApps(apps), ...missingApps]
  minapps = filterByRegion(getAllApps(enabled, disabled).filter(not disabled), effectiveRegion)
  \<close>
\<close>

definition mapApps :: "'a MinAppType_scheme list \<Rightarrow> 'a MinAppType_scheme list \<Rightarrow> 'a MinAppType_scheme list" where
  "mapApps allMinApps apps =
     map (\<lambda>app. case find (\<lambda>item. app_id item = app_id app) allMinApps of
                   Some item \<Rightarrow> item
                 | None \<Rightarrow> app) apps"

definition getAllApps ::
  "'a MinAppType_scheme list \<Rightarrow> 'a MinAppType_scheme list \<Rightarrow> 'a MinAppType_scheme list
   \<Rightarrow> 'a MinAppType_scheme list" where
  "getAllApps allMinApps apps disabledApps =
     (let mappedApps = mapApps allMinApps apps;
          existingIds = map app_id mappedApps;
          disabledIds = map app_id disabledApps;
          missingApps = filter (\<lambda>app. app_id app \<notin> set existingIds \<and> app_id app \<notin> set disabledIds)
                               allMinApps
      in mappedApps @ missingApps)"

definition minapps ::
  "'a MinAppType_scheme list \<Rightarrow> 'a MinAppType_scheme list \<Rightarrow> 'a MinAppType_scheme list
   \<Rightarrow> SupportedRegion \<Rightarrow> 'a MinAppType_scheme list" where
  "minapps allMinApps enabled disabled effectiveRegion =
     (let allApps = getAllApps allMinApps enabled disabled;
          disabledIds = map app_id disabled;
          withoutDisabled = filter (\<lambda>app. app_id app \<notin> set disabledIds) allApps
      in filterByRegion withoutDisabled effectiveRegion)"

definition disabledApps ::
  "'a MinAppType_scheme list \<Rightarrow> 'a MinAppType_scheme list \<Rightarrow> SupportedRegion
   \<Rightarrow> 'a MinAppType_scheme list" where
  "disabledApps allMinApps disabled effectiveRegion =
     filterByRegion (mapApps allMinApps disabled) effectiveRegion"

text \<open>
  \<^verbatim>\<open>
  updateMinapps = (visibleApps) => {
    const disabledIds = new Set(disabled.map((app) => app.id))
    const withoutDisabled = visibleApps.filter((app) => !disabledIds.has(app.id))
    const hiddenIds = getHiddenApps(effectiveRegion)
    const preservedHidden = enabled.filter((app) => hiddenIds.has(app.id) && !disabledIds.has(app.id))
    const visibleIds = new Set(withoutDisabled.map((app) => app.id))
    const toAppend = preservedHidden.filter((app) => !visibleIds.has(app.id))
    const merged = [...withoutDisabled, ...toAppend]
    const existingIds = new Set(merged.map((app) => app.id))
    const missingApps = allMinApps.filter((app) => !existingIds.has(app.id) && !disabledIds.has(app.id))
    dispatch(setMinApps([...merged, ...missingApps]))
  }
  \<close>
\<close>

definition updateMinapps ::
  "'a MinAppType_scheme list \<Rightarrow> 'a MinAppType_scheme list \<Rightarrow> 'a MinAppType_scheme list
   \<Rightarrow> SupportedRegion \<Rightarrow> 'a MinAppType_scheme list \<Rightarrow> 'a MinAppType_scheme list" where
  "updateMinapps allMinApps enabled disabled effectiveRegion visibleApps =
     (let disabledIds = map app_id disabled;
          withoutDisabled = filter (\<lambda>app. app_id app \<notin> set disabledIds) visibleApps;
          hiddenIds = getHiddenApps allMinApps effectiveRegion;
          preservedHidden = filter (\<lambda>app. app_id app \<in> set hiddenIds \<and> app_id app \<notin> set disabledIds)
                                   enabled;
          visibleIds = map app_id withoutDisabled;
          toAppend = filter (\<lambda>app. app_id app \<notin> set visibleIds) preservedHidden;
          merged = withoutDisabled @ toAppend;
          existingIds = map app_id merged;
          missingApps = filter (\<lambda>app. app_id app \<notin> set existingIds \<and> app_id app \<notin> set disabledIds)
                               allMinApps
      in merged @ missingApps)"

text \<open>
  \<^verbatim>\<open>
  updateDisabledMinapps = (visibleDisabledApps) => {
    const hiddenIds = getHiddenApps(effectiveRegion)
    const preservedHidden = disabled.filter((app) => hiddenIds.has(app.id))
    const visibleIds = new Set(visibleDisabledApps.map((app) => app.id))
    const toAppend = preservedHidden.filter((app) => !visibleIds.has(app.id))
    dispatch(setDisabledMinApps([...visibleDisabledApps, ...toAppend]))
  }
  \<close>
  \<^verbatim>\<open>updatePinnedMinapps\<close> is the same function of \<^verbatim>\<open>pinned\<close>.
\<close>

definition updateDisabledMinapps ::
  "'a MinAppType_scheme list \<Rightarrow> 'a MinAppType_scheme list \<Rightarrow> SupportedRegion
   \<Rightarrow> 'a MinAppType_scheme list \<Rightarrow> 'a MinAppType_scheme list" where
  "updateDisabledMinapps allMinApps disabled effectiveRegion visibleDisabledApps =
     (let hiddenIds = getHiddenApps allMinApps effectiveRegion;
          preservedHidden = filter (\<lambda>app. app_id app \<in> set hiddenIds) disabled;
          visibleIds = map app_id visibleDisabledApps;
          toAppend = filter (\<lambda>app. app_id app \<notin> set visibleIds) preservedHidden
      in visibleDisabledApps @ toAppend)"

definition updatePinnedMinapps ::
  "'a MinAppType_scheme list \<Rightarrow> 'a MinAppType_scheme list \<Rightarrow> SupportedRegion
   \<Rightarrow> 'a MinAppType_scheme list \<Rightarrow> 'a MinAppType_scheme list" where
  "updatePinnedMinapps allMinApps pinned effectiveRegion visiblePinnedApps =
     (let hiddenIds = getHiddenApps allMinApps effectiveRegion;
          preservedHidden = filter (\<lambda>app. app_id app \<in> set hiddenIds) pinned;
          visibleIds = map app_id visiblePinnedApps;
          toAppend = filter (\<lambda>app. app_id app \<notin> set visibleIds) preservedHidden
      in visiblePinnedApps @ toAppend)"

section \<open>Reasoning about effects\<close>

text \<open>
  \<open>wp m s Q\<close>: running \<open>m\<close> in state \<open>s\<close> ends with a result and a state that satisfy
  \<open>Q\<close>. Every effect above is total, so this is a property of the one run there is.
\<close>

definition wp :: "('a, 's) eff \<Rightarrow> 's \<Rightarrow> (error + 'a \<Rightarrow> 's \<Rightarrow> bool) \<Rightarrow> bool" where
  "wp m s Q = Q (fst (m s)) (snd (m s))"

text \<open>
  What one run of the protocol listener of the invocation \<open>iv\<close>, started in the renderer
  state \<open>st\<close>, leaves behind: it never throws, keeps the invocation's state parameter,
  adds no pending entry, and either changes neither the invocation nor the pending flows
  nor the requests sent, or has removed the invocation's entry, its listener and its timer.
\<close>

definition handled ::
  "invocation \<Rightarrow> rstate \<Rightarrow> error + unit \<Rightarrow> invocation \<times> rstate \<Rightarrow> bool" where
  "handled iv st r w' =
     (r = Inr ()
      \<and> inv_state (fst w') = inv_state iv
      \<and> set (pendingOAuthFlows (snd w')) \<subseteq> set (pendingOAuthFlows st)
      \<and> ((fst w' = iv \<and> pendingOAuthFlows (snd w') = pendingOAuthFlows st
           \<and> fetched (snd w') = fetched st)
          \<or> (map_of (pendingOAuthFlows (snd w')) (inv_state iv) = None
              \<and> \<not> listening (fst w') \<and> \<not> timeoutId (fst w'))))"

text \<open>
  What a run of the listener that handles the invocation's own callback leaves behind: the
  entry, the listener and the timer are gone and the promise is settled (a promise that
  was settled before keeps its value).
\<close>

definition settled :: "invocation \<Rightarrow> error + unit \<Rightarrow> invocation \<times> rstate \<Rightarrow> bool" where
  "settled iv r w' =
     (r = Inr ()
      \<and> map_of (pendingOAuthFlows (snd w')) (inv_state iv) = None
      \<and> \<not> listening (fst w') \<and> \<not> timeoutId (fst w')
      \<and> promise (fst w') \<noteq> Pending
      \<and> (promise iv \<noteq> Pending \<longrightarrow> promise (fst w') = promise iv))"

section \<open>Example environments\<close>

text \<open>
  A host whose \<^verbatim>\<open>safeStorage\<close> knows three strings, whose file operations succeed and
  whose network is down (\<open>env_offline\<close>), and the same host with a server (\<open>env_online\<close>)
  that answers 401 to the stale token \<^verbatim>\<open>old\<close>, issues \<^verbatim>\<open>tok\<close> at the token endpoint, and
  answers 200 to anything else.
\<close>

definition example_encrypt :: "string \<Rightarrow> bytes option" where
  "example_encrypt t =
     (if t = ''tok'' then Some [1, 2, 3]
      else if t = ''ref'' then Some [4, 5]
      else if t = ''old'' then Some [6]
      else None)"

definition example_decrypt :: "bytes \<Rightarrow> string option" where
  "example_decrypt b =
     (if b = [1, 2, 3] then Some ''tok''
      else if b = [4, 5] then Some ''ref''
      else if b = [6] then Some ''old''
      else None)"

definition env_offline :: env where
  "env_offline =
     \<lparr>configDir = ''/cfg'',
      encryptString = example_encrypt,
      decryptString = example_decrypt,
      toString = (\<lambda>v. ''[object]''),
      net = (\<lambda>earlier rq. None),
      mkdir_fails = (\<lambda>d. False),
      write_fails = (\<lambda>p. False),
      read_fails = (\<lambda>p. False),
      unlink_fails = (\<lambda>p. False)\<rparr>"

definition response_401 :: response where
  "response_401 = \<lparr>resp_status = 401, resp_statusText = ''Unauthorized'', resp_json = None\<rparr>"

definition response_token :: response where
  "response_token =
     \<lparr>resp_status = 200, resp_statusText = ''OK'',
      resp_json = Some (JObj [(''access_token'', JStr ''tok''), (''refresh_token'', JStr ''ref'')])\<rparr>"

definition response_balance :: response where
  "response_balance =
     \<lparr>resp_status = 200, resp_statusText = ''OK'',
      resp_json = Some (JObj [(''success'', JBool True),
                              (''data'', JObj [(''quota'', JNum 750000), (''used_quota'', JNum 250000)])])\<rparr>"

definition example_server :: "request list \<Rightarrow> request \<Rightarrow> response option" where
  "example_server earlier rq =
     (if req_url rq = ''https://open.cherryin.ai/oauth2/token'' then Some response_token
      else if map_of (req_headers rq) ''Authorization'' = Some ''Bearer old'' then Some response_401
      else Some response_balance)"

definition env_online :: env where
  "env_online = env_offline\<lparr>net := example_server\<rparr>"

definition state_empty :: state where
  "state_empty = \<lparr>files = Map.empty, dirs = {}, sent = []\<rparr>"

definition state_saved :: state where
  "state_saved =
     \<lparr>files = [''/cfg/.cherryin_oauth_token'' \<mapsto> [1, 2, 3],
               ''/cfg/.cherryin_oauth_refresh_token'' \<mapsto> [4, 5]],
      dirs = {''/cfg''}, sent = []\<rparr>"

definition state_stale :: state where
  "state_stale =
     \<lparr>files = [''/cfg/.cherryin_oauth_token'' \<mapsto> [6],
               ''/cfg/.cherryin_oauth_refresh_token'' \<mapsto> [4, 5]],
      dirs = {''/cfg''}, sent = []\<rparr>"

text \<open>
  A host whose server answers every request with the usage report
  \<^verbatim>\<open>{ request_count: 12, used_quota: 57, quota: 743 }\<close>.
\<close>

definition response_usage :: response where
  "response_usage =
     \<lparr>resp_status = 200, resp_statusText = ''OK'',
      resp_json = Some (JObj [(''success'', JBool True),
                              (''data'', JObj [(''request_count'', JNum 12),
                                               (''used_quota'', JNum 57),
                                               (''quota'', JNum 743)])])\<rparr>"

definition env_usage :: env where
  "env_usage = env_offline\<lparr>net := (\<lambda>earlier rq. Some response_usage)\<rparr>"

text \<open>
  A renderer without network, with two flows pending (\<^verbatim>\<open>mine\<close> and \<^verbatim>\<open>other\<close>), the
  invocation that owns \<^verbatim>\<open>mine\<close>, and the callback
  \<^verbatim>\<open>cherrystudio://oauth/callback?error=access_denied&state=other\<close>.
\<close>

definition renv_example :: renv where
  "renv_example =
     \<lparr>entropy = (\<lambda>i. 0), sha256 = (\<lambda>b. []), fetch = (\<lambda>earlier rq. None),
      r_toString = (\<lambda>v. ''[object]'')\<rparr>"

definition example_config :: ResolvedNewApiOAuthConfig where
  "example_config =
     resolve_config \<lparr>cfg_oauthServer = ''https://open.cherryin.ai'', cfg_clientId = None,
                     cfg_apiHost = None, cfg_redirectUri = None, cfg_scopes = None\<rparr>"

definition flow_mine :: PendingFlow where
  "flow_mine = \<lparr>codeVerifier = ''verifier-of-mine'', config = example_config, timestamp = 1000\<rparr>"

definition flow_other :: PendingFlow where
  "flow_other = \<lparr>codeVerifier = ''verifier-of-other'', config = example_config, timestamp = 200000\<rparr>"

definition rstate_two :: rstate where
  "rstate_two =
     \<lparr>pendingOAuthFlows = [(''mine'', flow_mine), (''other'', flow_other)], drawn = 192,
      fetched = [], ipc_saveToken_calls = [], setKey_calls = [], opened = []\<rparr>"

definition inv_mine :: invocation where
  "inv_mine = \<lparr>inv_state = ''mine'', listening = True, timeoutId = True, promise = Pending\<rparr>"

definition callback_error_other :: "CallbackUrl option" where
  "callback_error_other =
     Some \<lparr>hostname = ''oauth'', pathname = ''/callback'',
           searchParams = [(''error'', ''access_denied''), (''state'', ''other'')]\<rparr>"

text \<open>
  The same renderer with a server that issues \<^verbatim>\<open>tok\<close> at the token endpoint and lists two
  API keys, and the flow's own callback \<^verbatim>\<open>cherrystudio://oauth/callback?code=abc&state=mine\<close>.
\<close>

definition response_keys :: response where
  "response_keys =
     \<lparr>resp_status = 200, resp_statusText = ''OK'',
      resp_json = Some (JObj [(''data'', JArr [JObj [(''key'', JStr ''sk-1'')], JStr ''sk-2''])])\<rparr>"

definition renv_server :: renv where
  "renv_server =
     renv_example\<lparr>fetch := (\<lambda>earlier rq.
        if req_url rq = ''https://open.cherryin.ai/oauth2/token'' then Some response_token
        else Some response_keys)\<rparr>"

definition callback_own_code :: CallbackUrl where
  "callback_own_code =
     \<lparr>hostname = ''oauth'', pathname = ''/callback'',
      searchParams = [(''code'', ''abc''), (''state'', ''mine'')]\<rparr>"

text \<open>
  Two apps: \<^verbatim>\<open>a\<close> supports both regions; \<^verbatim>\<open>x\<close> has no \<^verbatim>\<open>supportedRegions\<close>.
\<close>

definition app_a :: MinAppType where
  "app_a = \<lparr>app_id = ''a'', supportedRegions = Some [CN, Global]\<rparr>"

definition app_x :: MinAppType where
  "app_x = \<lparr>app_id = ''x'', supportedRegions = None\<rparr>"

section \<open>Rules for effects\<close>

lemma wp_return [simp]: "wp (io_return x) s Q = Q (Inr x) s"
  by (simp add: wp_def io_return_def)

lemma wp_throw [simp]: "wp (io_throw err) s Q = Q (Inl err) s"
  by (simp add: wp_def io_throw_def)

lemma wp_lift [simp]: "wp (io_lift r) s Q = Q r s"
  by (simp add: wp_def io_lift_def)

lemma wp_bind [simp]:
  "wp (io_bind m f) s Q =
     wp m s (\<lambda>r s'. case r of Inl err \<Rightarrow> Q (Inl err) s' | Inr x \<Rightarrow> wp (f x) s' Q)"
  by (simp add: wp_def io_bind_def split: prod.split sum.split)

lemma wp_catch [simp]:
  "wp (io_catch m h) s Q =
     wp m s (\<lambda>r s'. case r of Inl err \<Rightarrow> wp (h err) s' Q | Inr x \<Rightarrow> Q (Inr x) s')"
  by (simp add: wp_def io_catch_def split: prod.split sum.split)

lemma wp_if [simp]: "wp (if b then m else n) s Q = (if b then wp m s Q else wp n s Q)"
  by simp

lemma wp_case_option [simp]:
  "wp (case x of None \<Rightarrow> m | Some y \<Rightarrow> n y) s Q =
     (case x of None \<Rightarrow> wp m s Q | Some y \<Rightarrow> wp (n y) s Q)"
  by (simp split: option.split)

lemma wp_case_prod [simp]:
  "wp (case p of (a, b) \<Rightarrow> n a b) s Q = (case p of (a, b) \<Rightarrow> wp (n a b) s Q)"
  by (simp split: prod.split)

lemma wp_Pair [simp]: "wp (Pair r) s Q = Q r s"
  by (simp add: wp_def)

lemma wp_fun_if [simp]:
  "wp (\<lambda>s. if b s then m s else n s) s Q = (if b s then wp m s Q else wp n s Q)"
  by (simp add: wp_def)

lemma wp_eqD: "wp m s (\<lambda>r s'. (r, s') = X) \<Longrightarrow> m s = X"
  by (simp add: wp_def)

lemma wp_response_json [simp]:
  "wp (response_json r) s Q = Q (case resp_json r of None \<Rightarrow> Inl SyntaxError | Some v \<Rightarrow> Inr v) s"
  by (simp add: response_json_def split: option.split)

section \<open>The token store\<close>

lemma wp_net_fetch [simp]:
  "wp (net_fetch e rq) s Q =
     Q (case net e (sent s) rq of None \<Rightarrow> Inl FetchFailed | Some r \<Rightarrow> Inr r)
       (s\<lparr>sent := sent s @ [rq]\<rparr>)"
  by (simp add: wp_def net_fetch_def)

lemma wp_mkdir [simp]:
  "wp (mkdir e d) s Q =
     (if mkdir_fails e d then Q (Inl FsError) s else Q (Inr ()) (s\<lparr>dirs := insert d (dirs s)\<rparr>))"
  by (simp add: wp_def mkdir_def)

lemma wp_writeFile [simp]:
  "wp (writeFile e p b) s Q =
     (if write_fails e p then Q (Inl FsError) s else Q (Inr ()) (s\<lparr>files := (files s)(p \<mapsto> b)\<rparr>))"
  by (simp add: wp_def writeFile_def)

lemma wp_unlink_if_exists [simp]:
  "wp (unlink_if_exists e p) s Q =
     (if files s p = None then Q (Inr ()) s
      else if unlink_fails e p then Q (Inl FsError) s
      else Q (Inr ()) (s\<lparr>files := (files s)(p := None)\<rparr>))"
  by (simp add: wp_def unlink_if_exists_def unlink_def existsSync_def)

lemma wp_encryptString_js [simp]:
  "wp (encryptString_js e v) s Q =
     Q (case v of
          JStr t \<Rightarrow> (case encryptString e t of None \<Rightarrow> Inl SafeStorageError | Some b \<Rightarrow> Inr b)
        | _ \<Rightarrow> Inl TypeError) s"
  by (simp add: encryptString_js_def split: jsval.split option.split)

lemma paths_differ: "tokenFilePath e \<noteq> refreshTokenFilePath e"
  by (simp add: tokenFilePath_def refreshTokenFilePath_def TOKEN_FILE_NAME_def
        REFRESH_TOKEN_FILE_NAME_def)

text \<open>Reading a token changes nothing and never throws.\<close>

lemma read_decrypted_eq:
  "read_decrypted e p s =
     (Inr (case files s p of
             None \<Rightarrow> None
           | Some b \<Rightarrow> if read_fails e p then None else decryptString e b), s)"
  by (simp add: read_decrypted_def io_return_def io_throw_def io_bind_def io_catch_def
        existsSync_def readFile_def decryptString_io_def split: option.splits)

lemma getToken_eq:
  "getToken e s =
     (Inr (case files s (tokenFilePath e) of
             None \<Rightarrow> None
           | Some b \<Rightarrow> if read_fails e (tokenFilePath e) then None else decryptString e b), s)"
  by (simp add: getToken_def read_decrypted_eq)

lemma getRefreshToken_eq:
  "getRefreshToken e s =
     (Inr (case files s (refreshTokenFilePath e) of
             None \<Rightarrow> None
           | Some b \<Rightarrow> if read_fails e (refreshTokenFilePath e) then None else decryptString e b), s)"
  by (simp add: getRefreshToken_def read_decrypted_eq)

lemma wp_getToken [simp]: "wp (getToken e) s Q = Q (fst (getToken e s)) s"
  by (simp add: wp_def getToken_eq)

lemma wp_getRefreshToken [simp]: "wp (getRefreshToken e) s Q = Q (fst (getRefreshToken e s)) s"
  by (simp add: wp_def getRefreshToken_eq)

lemma saveToken_post:
  "wp (saveToken e a r) s (\<lambda>res s'.
     sent s' = sent s
     \<and> (\<forall>p. p \<noteq> tokenFilePath e \<longrightarrow> p \<noteq> refreshTokenFilePath e \<longrightarrow> files s' p = files s p)
     \<and> (\<forall>u. res = Inr u \<longrightarrow>
           (\<exists>t b. a = JStr t \<and> encryptString e t = Some b \<and> files s' (tokenFilePath e) = Some b)))"
  using paths_differ [of e]
  by (simp add: saveToken_def split: sum.split jsval.split option.split)

lemma saveToken_refresh_post:
  "wp (saveToken e a (JStr rt)) s (\<lambda>res s'.
     \<forall>u. res = Inr u \<longrightarrow> rt \<noteq> [] \<longrightarrow>
       (\<exists>b. encryptString e rt = Some b \<and> files s' (refreshTokenFilePath e) = Some b))"
  by (simp add: saveToken_def split: sum.split jsval.split option.split)

lemma saveToken_sent [simp]: "sent (snd (saveToken e a r s)) = sent s"
  using saveToken_post [of e a r s] by (simp add: wp_def)

lemma saveToken_Inr_JStr:
  assumes "fst (saveToken e a r s) = Inr u"
  shows "\<exists>t. a = JStr t"
  using saveToken_post [of e a r s] assms by (simp add: wp_def) blast

lemma saveToken_truthy_JStr:
  assumes "fst (saveToken e a r s) = Inr u" and "truthy a"
  shows "\<exists>t. a = JStr t \<and> t \<noteq> []"
proof -
  from saveToken_Inr_JStr [OF assms(1)] obtain t where "a = JStr t" by blast
  with assms(2) show ?thesis by simp
qed

text \<open>
  Claim C5. When \<open>saveToken\<close> succeeds, the token file holds exactly the output of
  \<open>encryptString\<close> for the access token (and the refresh-token file that of the refresh
  token, when one was given); a following \<open>getToken\<close>, if the file can be read, returns
  \<open>decryptString\<close> of those bytes, which is the saved access token whenever
  \<open>safeStorage\<close> decrypts what it encrypted.
\<close>

theorem C5_token_roundtrip:
  assumes "saveToken e (JStr accessToken) refreshToken s = (Inr (), s')"
      and "\<not> read_fails e (tokenFilePath e)"
  shows "(\<exists>encrypted.
           encryptString e accessToken = Some encrypted
           \<and> files s' (tokenFilePath e) = Some encrypted
           \<and> getToken e s' = (Inr (decryptString e encrypted), s')
           \<and> (decryptString e encrypted = Some accessToken
                \<longrightarrow> getToken e s' = (Inr (Some accessToken), s')))
       \<and> (\<forall>rt. refreshToken = JStr rt \<and> rt \<noteq> [] \<longrightarrow>
             (\<exists>encrypted. encryptString e rt = Some encrypted
                \<and> files s' (refreshTokenFilePath e) = Some encrypted))"
proof -
  from saveToken_post [of e "JStr accessToken" refreshToken s] assms(1)
  obtain b where
    b: "encryptString e accessToken = Some b" "files s' (tokenFilePath e) = Some b"
    by (auto simp: wp_def)
  have g: "getToken e s' = (Inr (decryptString e b), s')"
    using b(2) assms(2) by (simp add: getToken_eq)
  have r: "\<exists>encrypted. encryptString e rt = Some encrypted
             \<and> files s' (refreshTokenFilePath e) = Some encrypted"
    if "refreshToken = JStr rt" "rt \<noteq> []" for rt
    using saveToken_refresh_post [of e "JStr accessToken" rt s] assms(1) that
    by (simp add: wp_def)
  from b g r show ?thesis by auto
qed

lemma saveToken_example:
  "saveToken env_offline (JStr ''tok'') (JStr ''ref'') state_empty = (Inr (), state_saved)"
  by (simp add: saveToken_def io_return_def io_throw_def io_bind_def io_catch_def mkdir_def
        writeFile_def encryptString_js_def env_offline_def state_empty_def state_saved_def
        example_encrypt_def tokenFilePath_def refreshTokenFilePath_def TOKEN_FILE_NAME_def
        REFRESH_TOKEN_FILE_NAME_def)

theorem C5_token_roundtrip_witness:
  "saveToken env_offline (JStr ''tok'') (JStr ''ref'') state_empty = (Inr (), state_saved)
   \<and> files state_saved ''/cfg/.cherryin_oauth_token'' = Some [1, 2, 3]
   \<and> getToken env_offline state_saved = (Inr (Some ''tok''), state_saved)"
proof -
  have r: "\<not> read_fails env_offline (tokenFilePath env_offline)"
    by (simp add: env_offline_def)
  have d: "decryptString env_offline [1, 2, 3] = Some ''tok''"
    by (simp add: env_offline_def example_decrypt_def)
  have f: "files state_saved ''/cfg/.cherryin_oauth_token'' = Some [1, 2, 3]"
    by (simp add: state_saved_def)
  have p: "tokenFilePath env_offline = ''/cfg/.cherryin_oauth_token''"
    by (simp add: tokenFilePath_def TOKEN_FILE_NAME_def env_offline_def)
  from C5_token_roundtrip [OF saveToken_example r] d f p
  show ?thesis using saveToken_example by auto
qed

section \<open>Refreshing the access token\<close>

lemma wp_saveToken [simp]:
  "wp (saveToken e a r) s Q = Q (fst (saveToken e a r s)) (snd (saveToken e a r s))"
  by (simp add: wp_def)

lemma refresh_never_throws: "\<exists>v. fst (refreshAccessToken e h s) = Inr v"
proof -
  have "wp (refreshAccessToken e h) s (\<lambda>r s'. \<exists>v. r = Inr v)"
    by (simp add: refreshAccessToken_def split: sum.split option.split)
  then show ?thesis by (simp add: wp_def)
qed

lemma refresh_value:
  assumes "fst (refreshAccessToken e h s) = Inr v"
  shows "v = JNull \<or> (\<exists>t. v = JStr t \<and> t \<noteq> [])"
proof -
  have "wp (refreshAccessToken e h) s
          (\<lambda>r s'. r = Inr JNull \<or> (\<exists>t. r = Inr (JStr t) \<and> t \<noteq> []))"
    apply (simp add: refreshAccessToken_def split: sum.split option.split)
    apply (blast dest: saveToken_truthy_JStr)
    done
  then show ?thesis using assms by (auto simp: wp_def)
qed

lemma refresh_sent:
  "sent (snd (refreshAccessToken e h s)) =
     sent s @ (case fst (getRefreshToken e s) of
                 Inr (Some rt) \<Rightarrow> if rt = [] then [] else [refresh_request h rt]
               | _ \<Rightarrow> [])"
proof -
  have "wp (refreshAccessToken e h) s (\<lambda>r s'. sent s' =
     sent s @ (case fst (getRefreshToken e s) of
                 Inr (Some rt) \<Rightarrow> if rt = [] then [] else [refresh_request h rt]
               | _ \<Rightarrow> []))"
    by (simp add: refreshAccessToken_def split: sum.split option.split)
  then show ?thesis by (simp add: wp_def)
qed

lemma refresh_no_token:
  assumes "fst (getRefreshToken e s) = Inr None"
  shows "refreshAccessToken e h s = (Inr JNull, s)"
  apply (rule wp_eqD)
  unfolding refreshAccessToken_def
  using assms by simp

lemma refresh_not_ok:
  assumes "fst (getRefreshToken e s) = Inr (Some rt)" "rt \<noteq> []"
      and "net e (sent s) (refresh_request h rt) = Some response" "\<not> resp_ok response"
  shows "refreshAccessToken e h s = (Inr JNull, s\<lparr>sent := sent s @ [refresh_request h rt]\<rparr>)"
  apply (rule wp_eqD)
  unfolding refreshAccessToken_def
  using assms by simp

lemma refresh_no_access_token:
  assumes "fst (getRefreshToken e s) = Inr (Some rt)" "rt \<noteq> []"
      and "net e (sent s) (refresh_request h rt) = Some response" "resp_ok response"
      and "resp_json response = Some (JObj kvs)" "map_of kvs ''access_token'' = None"
  shows "refreshAccessToken e h s = (Inr JNull, s\<lparr>sent := sent s @ [refresh_request h rt]\<rparr>)"
  apply (rule wp_eqD)
  unfolding refreshAccessToken_def
  using assms by (simp split: sum.split option.split)

section \<open>The authenticated fetch\<close>

lemma authFetch_no_token:
  assumes "fst (getToken e s) = Inr None \<or> fst (getToken e s) = Inr (Some [])"
  shows "authenticatedFetch e h ep s =
           (Inl (CherryINOAuthServiceError ''No OAuth token found'' None), s)"
  apply (rule wp_eqD)
  unfolding authenticatedFetch_def
  using assms by auto

lemma authFetch_first_fails:
  assumes "fst (getToken e s) = Inr (Some t)" "t \<noteq> []"
      and "net e (sent s) (api_request e h ep (JStr t)) = None"
  shows "authenticatedFetch e h ep s =
           (Inl FetchFailed, s\<lparr>sent := sent s @ [api_request e h ep (JStr t)]\<rparr>)"
  apply (rule wp_eqD)
  unfolding authenticatedFetch_def makeRequest_def
  using assms by simp

lemma authFetch_not_401:
  assumes "fst (getToken e s) = Inr (Some t)" "t \<noteq> []"
      and "net e (sent s) (api_request e h ep (JStr t)) = Some r" "resp_status r \<noteq> 401"
  shows "authenticatedFetch e h ep s =
           (Inr r, s\<lparr>sent := sent s @ [api_request e h ep (JStr t)]\<rparr>)"
  apply (rule wp_eqD)
  unfolding authenticatedFetch_def makeRequest_def
  using assms by simp

lemma authFetch_401_no_refresh:
  assumes "fst (getToken e s) = Inr (Some t)" "t \<noteq> []"
      and "net e (sent s) (api_request e h ep (JStr t)) = Some r" "resp_status r = 401"
      and "fst (refreshAccessToken e h (s\<lparr>sent := sent s @ [api_request e h ep (JStr t)]\<rparr>))
             = Inr JNull"
  shows "authenticatedFetch e h ep s =
           (Inr r, snd (refreshAccessToken e h (s\<lparr>sent := sent s @ [api_request e h ep (JStr t)]\<rparr>)))"
  apply (rule wp_eqD)
  unfolding authenticatedFetch_def makeRequest_def
  using assms by (simp add: wp_def [of "refreshAccessToken e h"])

lemma authFetch_401_refreshed:
  assumes "fst (getToken e s) = Inr (Some t)" "t \<noteq> []"
      and "net e (sent s) (api_request e h ep (JStr t)) = Some r" "resp_status r = 401"
      and "fst (refreshAccessToken e h (s\<lparr>sent := sent s @ [api_request e h ep (JStr t)]\<rparr>))
             = Inr (JStr nt)"
          "nt \<noteq> []"
  shows "authenticatedFetch e h ep s =
           net_fetch e (api_request e h ep (JStr nt))
             (snd (refreshAccessToken e h (s\<lparr>sent := sent s @ [api_request e h ep (JStr t)]\<rparr>)))"
  apply (rule wp_eqD)
  unfolding authenticatedFetch_def makeRequest_def
  using assms
  apply (simp add: wp_def [of "refreshAccessToken e h"])
  apply (simp add: net_fetch_def)
  done

lemma authFetch_sent_bound:
  "length (sent (snd (authenticatedFetch e h ep s))) \<le> length (sent s) + 3"
proof -
  have "wp (authenticatedFetch e h ep) s (\<lambda>res s'. length (sent s') \<le> length (sent s) + 3)"
    unfolding authenticatedFetch_def makeRequest_def
    by (simp add: wp_def [of "refreshAccessToken e h"] refresh_sent split: option.split sum.split)
  then show ?thesis by (simp add: wp_def)
qed

lemma wp_api_catch [simp]:
  "wp (api_catch failed m) s Q =
     wp m s (\<lambda>r s'. case r of
        Inl err \<Rightarrow> Q (Inl (CherryINOAuthServiceError
                          (if err = ZodError then ''Invalid response format from server'' else failed)
                          (Some err))) s'
      | Inr x \<Rightarrow> Q (Inr x) s')"
  by (simp add: api_catch_def split: sum.split)

lemma api_calls_sent:
  "sent (snd (getBalance e h s)) = sent (snd (authenticatedFetch e h ''/api/v1/oauth/balance'' s))
   \<and> sent (snd (getUsage e h s)) = sent (snd (authenticatedFetch e h ''/api/v1/oauth/usage'' s))
   \<and> sent (snd (getUserInfo e h s)) = sent (snd (authenticatedFetch e h ''/api/v1/oauth/userinfo'' s))"
proof -
  have "wp (getBalance e h) s
          (\<lambda>r s'. sent s' = sent (snd (authenticatedFetch e h ''/api/v1/oauth/balance'' s)))"
    unfolding getBalance_def
    by (simp add: wp_def [of "authenticatedFetch e h _"] split: sum.split prod.split)
  moreover have "wp (getUsage e h) s
          (\<lambda>r s'. sent s' = sent (snd (authenticatedFetch e h ''/api/v1/oauth/usage'' s)))"
    unfolding getUsage_def
    by (simp add: wp_def [of "authenticatedFetch e h _"] split: sum.split prod.split)
  moreover have "wp (getUserInfo e h) s
          (\<lambda>r s'. sent s' = sent (snd (authenticatedFetch e h ''/api/v1/oauth/userinfo'' s)))"
    unfolding getUserInfo_def
    by (simp add: wp_def [of "authenticatedFetch e h _"] split: sum.split prod.split)
  ultimately show ?thesis by (simp add: wp_def)
qed

lemma api_request_JStr:
  "api_request e h ep (JStr x) =
     \<lparr>req_url = h @ ep, req_method = ''GET'',
      req_headers = [(''Authorization'', ''Bearer '' @ x), (''Content-Type'', ''application/json'')],
      req_form = []\<rparr>"
  by (simp add: api_request_def bearer_def)

text \<open>
  Claim C1. With a non-empty stored access token \<open>t\<close>, \<open>authenticatedFetch\<close> sends one
  GET request whose \<^verbatim>\<open>Authorization\<close> header is \<^verbatim>\<open>Bearer t\<close>. A rejected fetch is thrown on.
  A response whose status is not 401 is returned as it is, with nothing else sent. On a
  401 \<open>refreshAccessToken\<close> runs once; it never throws, sends at most one request (the
  refresh-token grant; none without a refresh token), and returns \<^verbatim>\<open>null\<close> without a refresh
  token, on a response that is not ok and on a body without \<^verbatim>\<open>access_token\<close>. If it returns
  \<^verbatim>\<open>null\<close> the 401 response is returned; if it returns a new token \<open>nt\<close> the same request is
  sent exactly once more with the header \<^verbatim>\<open>Bearer nt\<close>, and whatever comes back is the
  result. At most three requests are sent in all, and the three API calls send what their
  \<open>authenticatedFetch\<close> sends.
\<close>

theorem C1_retry_once_on_401:
  fixes e :: env and h ep t :: string and s :: state
  assumes "fst (getToken e s) = Inr (Some t)" and "t \<noteq> []"
  defines "rq \<equiv> api_request e h ep (JStr t)"
  defines "s1 \<equiv> s\<lparr>sent := sent s @ [api_request e h ep (JStr t)]\<rparr>"
  shows
    "(net e (sent s) rq = None \<longrightarrow> authenticatedFetch e h ep s = (Inl FetchFailed, s1))
     \<and> (\<forall>r. net e (sent s) rq = Some r \<and> resp_status r \<noteq> 401 \<longrightarrow>
            authenticatedFetch e h ep s = (Inr r, s1))
     \<and> (\<forall>r. net e (sent s) rq = Some r \<and> resp_status r = 401 \<longrightarrow>
            (fst (refreshAccessToken e h s1) = Inr JNull
             \<and> authenticatedFetch e h ep s = (Inr r, snd (refreshAccessToken e h s1)))
          \<or> (\<exists>nt. nt \<noteq> [] \<and> fst (refreshAccessToken e h s1) = Inr (JStr nt)
                \<and> authenticatedFetch e h ep s =
                    net_fetch e (api_request e h ep (JStr nt)) (snd (refreshAccessToken e h s1))
                \<and> fst (authenticatedFetch e h ep s) =
                    (case net e (sent (snd (refreshAccessToken e h s1)))
                            \<lparr>req_url = h @ ep, req_method = ''GET'',
                             req_headers = [(''Authorization'', ''Bearer '' @ nt),
                                            (''Content-Type'', ''application/json'')],
                             req_form = []\<rparr> of
                       None \<Rightarrow> Inl FetchFailed
                     | Some r' \<Rightarrow> Inr r')
                \<and> sent (snd (authenticatedFetch e h ep s)) =
                    sent (snd (refreshAccessToken e h s1)) @
                      [\<lparr>req_url = h @ ep, req_method = ''GET'',
                        req_headers = [(''Authorization'', ''Bearer '' @ nt),
                                       (''Content-Type'', ''application/json'')],
                        req_form = []\<rparr>]))
     \<and> rq = \<lparr>req_url = h @ ep, req_method = ''GET'',
             req_headers = [(''Authorization'', ''Bearer '' @ t),
                            (''Content-Type'', ''application/json'')],
             req_form = []\<rparr>
     \<and> sent s1 = sent s @ [rq]
     \<and> sent (snd (refreshAccessToken e h s1)) =
         sent s1 @ (case fst (getRefreshToken e s1) of
                      Inr (Some rt) \<Rightarrow> if rt = [] then [] else [refresh_request h rt]
                    | _ \<Rightarrow> [])
     \<and> (\<forall>rt. refresh_request h rt =
            \<lparr>req_url = h @ ''/oauth2/token'', req_method = ''POST'',
             req_headers = [(''Content-Type'', ''application/x-www-form-urlencoded'')],
             req_form = [(''grant_type'', ''refresh_token''), (''refresh_token'', rt),
                         (''client_id'', CLIENT_ID)]\<rparr>)
     \<and> (fst (getRefreshToken e s1) = Inr None \<longrightarrow> fst (refreshAccessToken e h s1) = Inr JNull)
     \<and> (\<forall>rt response. fst (getRefreshToken e s1) = Inr (Some rt) \<and> rt \<noteq> []
            \<and> net e (sent s1) (refresh_request h rt) = Some response \<and> \<not> resp_ok response \<longrightarrow>
            fst (refreshAccessToken e h s1) = Inr JNull)
     \<and> (\<forall>rt response kvs. fst (getRefreshToken e s1) = Inr (Some rt) \<and> rt \<noteq> []
            \<and> net e (sent s1) (refresh_request h rt) = Some response \<and> resp_ok response
            \<and> resp_json response = Some (JObj kvs) \<and> map_of kvs ''access_token'' = None \<longrightarrow>
            fst (refreshAccessToken e h s1) = Inr JNull)
     \<and> length (sent (snd (authenticatedFetch e h ep s))) \<le> length (sent s) + 3
     \<and> sent (snd (getBalance e h s)) = sent (snd (authenticatedFetch e h ''/api/v1/oauth/balance'' s))
     \<and> sent (snd (getUsage e h s)) = sent (snd (authenticatedFetch e h ''/api/v1/oauth/usage'' s))
     \<and> sent (snd (getUserInfo e h s)) = sent (snd (authenticatedFetch e h ''/api/v1/oauth/userinfo'' s))"
proof -
  have a: "net e (sent s) rq = None \<longrightarrow> authenticatedFetch e h ep s = (Inl FetchFailed, s1)"
    unfolding rq_def s1_def using authFetch_first_fails [OF assms(1,2)] by blast
  have b: "\<forall>r. net e (sent s) rq = Some r \<and> resp_status r \<noteq> 401 \<longrightarrow>
            authenticatedFetch e h ep s = (Inr r, s1)"
    unfolding rq_def s1_def using authFetch_not_401 [OF assms(1,2)] by blast
  have c: "(fst (refreshAccessToken e h s1) = Inr JNull
             \<and> authenticatedFetch e h ep s = (Inr r, snd (refreshAccessToken e h s1)))
          \<or> (\<exists>nt. nt \<noteq> [] \<and> fst (refreshAccessToken e h s1) = Inr (JStr nt)
                \<and> authenticatedFetch e h ep s =
                    net_fetch e (api_request e h ep (JStr nt)) (snd (refreshAccessToken e h s1))
                \<and> fst (authenticatedFetch e h ep s) =
                    (case net e (sent (snd (refreshAccessToken e h s1)))
                            \<lparr>req_url = h @ ep, req_method = ''GET'',
                             req_headers = [(''Authorization'', ''Bearer '' @ nt),
                                            (''Content-Type'', ''application/json'')],
                             req_form = []\<rparr> of
                       None \<Rightarrow> Inl FetchFailed
                     | Some r' \<Rightarrow> Inr r')
                \<and> sent (snd (authenticatedFetch e h ep s)) =
                    sent (snd (refreshAccessToken e h s1)) @
                      [\<lparr>req_url = h @ ep, req_method = ''GET'',
                        req_headers = [(''Authorization'', ''Bearer '' @ nt),
                                       (''Content-Type'', ''application/json'')],
                        req_form = []\<rparr>])"
    if r: "net e (sent s) rq = Some r" "resp_status r = 401" for r
  proof -
    obtain v where v: "fst (refreshAccessToken e h s1) = Inr v"
      using refresh_never_throws by blast
    from refresh_value [OF v] show ?thesis
    proof
      assume "v = JNull"
      with v r authFetch_401_no_refresh [OF assms(1,2), of h ep r] show ?thesis
        unfolding rq_def s1_def by simp
    next
      assume "\<exists>nt. v = JStr nt \<and> nt \<noteq> []"
      then obtain nt where nt: "v = JStr nt" "nt \<noteq> []" by blast
      with v r authFetch_401_refreshed [OF assms(1,2), of h ep r nt]
      have eq: "authenticatedFetch e h ep s =
                  net_fetch e (api_request e h ep (JStr nt)) (snd (refreshAccessToken e h s1))"
        unfolding rq_def s1_def by simp
      have "fst (authenticatedFetch e h ep s) =
                    (case net e (sent (snd (refreshAccessToken e h s1)))
                            \<lparr>req_url = h @ ep, req_method = ''GET'',
                             req_headers = [(''Authorization'', ''Bearer '' @ nt),
                                            (''Content-Type'', ''application/json'')],
                             req_form = []\<rparr> of
                       None \<Rightarrow> Inl FetchFailed
                     | Some r' \<Rightarrow> Inr r')"
        unfolding eq by (simp add: net_fetch_def api_request_JStr)
      moreover have "sent (snd (authenticatedFetch e h ep s)) =
                    sent (snd (refreshAccessToken e h s1)) @
                      [\<lparr>req_url = h @ ep, req_method = ''GET'',
                        req_headers = [(''Authorization'', ''Bearer '' @ nt),
                                       (''Content-Type'', ''application/json'')],
                        req_form = []\<rparr>]"
        unfolding eq by (simp add: net_fetch_def api_request_JStr)
      ultimately show ?thesis using eq nt v by blast
    qed
  qed
  have c1: "rq = \<lparr>req_url = h @ ep, req_method = ''GET'',
             req_headers = [(''Authorization'', ''Bearer '' @ t),
                            (''Content-Type'', ''application/json'')],
             req_form = []\<rparr>"
    unfolding rq_def by (rule api_request_JStr)
  have c2: "sent s1 = sent s @ [rq]" unfolding s1_def rq_def by simp
  have c3: "\<forall>rt. refresh_request h rt =
            \<lparr>req_url = h @ ''/oauth2/token'', req_method = ''POST'',
             req_headers = [(''Content-Type'', ''application/x-www-form-urlencoded'')],
             req_form = [(''grant_type'', ''refresh_token''), (''refresh_token'', rt),
                         (''client_id'', CLIENT_ID)]\<rparr>"
    by (simp add: refresh_request_def)
  have d: "fst (getRefreshToken e s1) = Inr None \<longrightarrow> fst (refreshAccessToken e h s1) = Inr JNull"
    using refresh_no_token [of e s1 h] by simp
  have f: "\<forall>rt response. fst (getRefreshToken e s1) = Inr (Some rt) \<and> rt \<noteq> []
            \<and> net e (sent s1) (refresh_request h rt) = Some response \<and> \<not> resp_ok response \<longrightarrow>
            fst (refreshAccessToken e h s1) = Inr JNull"
    using refresh_not_ok [of e s1 _ h] by simp
  have g: "\<forall>rt response kvs. fst (getRefreshToken e s1) = Inr (Some rt) \<and> rt \<noteq> []
            \<and> net e (sent s1) (refresh_request h rt) = Some response \<and> resp_ok response
            \<and> resp_json response = Some (JObj kvs) \<and> map_of kvs ''access_token'' = None \<longrightarrow>
            fst (refreshAccessToken e h s1) = Inr JNull"
    using refresh_no_access_token [of e s1 _ h] by simp
  from c have c': "\<forall>r. net e (sent s) rq = Some r \<and> resp_status r = 401 \<longrightarrow>
            (fst (refreshAccessToken e h s1) = Inr JNull
             \<and> authenticatedFetch e h ep s = (Inr r, snd (refreshAccessToken e h s1)))
          \<or> (\<exists>nt. nt \<noteq> [] \<and> fst (refreshAccessToken e h s1) = Inr (JStr nt)
                \<and> authenticatedFetch e h ep s =
                    net_fetch e (api_request e h ep (JStr nt)) (snd (refreshAccessToken e h s1))
                \<and> fst (authenticatedFetch e h ep s) =
                    (case net e (sent (snd (refreshAccessToken e h s1)))
                            \<lparr>req_url = h @ ep, req_method = ''GET'',
                             req_headers = [(''Authorization'', ''Bearer '' @ nt),
                                            (''Content-Type'', ''application/json'')],
                             req_form = []\<rparr> of
                       None \<Rightarrow> Inl FetchFailed
                     | Some r' \<Rightarrow> Inr r')
                \<and> sent (snd (authenticatedFetch e h ep s)) =
                    sent (snd (refreshAccessToken e h s1)) @
                      [\<lparr>req_url = h @ ep, req_method = ''GET'',
                        req_headers = [(''Authorization'', ''Bearer '' @ nt),
                                       (''Content-Type'', ''application/json'')],
                        req_form = []\<rparr>])"
    by blast
  note rest = refresh_sent [of e h s1] authFetch_sent_bound [of e h ep s] api_calls_sent [of e h s]
  show ?thesis
    apply (intro conjI)
    using a b c' c1 c2 c3 d f g rest by blast+
qed


lemmas example_defs =
  env_online_def env_offline_def example_encrypt_def example_decrypt_def example_server_def
  state_stale_def state_saved_def state_empty_def response_401_def response_token_def
  response_balance_def tokenFilePath_def refreshTokenFilePath_def TOKEN_FILE_NAME_def
  REFRESH_TOKEN_FILE_NAME_def

lemmas io_defs = io_return_def io_throw_def io_bind_def io_catch_def io_lift_def

lemma example_getToken: "fst (getToken env_online state_stale) = Inr (Some ''old'')"
  by (simp add: getToken_eq example_defs)

lemma example_first_401:
  "net env_online (sent state_stale)
     (api_request env_online ''https://open.cherryin.ai'' ''/api/v1/oauth/balance'' (JStr ''old''))
   = Some response_401"
  by (simp add: example_defs api_request_def bearer_def)

lemma example_refresh:
  "fst (refreshAccessToken env_online ''https://open.cherryin.ai''
     (state_stale\<lparr>sent := sent state_stale @
        [api_request env_online ''https://open.cherryin.ai'' ''/api/v1/oauth/balance'' (JStr ''old'')]\<rparr>))
   = Inr (JStr ''tok'')"
  by (simp add: refreshAccessToken_def getRefreshToken_eq saveToken_def io_defs net_fetch_def
        response_json_def resp_ok_def refresh_request_def mkdir_def writeFile_def
        encryptString_js_def example_defs)

lemma example_retry:
  "fst (net_fetch env_online
          (api_request env_online ''https://open.cherryin.ai'' ''/api/v1/oauth/balance'' (JStr ''tok'')) s2)
   = Inr response_balance"
  by (simp add: net_fetch_def api_request_def bearer_def example_defs)

lemma example_getRefreshToken:
  "fst (getRefreshToken env_online
     (state_stale\<lparr>sent := sent state_stale @
        [api_request env_online ''https://open.cherryin.ai'' ''/api/v1/oauth/balance'' (JStr ''old'')]\<rparr>))
   = Inr (Some ''ref'')"
  by (simp add: getRefreshToken_eq example_defs)

theorem C1_retry_once_on_401_witness:
  "fst (getToken env_online state_stale) = Inr (Some ''old'')
   \<and> net env_online (sent state_stale)
       \<lparr>req_url = ''https://open.cherryin.ai/api/v1/oauth/balance'', req_method = ''GET'',
        req_headers = [(''Authorization'', ''Bearer old''), (''Content-Type'', ''application/json'')],
        req_form = []\<rparr> = Some response_401
   \<and> fst (authenticatedFetch env_online ''https://open.cherryin.ai'' ''/api/v1/oauth/balance''
            state_stale) = Inr response_balance
   \<and> sent (snd (authenticatedFetch env_online ''https://open.cherryin.ai''
                        ''/api/v1/oauth/balance'' state_stale)) =
       [\<lparr>req_url = ''https://open.cherryin.ai/api/v1/oauth/balance'', req_method = ''GET'',
         req_headers = [(''Authorization'', ''Bearer old''), (''Content-Type'', ''application/json'')],
         req_form = []\<rparr>,
        \<lparr>req_url = ''https://open.cherryin.ai/oauth2/token'', req_method = ''POST'',
         req_headers = [(''Content-Type'', ''application/x-www-form-urlencoded'')],
         req_form = [(''grant_type'', ''refresh_token''), (''refresh_token'', ''ref''),
                     (''client_id'', CLIENT_ID)]\<rparr>,
        \<lparr>req_url = ''https://open.cherryin.ai/api/v1/oauth/balance'', req_method = ''GET'',
         req_headers = [(''Authorization'', ''Bearer tok''), (''Content-Type'', ''application/json'')],
         req_form = []\<rparr>]
   \<and> length (sent (snd (authenticatedFetch env_online ''https://open.cherryin.ai''
                        ''/api/v1/oauth/balance'' state_stale))) \<le> 3"
proof -
  have t: "''old'' \<noteq> ([] :: string)" by simp
  have st: "resp_status response_401 = 401" by (simp add: response_401_def)
  note c = C1_retry_once_on_401 [OF example_getToken t,
      of "''https://open.cherryin.ai''" "''/api/v1/oauth/balance''"]
  let ?s1 = "state_stale\<lparr>sent := sent state_stale @
                  [api_request env_online ''https://open.cherryin.ai'' ''/api/v1/oauth/balance''
                     (JStr ''old'')]\<rparr>"
  let ?R = "refreshAccessToken env_online ''https://open.cherryin.ai'' ?s1"
  let ?A = "authenticatedFetch env_online ''https://open.cherryin.ai'' ''/api/v1/oauth/balance'' state_stale"
  from c example_first_401 st example_refresh
  have eq: "?A = net_fetch env_online
            (api_request env_online ''https://open.cherryin.ai'' ''/api/v1/oauth/balance'' (JStr ''tok''))
            (snd ?R)"
    and snt: "sent (snd ?A) = sent (snd ?R) @
        [\<lparr>req_url = ''https://open.cherryin.ai'' @ ''/api/v1/oauth/balance'', req_method = ''GET'',
         req_headers = [(''Authorization'', ''Bearer '' @ ''tok''), (''Content-Type'', ''application/json'')],
         req_form = []\<rparr>]"
    by auto
  from eq have res: "fst ?A = Inr response_balance"
    by (simp only: example_retry)
  from c have "sent (snd ?R) = sent ?s1 @ (case fst (getRefreshToken env_online ?s1) of
                      Inr (Some rt) \<Rightarrow> if rt = [] then [] else [refresh_request ''https://open.cherryin.ai'' rt]
                    | _ \<Rightarrow> [])"
    by blast
  then have sr: "sent (snd ?R) = sent ?s1 @ [refresh_request ''https://open.cherryin.ai'' ''ref'']"
    by (simp add: example_getRefreshToken)
  have first: "net env_online (sent state_stale)
       \<lparr>req_url = ''https://open.cherryin.ai/api/v1/oauth/balance'', req_method = ''GET'',
        req_headers = [(''Authorization'', ''Bearer old''), (''Content-Type'', ''application/json'')],
        req_form = []\<rparr> = Some response_401"
    using example_first_401 by (simp add: api_request_JStr)
  have all: "sent (snd ?A) =
       [\<lparr>req_url = ''https://open.cherryin.ai/api/v1/oauth/balance'', req_method = ''GET'',
         req_headers = [(''Authorization'', ''Bearer old''), (''Content-Type'', ''application/json'')],
         req_form = []\<rparr>,
        \<lparr>req_url = ''https://open.cherryin.ai/oauth2/token'', req_method = ''POST'',
         req_headers = [(''Content-Type'', ''application/x-www-form-urlencoded'')],
         req_form = [(''grant_type'', ''refresh_token''), (''refresh_token'', ''ref''),
                     (''client_id'', CLIENT_ID)]\<rparr>,
        \<lparr>req_url = ''https://open.cherryin.ai/api/v1/oauth/balance'', req_method = ''GET'',
         req_headers = [(''Authorization'', ''Bearer tok''), (''Content-Type'', ''application/json'')],
         req_form = []\<rparr>]"
    unfolding snt sr by (simp add: api_request_JStr refresh_request_def state_stale_def)
  from res all first example_getToken show ?thesis by simp
qed

section \<open>Calls without a token\<close>

lemma getBalance_no_token:
  assumes "fst (getToken e s) = Inr None"
  shows "getBalance e h s =
           (Inl (CherryINOAuthServiceError ''Failed to get balance''
                  (Some (CherryINOAuthServiceError ''No OAuth token found'' None))), s)"
  apply (rule wp_eqD)
  unfolding getBalance_def
  using assms by (simp add: wp_def [of "authenticatedFetch e h _"] authFetch_no_token)

lemma getUsage_no_token:
  assumes "fst (getToken e s) = Inr None"
  shows "getUsage e h s =
           (Inl (CherryINOAuthServiceError ''Failed to get usage''
                  (Some (CherryINOAuthServiceError ''No OAuth token found'' None))), s)"
  apply (rule wp_eqD)
  unfolding getUsage_def
  using assms by (simp add: wp_def [of "authenticatedFetch e h _"] authFetch_no_token)

lemma getUserInfo_no_token:
  assumes "fst (getToken e s) = Inr None"
  shows "getUserInfo e h s =
           (Inl (CherryINOAuthServiceError ''Failed to get user info''
                  (Some (CherryINOAuthServiceError ''No OAuth token found'' None))), s)"
  apply (rule wp_eqD)
  unfolding getUserInfo_def
  using assms by (simp add: wp_def [of "authenticatedFetch e h _"] authFetch_no_token)

text \<open>
  Claim C7. When \<open>getToken\<close> returns \<^verbatim>\<open>null\<close>, each of \<open>getBalance\<close>, \<open>getUsage\<close> and
  \<open>getUserInfo\<close> throws a \<open>CherryINOAuthServiceError\<close> and leaves the state, and so the list
  of requests sent, as it was; and \<open>getToken\<close> never throws: it returns \<^verbatim>\<open>null\<close> when the
  token file is absent and when decryption fails.
\<close>

theorem C7_no_token_no_request:
  "(fst (getToken e s) = Inr None \<longrightarrow>
      getBalance e h s =
        (Inl (CherryINOAuthServiceError ''Failed to get balance''
               (Some (CherryINOAuthServiceError ''No OAuth token found'' None))), s)
      \<and> getUsage e h s =
        (Inl (CherryINOAuthServiceError ''Failed to get usage''
               (Some (CherryINOAuthServiceError ''No OAuth token found'' None))), s)
      \<and> getUserInfo e h s =
        (Inl (CherryINOAuthServiceError ''Failed to get user info''
               (Some (CherryINOAuthServiceError ''No OAuth token found'' None))), s))
   \<and> (\<exists>r. getToken e s = (Inr r, s))
   \<and> (files s (tokenFilePath e) = None \<longrightarrow> getToken e s = (Inr None, s))
   \<and> (\<forall>b. files s (tokenFilePath e) = Some b \<and> decryptString e b = None \<longrightarrow>
          getToken e s = (Inr None, s))"
  using getBalance_no_token [of e s h] getUsage_no_token [of e s h] getUserInfo_no_token [of e s h]
  by (auto simp: getToken_eq)

theorem C7_no_token_no_request_witness:
  "fst (getToken env_online state_empty) = Inr None
   \<and> fst (getBalance env_online ''https://open.cherryin.ai'' state_empty) =
        Inl (CherryINOAuthServiceError ''Failed to get balance''
               (Some (CherryINOAuthServiceError ''No OAuth token found'' None)))
   \<and> sent (snd (getBalance env_online ''https://open.cherryin.ai'' state_empty)) = []"
proof -
  have g: "fst (getToken env_online state_empty) = Inr None"
    by (simp add: getToken_eq example_defs)
  from C7_no_token_no_request [of env_online state_empty "''https://open.cherryin.ai''"] g
  have "getBalance env_online ''https://open.cherryin.ai'' state_empty =
        (Inl (CherryINOAuthServiceError ''Failed to get balance''
               (Some (CherryINOAuthServiceError ''No OAuth token found'' None))), state_empty)"
    by blast
  with g show ?thesis by (simp add: state_empty_def)
qed

section \<open>Logout\<close>




lemma logout_frame:
  assumes "p \<noteq> tokenFilePath e" "p \<noteq> refreshTokenFilePath e"
  shows "files (snd (logout e h s)) p = files s p"
proof -
  have "wp (logout e h) s (\<lambda>r s'. files s' p = files s p)"
    unfolding logout_def
    using assms by (simp split: option.split sum.split)
  then show ?thesis by (simp add: wp_def)
qed



section \<open>Rounding to binary64\<close>

text \<open>
  \<open>ilog2\<close> finds the binade, rounding is monotone on the positive numbers, a rounded
  number is within half a unit in the last place of the exact one and is itself a double
  (rounding it again changes nothing), and \<open>to_double_eval\<close> computes a rounding from the
  binade and the significand.
\<close>

lemma rhe_bounds: "of_int (round_half_even x) \<le> x + 1 / 2" "x - 1 / 2 \<le> of_int (round_half_even x)"
  unfolding round_half_even_def Let_def by (auto; linarith)+

lemma rhe_of_int [simp]: "round_half_even (of_int n) = n"
  by (simp add: round_half_even_def)

lemma rhe_mono: "x \<le> y \<Longrightarrow> round_half_even x \<le> round_half_even y"
proof -
  assume xy: "x \<le> y"
  have fl: "\<lfloor>x\<rfloor> \<le> \<lfloor>y\<rfloor>" using xy by (rule floor_mono)
  show ?thesis
  proof (cases "\<lfloor>x\<rfloor> = \<lfloor>y\<rfloor>")
    case True
    then have "x - of_int \<lfloor>x\<rfloor> \<le> y - of_int \<lfloor>y\<rfloor>" using xy by simp
    with True show ?thesis unfolding round_half_even_def Let_def by auto
  next
    case False
    with fl have "\<lfloor>x\<rfloor> + 1 \<le> \<lfloor>y\<rfloor>" by simp
    moreover have "round_half_even x \<le> \<lfloor>x\<rfloor> + 1" unfolding round_half_even_def Let_def by auto
    moreover have "\<lfloor>y\<rfloor> \<le> round_half_even y" unfolding round_half_even_def Let_def by auto
    ultimately show ?thesis by linarith
  qed
qed

lemma powi_nat: "0 \<le> k \<Longrightarrow> (2::rat) powi k = 2 ^ nat k"
  by (simp add: power_int_def)

lemma ilog2_bounds:
  assumes "0 < x"
  shows "2 powi (ilog2 x) \<le> x" and "x < 2 powi (ilog2 x + 1)"
proof -
  show "2 powi (ilog2 x) \<le> x"
  proof (cases "1 \<le> x")
    case True
    then have n: "0 < \<lfloor>x\<rfloor>" by simp
    from bitlen_bounds [OF n] have "2 ^ nat (bitlen \<lfloor>x\<rfloor> - 1) \<le> \<lfloor>x\<rfloor>" by simp
    then have "(of_int (2 ^ nat (bitlen \<lfloor>x\<rfloor> - 1)) :: rat) \<le> of_int \<lfloor>x\<rfloor>"
      by (simp only: of_int_le_iff)
    also have "\<dots> \<le> x" by simp
    finally have "(2::rat) ^ nat (bitlen \<lfloor>x\<rfloor> - 1) \<le> x" by simp
    moreover have "0 \<le> bitlen \<lfloor>x\<rfloor> - 1" using n bitlen_eq_zero_iff [of "\<lfloor>x\<rfloor>"] bitlen_nonneg [of "\<lfloor>x\<rfloor>"]
      by linarith
    ultimately show ?thesis using True by (simp add: ilog2_def powi_nat)
  next
    case False
    define y where "y = 1 / x"
    define n where "n = \<lceil>y\<rceil> - 1"
    from False assms have y: "1 < y" by (simp add: y_def)
    then have n: "0 < n" unfolding n_def by (simp add: less_ceiling_iff)
    have yn: "y \<le> of_int n + 1" unfolding n_def by (simp add: le_of_int_ceiling)
    from bitlen_bounds [OF n] have "n < 2 ^ nat (bitlen n)" by simp
    then have "n + 1 \<le> 2 ^ nat (bitlen n)" by simp
    then have "(of_int (n + 1) :: rat) \<le> of_int (2 ^ nat (bitlen n))" by (simp only: of_int_le_iff)
    then have "y \<le> 2 ^ nat (bitlen n)" using yn by simp
    then have "y \<le> 2 powi (bitlen n)" using bitlen_nonneg [of n] by (simp add: powi_nat)
    then have "1 / (2 powi (bitlen n)) \<le> 1 / y" using y by (simp add: frac_le)
    moreover have "1 / y = x" by (simp add: y_def)
    moreover have "1 / (2 powi (bitlen n)) = (2::rat) powi (- bitlen n)"
      by (simp only: power_int_minus inverse_eq_divide)
    ultimately have "2 powi (- bitlen n) \<le> x" by simp
    then show ?thesis using False by (simp add: ilog2_def y_def n_def)
  qed
  show "x < 2 powi (ilog2 x + 1)"
  proof (cases "1 \<le> x")
    case True
    then have n: "0 < \<lfloor>x\<rfloor>" by simp
    from bitlen_bounds [OF n] have "\<lfloor>x\<rfloor> + 1 \<le> 2 ^ nat (bitlen \<lfloor>x\<rfloor>)" by simp
    then have "(of_int (\<lfloor>x\<rfloor> + 1) :: rat) \<le> of_int (2 ^ nat (bitlen \<lfloor>x\<rfloor>))"
      by (simp only: of_int_le_iff)
    moreover have "x < of_int (\<lfloor>x\<rfloor> + 1)" by simp linarith
    ultimately have "x < 2 ^ nat (bitlen \<lfloor>x\<rfloor>)" by simp
    then show ?thesis using True bitlen_nonneg [of "\<lfloor>x\<rfloor>"] by (simp add: ilog2_def powi_nat)
  next
    case False
    define y where "y = 1 / x"
    define n where "n = \<lceil>y\<rceil> - 1"
    from False assms have y: "1 < y" by (simp add: y_def)
    then have n: "0 < n" unfolding n_def by (simp add: less_ceiling_iff)
    have ny: "of_int n < y" unfolding n_def by simp linarith
    have b: "0 \<le> bitlen n - 1" using n bitlen_eq_zero_iff [of n] bitlen_nonneg [of n]
      by linarith
    from bitlen_bounds [OF n] have i: "2 ^ nat (bitlen n - 1) \<le> n" by simp
    have "(2::rat) ^ nat (bitlen n - 1) = of_int (2 ^ nat (bitlen n - 1))" by simp
    also have "\<dots> \<le> of_int n" using i by (simp only: of_int_le_iff)
    also have "\<dots> < y" by (rule ny)
    finally have "2 ^ nat (bitlen n - 1) < y" .
    then have "2 powi (bitlen n - 1) < y" using b by (simp add: powi_nat)
    then have "1 / y < 1 / (2 powi (bitlen n - 1))" by (simp add: frac_less2)
    moreover have "1 / y = x" by (simp add: y_def)
    moreover have "1 / (2 powi (bitlen n - 1)) = (2::rat) powi (- (bitlen n - 1))"
      by (simp only: power_int_minus inverse_eq_divide)
    ultimately have "x < 2 powi (- (bitlen n - 1))" by simp
    then show ?thesis using False by (simp add: ilog2_def y_def n_def)
  qed
qed

lemma ilog2_mono:
  assumes "0 < x" "x \<le> y"
  shows "ilog2 x \<le> ilog2 y"
proof (rule ccontr)
  assume "\<not> ilog2 x \<le> ilog2 y"
  then have "ilog2 y + 1 \<le> ilog2 x" by simp
  then have "(2::rat) powi (ilog2 y + 1) \<le> 2 powi (ilog2 x)"
    by (intro power_int_increasing) simp_all
  also have "\<dots> \<le> x" using ilog2_bounds(1) [OF assms(1)] .
  also have "\<dots> \<le> y" by (rule assms(2))
  also have "\<dots> < 2 powi (ilog2 y + 1)" using ilog2_bounds(2) [of y] assms by simp
  finally show False by simp
qed

lemma exponent_of_mono: "0 < x \<Longrightarrow> x \<le> y \<Longrightarrow> exponent_of x \<le> exponent_of y"
  using ilog2_mono [of x y] by (simp add: exponent_of_def)

lemma powi_pos [simp]: "0 < (2::rat) powi k"
  by (simp add: zero_less_power_int)

lemma round_pos_nonneg: "0 \<le> x \<Longrightarrow> 0 \<le> round_pos x"
proof -
  assume "0 \<le> x"
  then have "0 \<le> x / 2 powi exponent_of x" by simp
  then have "round_half_even 0 \<le> round_half_even (x / 2 powi exponent_of x)" by (rule rhe_mono)
  then have "0 \<le> round_half_even (x / 2 powi exponent_of x)" by (simp add: round_half_even_def)
  then show ?thesis by (simp add: round_pos_def)
qed

lemma round_pos_below:
  assumes "0 < x" and k: "exponent_of x \<le> k" and "x \<le> 2 powi k"
  shows "round_pos x \<le> 2 powi k"
proof -
  define e where "e = exponent_of x"
  have "x / 2 powi e \<le> 2 powi k / 2 powi e" using assms(3) by (simp add: divide_right_mono)
  also have "\<dots> = 2 powi (k - e)" by (simp add: power_int_diff)
  also have "\<dots> = of_int (2 ^ nat (k - e))" using k by (simp add: powi_nat e_def)
  finally have "round_half_even (x / 2 powi e) \<le> round_half_even (of_int (2 ^ nat (k - e)))"
    by (rule rhe_mono)
  then have "round_half_even (x / 2 powi e) \<le> 2 ^ nat (k - e)" by (simp only: rhe_of_int)
  then have "(of_int (round_half_even (x / 2 powi e)) :: rat) \<le> of_int (2 ^ nat (k - e))"
    by (simp only: of_int_le_iff)
  then have "of_int (round_half_even (x / 2 powi e)) \<le> (2::rat) powi (k - e)"
    using k by (simp add: powi_nat e_def)
  then have "of_int (round_half_even (x / 2 powi e)) * 2 powi e \<le> (2::rat) powi (k - e) * 2 powi e"
    by (rule mult_right_mono) simp
  also have "(2::rat) powi (k - e) * 2 powi e = 2 powi k"
    by (simp add: power_int_add [symmetric])
  finally show ?thesis by (simp only: round_pos_def e_def)
qed

lemma round_pos_above:
  assumes "0 < x" and k: "exponent_of x \<le> k" and "2 powi k \<le> x"
  shows "2 powi k \<le> round_pos x"
proof -
  define e where "e = exponent_of x"
  have "2 powi (k - e) = (2::rat) powi k / 2 powi e" by (simp add: power_int_diff)
  also have "\<dots> \<le> x / 2 powi e" using assms(3) by (simp add: divide_right_mono)
  finally have "(of_int (2 ^ nat (k - e)) :: rat) \<le> x / 2 powi e"
    using k by (simp add: powi_nat e_def)
  then have "round_half_even (of_int (2 ^ nat (k - e))) \<le> round_half_even (x / 2 powi e)"
    by (rule rhe_mono)
  then have "2 ^ nat (k - e) \<le> round_half_even (x / 2 powi e)" by (simp only: rhe_of_int)
  then have "(of_int (2 ^ nat (k - e)) :: rat) \<le> of_int (round_half_even (x / 2 powi e))"
    by (simp only: of_int_le_iff)
  then have "(2::rat) powi (k - e) \<le> of_int (round_half_even (x / 2 powi e))"
    using k by (simp add: powi_nat e_def)
  then have "(2::rat) powi (k - e) * 2 powi e \<le> of_int (round_half_even (x / 2 powi e)) * 2 powi e"
    by (rule mult_right_mono) simp
  moreover have "(2::rat) powi (k - e) * 2 powi e = 2 powi k"
    by (simp add: power_int_add [symmetric])
  ultimately show ?thesis by (simp only: round_pos_def e_def)
qed

lemma round_pos_mono:
  assumes "0 < x" "x \<le> y"
  shows "round_pos x \<le> round_pos y"
proof (cases "exponent_of x = exponent_of y")
  case True
  have "x / 2 powi exponent_of y \<le> y / 2 powi exponent_of y"
    using assms(2) by (simp add: divide_right_mono)
  then have "round_half_even (x / 2 powi exponent_of y) \<le> round_half_even (y / 2 powi exponent_of y)"
    by (rule rhe_mono)
  then show ?thesis by (simp add: round_pos_def True)
next
  case False
  with exponent_of_mono [OF assms] have lt: "exponent_of x < exponent_of y" by simp
  then have ey: "exponent_of y = ilog2 y - 52" by (simp add: exponent_of_def max_def split: if_splits)
  from lt have "ilog2 x < ilog2 y" by (simp add: exponent_of_def max_def split: if_splits)
  then have "(2::rat) powi (ilog2 x + 1) \<le> 2 powi (ilog2 y)"
    by (intro power_int_increasing) simp_all
  with ilog2_bounds(2) [OF assms(1)] have xk: "x \<le> 2 powi (ilog2 y)" by simp
  have y: "0 < y" using assms by simp
  have "round_pos x \<le> 2 powi (ilog2 y)"
    using assms(1) _ xk by (rule round_pos_below) (use lt ey in simp)
  also have "\<dots> \<le> round_pos y"
    using y _ ilog2_bounds(1) [OF y] by (rule round_pos_above) (use ey in simp)
  finally show ?thesis .
qed

lemma powi_less_D: "(2::rat) powi a < 2 powi b \<Longrightarrow> a < b"
proof (rule ccontr)
  assume lt: "(2::rat) powi a < 2 powi b" and "\<not> a < b"
  then have "b \<le> a" by simp
  then have "(2::rat) powi b \<le> 2 powi a" by (intro power_int_increasing) simp_all
  with lt show False by simp
qed

lemma ilog2_unique:
  assumes "0 < x" "2 powi k \<le> x" "x < 2 powi (k + 1)"
  shows "ilog2 x = k"
proof -
  have "(2::rat) powi k < 2 powi (ilog2 x + 1)"
    using assms(2) ilog2_bounds(2) [OF assms(1)] by simp
  then have a: "k < ilog2 x + 1" by (rule powi_less_D)
  have "(2::rat) powi (ilog2 x) < 2 powi (k + 1)"
    using assms(3) ilog2_bounds(1) [OF assms(1)] by simp
  then have "ilog2 x < k + 1" by (rule powi_less_D)
  with a show ?thesis by simp
qed

lemma rhe_eqI:
  assumes "of_int m - 1 / 2 < x" "x < of_int m + 1 / 2"
  shows "round_half_even x = m"
proof (cases "of_int m \<le> x")
  case True
  then have "\<lfloor>x\<rfloor> = m" using assms(2) by (intro floor_unique) simp_all
  then show ?thesis using assms(2) by (simp add: round_half_even_def Let_def)
next
  case False
  then have "\<lfloor>x\<rfloor> = m - 1" using assms(1) by (intro floor_unique) simp_all
  then show ?thesis using assms(1) by (simp add: round_half_even_def Let_def)
qed

lemma to_double_eval:
  assumes "0 < x" "2 powi k \<le> x" "x < 2 powi (k + 1)"
      and e: "e = max (k - 52) (- 1074)"
      and m: "of_int m - 1 / 2 < x / 2 powi e" "x / 2 powi e < of_int m + 1 / 2"
      and "e \<le> 970"
  shows "to_double x = Fin (of_int m * 2 powi e)"
proof -
  have k: "ilog2 x = k" using assms(1-3) by (rule ilog2_unique)
  then have ex: "exponent_of x = e" by (simp add: exponent_of_def e)
  have "round_half_even (x / 2 powi e) = m" using m by (rule rhe_eqI)
  then have r: "round_pos x = of_int m * 2 powi e" by (simp add: round_pos_def ex)
  have "(2::rat) powi (k + 1) \<le> 2 powi (53 + e)"
    by (intro power_int_increasing) (simp_all add: e)
  with assms(3) have "x \<le> 2 powi (53 + e)" by simp
  with assms(1) have "round_pos x \<le> 2 powi (53 + e)"
    by (intro round_pos_below) (simp_all add: ex)
  also have "(2::rat) powi (53 + e) < 2 powi 1024"
    using assms(7) by (intro power_int_strict_increasing) simp_all
  finally show ?thesis using assms(1) r by (simp add: to_double_def)
qed


lemma ilog2_scale:
  assumes "0 < x"
  shows "ilog2 (x * 2 powi e) = ilog2 x + e"
proof (rule ilog2_unique)
  show "0 < x * 2 powi e" using assms by simp
  have "(2::rat) powi (ilog2 x + e) = 2 powi (ilog2 x) * 2 powi e" by (simp add: power_int_add)
  also have "\<dots> \<le> x * 2 powi e"
    using ilog2_bounds(1) [OF assms] by (rule mult_right_mono) simp
  finally show "2 powi (ilog2 x + e) \<le> x * 2 powi e" .
  have "x * 2 powi e < 2 powi (ilog2 x + 1) * 2 powi e"
    using ilog2_bounds(2) [OF assms] by (rule mult_strict_right_mono) simp
  also have "\<dots> = 2 powi (ilog2 x + e + 1)" by (simp add: power_int_add [symmetric] add.commute add.left_commute)
  finally show "x * 2 powi e < 2 powi (ilog2 x + e + 1)" .
qed

lemma powi_le_D: "(2::rat) powi a \<le> 2 powi b \<Longrightarrow> a \<le> b"
proof (rule ccontr)
  assume le: "(2::rat) powi a \<le> 2 powi b" and "\<not> a \<le> b"
  then have "b < a" by simp
  then have "(2::rat) powi b < 2 powi a" by (intro power_int_strict_increasing) simp_all
  with le show False by simp
qed

lemma ilog2_mantissa:
  assumes "1 \<le> m" "m \<le> 2 ^ 53"
  shows "0 \<le> ilog2 (of_int m)" and "ilog2 (of_int m) \<le> 53"
    and "ilog2 (of_int m) = 53 \<Longrightarrow> m = 2 ^ 53"
proof -
  have pos: "0 < (of_int m :: rat)" using assms(1) by simp
  have hi: "(of_int m :: rat) \<le> 2 powi 53"
  proof -
    have "(of_int m :: rat) \<le> of_int (2 ^ 53)" using assms(2) by (simp only: of_int_le_iff)
    then show ?thesis by simp
  qed
  have "(2::rat) powi 0 \<le> of_int m" using assms(1) by simp
  also have "\<dots> < 2 powi (ilog2 (of_int m) + 1)" using ilog2_bounds(2) [OF pos] .
  finally have "0 < ilog2 (of_int m) + 1" by (rule powi_less_D)
  then show "0 \<le> ilog2 (of_int m)" by simp
  have "(2::rat) powi (ilog2 (of_int m)) \<le> 2 powi 53"
    using ilog2_bounds(1) [OF pos] hi by (rule order_trans)
  then show le: "ilog2 (of_int m) \<le> 53" by (rule powi_le_D)
  show "m = 2 ^ 53" if "ilog2 (of_int m) = 53"
  proof -
    have "(2::rat) powi 53 \<le> of_int m" using ilog2_bounds(1) [OF pos] that by simp
    then have "(of_int (2 ^ 53) :: rat) \<le> of_int m" by simp
    then have "2 ^ 53 \<le> m" by (simp only: of_int_le_iff)
    with assms(2) show ?thesis by simp
  qed
qed

lemma round_pos_exact:
  assumes "1 \<le> m" "m \<le> 2 ^ 53" "- 1074 \<le> e"
  shows "round_pos (of_int m * 2 powi e) = of_int m * 2 powi e"
proof -
  define j where "j = ilog2 (of_int m)"
  have pos: "0 < (of_int m :: rat)" using assms(1) by simp
  have k: "ilog2 (of_int m * 2 powi e) = j + e" unfolding j_def using pos by (rule ilog2_scale)
  note j = ilog2_mantissa [OF assms(1,2), folded j_def]
  show ?thesis
  proof (cases "j = 53")
    case True
    then have m: "m = 2 ^ 53" by (rule j(3))
    have ex: "exponent_of (of_int m * 2 powi e) = e + 1"
      using assms(3) True by (simp add: exponent_of_def k)
    have "of_int m * 2 powi e / 2 powi (e + 1) = (of_int (2 ^ 52) :: rat)"
      by (simp add: m power_int_add)
    then have "round_half_even (of_int m * 2 powi e / 2 powi (e + 1)) = 2 ^ 52"
      by (simp only: rhe_of_int)
    then have "round_pos (of_int m * 2 powi e) = of_int (2 ^ 52) * 2 powi (e + 1)"
      by (simp only: round_pos_def ex)
    also have "\<dots> = of_int m * 2 powi e" by (simp add: m power_int_add)
    finally show ?thesis .
  next
    case False
    with j(2) have j52: "j \<le> 52" by simp
    define e' where "e' = exponent_of (of_int m * 2 powi e)"
    have e': "e' \<le> e" using assms(3) j52 by (simp add: e'_def exponent_of_def k)
    have "of_int m * 2 powi e / 2 powi e' = of_int m * (2::rat) powi (e - e')"
      by (simp add: power_int_diff)
    also have "\<dots> = of_int (m * 2 ^ nat (e - e'))" using e' by (simp add: powi_nat)
    finally have q: "of_int m * 2 powi e / 2 powi e' = (of_int (m * 2 ^ nat (e - e')) :: rat)" .
    have "round_half_even (of_int m * 2 powi e / 2 powi e') = m * 2 ^ nat (e - e')"
      by (simp only: q rhe_of_int)
    then have "round_pos (of_int m * 2 powi e) = of_int (m * 2 ^ nat (e - e')) * 2 powi e'"
      by (simp only: round_pos_def e'_def)
    also have "\<dots> = of_int m * (2::rat) powi (e - e') * 2 powi e'" using e' by (simp add: powi_nat)
    also have "\<dots> = of_int m * 2 powi e" by (simp add: power_int_diff)
    finally show ?thesis .
  qed
qed

lemma mantissa_le:
  assumes "0 < x"
  shows "round_half_even (x / 2 powi exponent_of x) \<le> 2 ^ 53"
    and "0 \<le> round_half_even (x / 2 powi exponent_of x)"
proof -
  define e where "e = exponent_of x"
  have "x / 2 powi e \<le> 2 powi (ilog2 x + 1) / 2 powi e"
    using ilog2_bounds(2) [OF assms] by (simp add: divide_right_mono)
  also have "\<dots> = 2 powi (ilog2 x + 1 - e)" by (simp add: power_int_diff)
  also have "\<dots> \<le> 2 powi 53" by (intro power_int_increasing) (simp_all add: e_def exponent_of_def)
  also have "\<dots> = of_int (2 ^ 53)" by simp
  finally have "round_half_even (x / 2 powi e) \<le> round_half_even (of_int (2 ^ 53))" by (rule rhe_mono)
  then show "round_half_even (x / 2 powi exponent_of x) \<le> 2 ^ 53" by (simp only: rhe_of_int e_def)
  have "0 \<le> x / 2 powi e" using assms by simp
  then have "round_half_even (of_int 0) \<le> round_half_even (x / 2 powi e)" by (intro rhe_mono) simp
  then show "0 \<le> round_half_even (x / 2 powi exponent_of x)" by (simp only: rhe_of_int e_def)
qed

lemma round_pos_idem:
  assumes "0 < x"
  shows "round_pos x = 0 \<or> (0 < round_pos x \<and> round_pos (round_pos x) = round_pos x)"
proof -
  define m where "m = round_half_even (x / 2 powi exponent_of x)"
  have r: "round_pos x = of_int m * 2 powi exponent_of x" by (simp add: round_pos_def m_def)
  note m = mantissa_le [OF assms, folded m_def]
  show ?thesis
  proof (cases "m = 0")
    case True
    then show ?thesis by (simp add: r)
  next
    case False
    with m(2) have m1: "1 \<le> m" by simp
    have "- 1074 \<le> exponent_of x" by (simp add: exponent_of_def)
    from round_pos_exact [OF m1 m(1) this] m1 show ?thesis by (simp add: r)
  qed
qed

lemma to_double_idem:
  assumes "to_double x = Fin r"
  shows "is_double r"
proof -
  consider "x = 0" | "0 < x" | "x < 0" by linarith
  then show ?thesis
  proof cases
    case 1
    with assms show ?thesis by (simp add: is_double_def to_double_def)
  next
    case 2
    with assms have r: "r = round_pos x" "\<not> 2 powi 1024 \<le> round_pos x"
      by (auto simp: to_double_def split: if_splits)
    from round_pos_idem [OF 2] show ?thesis
    proof
      assume "round_pos x = 0"
      then show ?thesis by (simp add: r is_double_def to_double_def)
    next
      assume "0 < round_pos x \<and> round_pos (round_pos x) = round_pos x"
      then show ?thesis using r(2) by (simp add: r(1) is_double_def to_double_def)
    qed
  next
    case 3
    with assms have r: "r = - round_pos (- x)" "\<not> 2 powi 1024 \<le> round_pos (- x)"
      by (auto simp: to_double_def split: if_splits)
    from 3 have "0 < - x" by simp
    from round_pos_idem [OF this] show ?thesis
    proof
      assume "round_pos (- x) = 0"
      then show ?thesis by (simp add: r is_double_def to_double_def)
    next
      assume "0 < round_pos (- x) \<and> round_pos (round_pos (- x)) = round_pos (- x)"
      then show ?thesis using r(2) by (simp add: r(1) is_double_def to_double_def)
    qed
  qed
qed

section \<open>The usage percentage\<close>

lemma to_double_cases: "(\<exists>a. to_double x = Fin a) \<or> to_double x = PInf \<or> to_double x = NInf"
  by (simp add: to_double_def)

lemma to_double_not_NaN [simp]: "to_double x \<noteq> NaN"
  by (simp add: to_double_def)

lemma to_double_0 [simp]: "to_double 0 = Fin 0"
  by (simp add: to_double_def)

lemma floor_half [simp]: "\<lfloor>(1::rat) / 2\<rfloor> = 0"
  by (simp add: floor_eq_iff)

lemma to_double_1: "to_double 1 = Fin 1"
  using to_double_eval [of 1 0 "- 52" 4503599627370496] by (simp add: power_int_minus)

lemma to_double_100: "to_double 100 = Fin 100"
  using to_double_eval [of 100 6 "- 46" 7036874417766400] by (simp add: power_int_minus)

lemma to_double_10000: "to_double 10000 = Fin 10000"
  using to_double_eval [of 10000 13 "- 39" 5497558138880000] by (simp add: power_int_minus)

lemma to_double_mono_Fin:
  assumes "0 \<le> x" "x \<le> y" "to_double y = Fin b"
  shows "\<exists>a. to_double x = Fin a \<and> 0 \<le> a \<and> a \<le> b"
proof (cases "x = 0")
  case True
  have "0 \<le> b" using assms round_pos_nonneg [of y]
    by (auto simp: to_double_def split: if_splits)
  with True show ?thesis by (simp add: to_double_def)
next
  case False
  with assms have x: "0 < x" and y: "0 < y" by simp_all
  from assms(3) y have b: "b = round_pos y" "\<not> 2 powi 1024 \<le> round_pos y"
    by (auto simp: to_double_def split: if_splits)
  have le: "round_pos x \<le> round_pos y" using x assms(2) by (rule round_pos_mono)
  with b have "\<not> 2 powi 1024 \<le> round_pos x" by simp
  then have "to_double x = Fin (round_pos x)" using x by (simp add: to_double_def)
  with le b round_pos_nonneg [of x] x show ?thesis by simp
qed

lemma to_double_ge:
  assumes "0 \<le> x" "x \<le> y" "to_double x = Fin a"
  shows "to_double y = PInf \<or> (\<exists>b. to_double y = Fin b \<and> a \<le> b)"
proof (cases "y = 0")
  case True
  with assms have "x = 0" by simp
  with True assms(3) show ?thesis by (simp add: to_double_def)
next
  case False
  with assms have y: "0 < y" by simp
  have "a \<le> round_pos y"
  proof (cases "x = 0")
    case True
    with assms(3) have "a = 0" by (simp add: to_double_def)
    then show ?thesis using round_pos_nonneg [of y] y by simp
  next
    case False
    with assms have x: "0 < x" by simp
    with assms(3) have "a = round_pos x" by (auto simp: to_double_def split: if_splits)
    then show ?thesis using round_pos_mono [OF x assms(2)] by simp
  qed
  then show ?thesis using y by (simp add: to_double_def)
qed

lemma usedPercent_not_NaN: "usedPercent_of q u \<noteq> NaN"
proof -
  have d: "js_div a (Fin 100) \<noteq> NaN" if "a \<noteq> NaN" for a
    using that by (cases a) simp_all
  have r: "Math_round a \<noteq> NaN" if "a \<noteq> NaN" for a
    using that by (cases a) simp_all
  have m: "js_mul a (Fin 10000) \<noteq> NaN" if "a \<noteq> NaN" for a
    using that by (cases a) simp_all
  have q: "js_div (Fin u) t \<noteq> NaN" if "js_gt t (Fin 0)" for t
    using that by (cases t) simp_all
  show ?thesis
    unfolding usedPercent_of_def Let_def using d r m q by simp
qed

lemma usedPercent_bounds:
  assumes "0 \<le> q" "0 \<le> u" "is_double u"
  shows "\<exists>x. usedPercent_of q u = Fin x \<and> 0 \<le> x \<and> x \<le> 100 \<and> is_double x"
proof -
  have z: "is_double 0" by (simp add: is_double_def)
  have u: "to_double u = Fin u" using assms(3) by (simp add: is_double_def)
  have "u \<le> q + u" using assms(1) by simp
  from to_double_ge [OF assms(2) this u]
  show ?thesis
  proof
    assume "to_double (q + u) = PInf"
    then show ?thesis using z by (simp add: usedPercent_of_def)
  next
    assume "\<exists>t. to_double (q + u) = Fin t \<and> u \<le> t"
    then obtain t where t: "to_double (q + u) = Fin t" "u \<le> t" by blast
    show ?thesis
    proof (cases "0 < t")
      case False
      with t z show ?thesis by (simp add: usedPercent_of_def)
    next
      case True
      have "0 \<le> u / t" "u / t \<le> 1" using assms(2) t(2) True by simp_all
      from to_double_mono_Fin [OF this to_double_1]
      obtain r where r: "to_double (u / t) = Fin r" "0 \<le> r" "r \<le> 1" by blast
      have "0 \<le> r * 10000" "r * 10000 \<le> 10000" using r by simp_all
      from to_double_mono_Fin [OF this to_double_10000]
      obtain p where p: "to_double (r * 10000) = Fin p" "0 \<le> p" "p \<le> 10000" by blast
      define n where "n = \<lfloor>p + 1 / 2\<rfloor>"
      have n0: "0 \<le> n" unfolding n_def using p(2) by simp
      have "p + 1 / 2 < 10001" using p(3) by simp
      then have "n < 10001" unfolding n_def by (simp add: floor_less_iff)
      then have n1: "n \<le> 10000" by simp
      have "0 \<le> (of_int n :: rat) / 100" using n0 by simp
      moreover have "(of_int n :: rat) / 100 \<le> 100" using n1 by simp
      ultimately obtain f where f: "to_double (of_int n / 100) = Fin f" "0 \<le> f" "f \<le> 100"
        using to_double_mono_Fin [OF _ _ to_double_100] by blast
      have "usedPercent_of q u = Fin f"
        using t True r(1) p(1) f(1) by (simp add: usedPercent_of_def n_def)
      with f to_double_idem [OF f(1)] show ?thesis by simp
    qed
  qed
qed

lemma to_double_nonpos: "x \<le> 0 \<Longrightarrow> \<not> js_gt (to_double x) (Fin 0)"
  using round_pos_nonneg [of "- x"] by (auto simp: to_double_def)

lemma to_double_overflow:
  assumes "2 powi 1024 \<le> x"
  shows "to_double x = PInf"
proof -
  have "(0::rat) < 2 powi 1024" by (rule powi_pos)
  then have x: "0 < x" using assms by (rule less_le_trans)
  have "2 powi 1024 < (2::rat) powi (ilog2 x + 1)"
    using assms ilog2_bounds(2) [OF x] by simp
  then have k: "1024 \<le> ilog2 x" using powi_less_D [of 1024 "ilog2 x + 1"] by simp
  then have "(2::rat) powi 1024 \<le> 2 powi (ilog2 x)" by (intro power_int_increasing) simp_all
  also have "\<dots> \<le> round_pos x"
    using x _ ilog2_bounds(1) [OF x] by (rule round_pos_above) (use k in \<open>simp add: exponent_of_def\<close>)
  finally show ?thesis using x by (simp add: to_double_def)
qed

lemma total_positive:
  assumes "0 \<le> q" "0 \<le> u" "is_double q" "is_double u"
  shows "js_gt (js_add (Fin q) (Fin u)) (Fin 0) \<longleftrightarrow> 0 < q + u"
proof
  assume "js_gt (js_add (Fin q) (Fin u)) (Fin 0)"
  then show "0 < q + u" using to_double_nonpos [of "q + u"] by (cases "0 < q + u") simp_all
next
  assume pos: "0 < q + u"
  have "\<exists>v. 0 < v \<and> v \<le> q + u \<and> to_double v = Fin v"
  proof (cases "0 < u")
    case True
    with assms show ?thesis by (intro exI [of _ u]) (simp add: is_double_def)
  next
    case False
    with assms pos have "0 < q" by simp
    with assms show ?thesis by (intro exI [of _ q]) (simp add: is_double_def)
  qed
  then obtain v where v: "0 < v" "v \<le> q + u" "to_double v = Fin v" by blast
  from to_double_ge [OF _ v(2) v(3)] v(1)
  have "to_double (q + u) = PInf \<or> (\<exists>b. to_double (q + u) = Fin b \<and> v \<le> b)" by simp
  with v(1) show "js_gt (js_add (Fin q) (Fin u)) (Fin 0)" by auto
qed

lemma to_double_nearest:
  assumes "0 < x" "to_double x = Fin r"
  shows "\<exists>m. r = of_int m * 2 powi exponent_of x"
    and "\<bar>r - x\<bar> \<le> 2 powi exponent_of x / 2"
    and "2 powi (ilog2 x) \<le> x \<and> x < 2 powi (ilog2 x + 1)"
proof -
  define e where "e = exponent_of x"
  define m where "m = round_half_even (x / 2 powi e)"
  from assms have r: "r = of_int m * 2 powi e"
    by (auto simp: to_double_def round_pos_def e_def m_def split: if_splits)
  then show "\<exists>m. r = of_int m * 2 powi exponent_of x" unfolding e_def by blast
  have "\<bar>of_int m - x / 2 powi e\<bar> \<le> 1 / 2"
    using rhe_bounds [of "x / 2 powi e"] unfolding m_def by linarith
  then have "\<bar>of_int m - x / 2 powi e\<bar> * 2 powi e \<le> 1 / 2 * 2 powi e"
    by (rule mult_right_mono) simp
  moreover have "\<bar>of_int m - x / 2 powi e\<bar> * 2 powi e = \<bar>(of_int m - x / 2 powi e) * 2 powi e\<bar>"
    by (simp add: abs_mult)
  moreover have "(of_int m - x / 2 powi e) * 2 powi e = r - x"
    by (simp add: r left_diff_distrib)
  ultimately show "\<bar>r - x\<bar> \<le> 2 powi exponent_of x / 2" unfolding e_def by simp
  show "2 powi (ilog2 x) \<le> x \<and> x < 2 powi (ilog2 x + 1)"
    using ilog2_bounds [OF assms(1)] by simp
qed

lemma Math_round_nearest:
  "\<exists>n. Math_round (Fin x) = Fin (of_int n) \<and> of_int n - 1 / 2 \<le> x \<and> x < of_int n + 1 / 2"
proof -
  define n where "n = \<lfloor>x + 1 / 2\<rfloor>"
  have a: "of_int n \<le> x + 1 / 2" unfolding n_def by (rule of_int_floor_le)
  have b: "x + 1 / 2 < of_int n + 1" unfolding n_def by linarith
  have c: "Math_round (Fin x) = Fin (of_int n)" by (simp add: n_def)
  from a have a': "of_int n - 1 / 2 \<le> x" by linarith
  from b have b': "x < of_int n + 1 / 2" by linarith
  from a' b' c show ?thesis by blast
qed

lemma getUsage_run:
  assumes "fst (authenticatedFetch e h ''/api/v1/oauth/usage'' s) = Inr response"
      and "resp_ok response" "resp_json response = Some json"
      and "UsageResponseSchema_parse json = Inr (True, d)"
  shows "getUsage e h s =
            (Inr \<lparr>requestCount = ud_request_count d,
                  usedPercent = usedPercent_of (ud_quota d) (ud_used_quota d)\<rparr>,
             snd (authenticatedFetch e h ''/api/v1/oauth/usage'' s))"
  apply (rule wp_eqD)
  unfolding getUsage_def
  using assms by (simp add: wp_def [of "authenticatedFetch e h _"] response_json_def)

lemma getUsage_Inr:
  assumes "fst (getUsage e h s) = Inr res"
  shows "\<exists>response json d.
                fst (authenticatedFetch e h ''/api/v1/oauth/usage'' s) = Inr response
                \<and> resp_ok response \<and> resp_json response = Some json
                \<and> UsageResponseSchema_parse json = Inr (True, d)
                \<and> res = \<lparr>requestCount = ud_request_count d,
                          usedPercent = usedPercent_of (ud_quota d) (ud_used_quota d)\<rparr>"
proof -
  have "wp (getUsage e h) s (\<lambda>r s'. \<forall>res. r = Inr res \<longrightarrow>
          (\<exists>response json d.
                fst (authenticatedFetch e h ''/api/v1/oauth/usage'' s) = Inr response
                \<and> resp_ok response \<and> resp_json response = Some json
                \<and> UsageResponseSchema_parse json = Inr (True, d)
                \<and> res = \<lparr>requestCount = ud_request_count d,
                          usedPercent = usedPercent_of (ud_quota d) (ud_used_quota d)\<rparr>))"
    unfolding getUsage_def
    by (auto simp: wp_def [of "authenticatedFetch e h _"] response_json_def
          split: sum.split prod.split option.split)
  then show ?thesis using assms by (simp add: wp_def)
qed

lemma UsageResponseSchema_parse_fields:
  "UsageResponseSchema_parse
     (JObj [(''success'', JBool b),
            (''data'', JObj [(''request_count'', JNum c), (''used_quota'', JNum u), (''quota'', JNum q)])])
   = Inr (b, \<lparr>ud_request_count = c, ud_used_quota = u, ud_quota = q\<rparr>)"
  by (simp add: UsageResponseSchema_parse_def sum_bind_def z_field_object_def)

text \<open>
  Claim C10, in binary64 arithmetic. \<open>total\<close> is the rounded sum of the two numbers.
  When \<open>total > 0\<close>, \<open>usedPercent\<close> is
  \<^verbatim>\<open>Math.round((used_quota / total) * 10000) / 100\<close>, each operation rounded; then the
  divisor is neither zero nor \<^verbatim>\<open>NaN\<close> and the exact sum is positive. Otherwise, and whenever
  the exact sum is not positive, it is 0. It is never \<^verbatim>\<open>NaN\<close>. \<^verbatim>\<open>Math.round\<close> gives the
  integer \<open>n\<close> with \<open>n - 1/2 \<le> x < n + 1/2\<close>. For non-negative doubles
  \<open>quota\<close> and \<open>used_quota\<close> the test \<open>total > 0\<close> holds exactly when their sum is positive,
  and \<open>usedPercent\<close> is a double between 0 and 100 (0 when the sum overflows).
  \<open>getUsage\<close> returns this value, computed from the \<^verbatim>\<open>quota\<close> and \<^verbatim>\<open>used_quota\<close> fields of the
  parsed response, whenever it returns at all.
\<close>

theorem C10_usedPercent_safe_and_bounded:
  fixes quota used_quota :: rat
  defines "total_quota \<equiv> js_add (Fin quota) (Fin used_quota)"
  shows
  "total_quota = to_double (quota + used_quota)
   \<and> (js_gt total_quota (Fin 0) \<longrightarrow>
        usedPercent_of quota used_quota =
          js_div (Math_round (js_mul (js_div (Fin used_quota) total_quota) (Fin 10000))) (Fin 100)
        \<and> total_quota \<noteq> Fin 0 \<and> total_quota \<noteq> NaN \<and> 0 < quota + used_quota)
   \<and> (\<not> js_gt total_quota (Fin 0) \<longrightarrow> usedPercent_of quota used_quota = Fin 0)
   \<and> (quota + used_quota \<le> 0 \<longrightarrow> usedPercent_of quota used_quota = Fin 0)
   \<and> usedPercent_of quota used_quota \<noteq> NaN
   \<and> (\<forall>x. \<exists>n. Math_round (Fin x) = Fin (of_int n) \<and> of_int n - 1 / 2 \<le> x \<and> x < of_int n + 1 / 2)
   \<and> (0 \<le> quota \<and> 0 \<le> used_quota \<and> is_double quota \<and> is_double used_quota \<longrightarrow>
        (js_gt total_quota (Fin 0) \<longleftrightarrow> 0 < quota + used_quota)
        \<and> (\<exists>x. usedPercent_of quota used_quota = Fin x \<and> 0 \<le> x \<and> x \<le> 100 \<and> is_double x))
   \<and> (\<forall>response json d.
          fst (authenticatedFetch e h ''/api/v1/oauth/usage'' s) = Inr response
          \<and> resp_ok response \<and> resp_json response = Some json
          \<and> UsageResponseSchema_parse json = Inr (True, d) \<longrightarrow>
          getUsage e h s =
            (Inr \<lparr>requestCount = ud_request_count d,
                  usedPercent = usedPercent_of (ud_quota d) (ud_used_quota d)\<rparr>,
             snd (authenticatedFetch e h ''/api/v1/oauth/usage'' s)))
   \<and> (\<forall>res. fst (getUsage e h s) = Inr res \<longrightarrow>
          usedPercent res \<noteq> NaN
          \<and> (\<exists>response json d.
                fst (authenticatedFetch e h ''/api/v1/oauth/usage'' s) = Inr response
                \<and> resp_ok response \<and> resp_json response = Some json
                \<and> UsageResponseSchema_parse json = Inr (True, d)
                \<and> res = \<lparr>requestCount = ud_request_count d,
                          usedPercent = usedPercent_of (ud_quota d) (ud_used_quota d)\<rparr>
                \<and> (0 \<le> ud_quota d \<and> 0 \<le> ud_used_quota d
                     \<and> is_double (ud_quota d) \<and> is_double (ud_used_quota d) \<longrightarrow>
                     (\<exists>x. usedPercent res = Fin x \<and> 0 \<le> x \<and> x \<le> 100 \<and> is_double x))))
   \<and> (\<forall>b c. UsageResponseSchema_parse
          (JObj [(''success'', JBool b),
                 (''data'', JObj [(''request_count'', JNum c), (''used_quota'', JNum used_quota),
                                  (''quota'', JNum quota)])])
        = Inr (b, \<lparr>ud_request_count = c, ud_used_quota = used_quota, ud_quota = quota\<rparr>))"
proof -
  have t: "total_quota = to_double (quota + used_quota)" by (simp add: total_quota_def)
  have pos: "js_gt total_quota (Fin 0) \<longrightarrow>
        usedPercent_of quota used_quota =
          js_div (Math_round (js_mul (js_div (Fin used_quota) total_quota) (Fin 10000))) (Fin 100)
        \<and> total_quota \<noteq> Fin 0 \<and> total_quota \<noteq> NaN \<and> 0 < quota + used_quota"
  proof
    assume g: "js_gt total_quota (Fin 0)"
    then have "0 < quota + used_quota"
      using to_double_nonpos [of "quota + used_quota"] unfolding t
      by (cases "0 < quota + used_quota") simp_all
    moreover have "total_quota \<noteq> Fin 0" "total_quota \<noteq> NaN" using g by auto
    moreover have "usedPercent_of quota used_quota =
          js_div (Math_round (js_mul (js_div (Fin used_quota) total_quota) (Fin 10000))) (Fin 100)"
      using g by (simp add: usedPercent_of_def total_quota_def)
    ultimately show "usedPercent_of quota used_quota =
          js_div (Math_round (js_mul (js_div (Fin used_quota) total_quota) (Fin 10000))) (Fin 100)
        \<and> total_quota \<noteq> Fin 0 \<and> total_quota \<noteq> NaN \<and> 0 < quota + used_quota" by simp
  qed
  have neg: "\<not> js_gt total_quota (Fin 0) \<longrightarrow> usedPercent_of quota used_quota = Fin 0"
    by (simp add: usedPercent_of_def total_quota_def)
  have nonpos: "quota + used_quota \<le> 0 \<longrightarrow> usedPercent_of quota used_quota = Fin 0"
    using to_double_nonpos [of "quota + used_quota"] by (simp add: usedPercent_of_def)
  have bound: "0 \<le> quota \<and> 0 \<le> used_quota \<and> is_double quota \<and> is_double used_quota \<longrightarrow>
        (js_gt total_quota (Fin 0) \<longleftrightarrow> 0 < quota + used_quota)
        \<and> (\<exists>x. usedPercent_of quota used_quota = Fin x \<and> 0 \<le> x \<and> x \<le> 100 \<and> is_double x)"
    unfolding total_quota_def
    using total_positive [of quota used_quota] usedPercent_bounds [of quota used_quota] by blast
  have run: "\<forall>response json d.
          fst (authenticatedFetch e h ''/api/v1/oauth/usage'' s) = Inr response
          \<and> resp_ok response \<and> resp_json response = Some json
          \<and> UsageResponseSchema_parse json = Inr (True, d) \<longrightarrow>
          getUsage e h s =
            (Inr \<lparr>requestCount = ud_request_count d,
                  usedPercent = usedPercent_of (ud_quota d) (ud_used_quota d)\<rparr>,
             snd (authenticatedFetch e h ''/api/v1/oauth/usage'' s))"
    using getUsage_run [of e h s] by blast
  have conv: "\<forall>res. fst (getUsage e h s) = Inr res \<longrightarrow>
          usedPercent res \<noteq> NaN
          \<and> (\<exists>response json d.
                fst (authenticatedFetch e h ''/api/v1/oauth/usage'' s) = Inr response
                \<and> resp_ok response \<and> resp_json response = Some json
                \<and> UsageResponseSchema_parse json = Inr (True, d)
                \<and> res = \<lparr>requestCount = ud_request_count d,
                          usedPercent = usedPercent_of (ud_quota d) (ud_used_quota d)\<rparr>
                \<and> (0 \<le> ud_quota d \<and> 0 \<le> ud_used_quota d
                     \<and> is_double (ud_quota d) \<and> is_double (ud_used_quota d) \<longrightarrow>
                     (\<exists>x. usedPercent res = Fin x \<and> 0 \<le> x \<and> x \<le> 100 \<and> is_double x)))"
  proof (intro allI impI)
    fix res
    assume r: "fst (getUsage e h s) = Inr res"
    from getUsage_Inr [OF r]
    have ex: "\<exists>response json d.
                fst (authenticatedFetch e h ''/api/v1/oauth/usage'' s) = Inr response
                \<and> resp_ok response \<and> resp_json response = Some json
                \<and> UsageResponseSchema_parse json = Inr (True, d)
                \<and> res = \<lparr>requestCount = ud_request_count d,
                          usedPercent = usedPercent_of (ud_quota d) (ud_used_quota d)\<rparr>" .
    then obtain response json d where d:
        "fst (authenticatedFetch e h ''/api/v1/oauth/usage'' s) = Inr response"
        "resp_ok response" "resp_json response = Some json"
        "UsageResponseSchema_parse json = Inr (True, d)"
        "res = \<lparr>requestCount = ud_request_count d,
                usedPercent = usedPercent_of (ud_quota d) (ud_used_quota d)\<rparr>"
      by blast
    have bd: "0 \<le> ud_quota d \<and> 0 \<le> ud_used_quota d
                     \<and> is_double (ud_quota d) \<and> is_double (ud_used_quota d) \<longrightarrow>
                     (\<exists>x. usedPercent res = Fin x \<and> 0 \<le> x \<and> x \<le> 100 \<and> is_double x)"
      using usedPercent_bounds [of "ud_quota d" "ud_used_quota d"] d(5) by simp
    have "usedPercent res \<noteq> NaN" using usedPercent_not_NaN d(5) by simp
    with d bd show "usedPercent res \<noteq> NaN
          \<and> (\<exists>response json d.
                fst (authenticatedFetch e h ''/api/v1/oauth/usage'' s) = Inr response
                \<and> resp_ok response \<and> resp_json response = Some json
                \<and> UsageResponseSchema_parse json = Inr (True, d)
                \<and> res = \<lparr>requestCount = ud_request_count d,
                          usedPercent = usedPercent_of (ud_quota d) (ud_used_quota d)\<rparr>
                \<and> (0 \<le> ud_quota d \<and> 0 \<le> ud_used_quota d
                     \<and> is_double (ud_quota d) \<and> is_double (ud_used_quota d) \<longrightarrow>
                     (\<exists>x. usedPercent res = Fin x \<and> 0 \<le> x \<and> x \<le> 100 \<and> is_double x)))"
      by blast
  qed
  have parse: "\<forall>b c. UsageResponseSchema_parse
          (JObj [(''success'', JBool b),
                 (''data'', JObj [(''request_count'', JNum c), (''used_quota'', JNum used_quota),
                                  (''quota'', JNum quota)])])
        = Inr (b, \<lparr>ud_request_count = c, ud_used_quota = used_quota, ud_quota = quota\<rparr>)"
    by (simp add: UsageResponseSchema_parse_fields)
  have rnd: "\<forall>x. \<exists>n. Math_round (Fin x) = Fin (of_int n) \<and> of_int n - 1 / 2 \<le> x \<and> x < of_int n + 1 / 2"
    using Math_round_nearest by blast
  show ?thesis
    apply (intro conjI)
    using t pos neg nonpos bound run conv parse rnd usedPercent_not_NaN [of quota used_quota] by blast+
qed

lemma example_doubles:
  "is_double 743" "is_double 57" "to_double 800 = Fin 800"
  using to_double_eval [of 743 9 "- 43" 6535497115500544]
        to_double_eval [of 57 5 "- 47" 8022036836253696]
        to_double_eval [of 800 9 "- 43" 7036874417766400]
  by (simp_all add: is_double_def power_int_minus)

lemma example_ratio:
  "to_double (57 / 800) = Fin (5134103575202365 / 72057594037927936)"
  using to_double_eval [of "57 / 800" "- 4" "- 56" 5134103575202365]
  by (simp add: power_int_minus)

lemma example_product:
  "to_double (5134103575202365 / 72057594037927936 * 10000) = Fin (6267216278323199 / 8796093022208)"
  using to_double_eval [of "5134103575202365 / 72057594037927936 * 10000" 9 "- 43" 6267216278323199]
  by (simp add: power_int_minus)

lemma example_round: "\<lfloor>(6267216278323199 :: rat) / 8796093022208 + 1 / 2\<rfloor> = 712"
  by (simp add: floor_eq_iff)

lemma example_quotient:
  "to_double (712 / 100) = Fin (8016407336719483 / 1125899906842624)"
  using to_double_eval [of "712 / 100" 2 "- 50" 8016407336719483]
  by (simp add: power_int_minus)

lemma example_usage_fetch:
  "authenticatedFetch env_usage ''https://open.cherryin.ai'' ''/api/v1/oauth/usage'' state_saved =
     (Inr response_usage,
      state_saved\<lparr>sent := [api_request env_usage ''https://open.cherryin.ai''
                                ''/api/v1/oauth/usage'' (JStr ''tok'')]\<rparr>)"
proof -
  have t: "fst (getToken env_usage state_saved) = Inr (Some ''tok'')"
    by (simp add: getToken_eq env_usage_def example_defs)
  have n: "''tok'' \<noteq> ([] :: string)" by simp
  show ?thesis
    using authFetch_not_401 [OF t n, of "''https://open.cherryin.ai''" "''/api/v1/oauth/usage''"
        response_usage]
    by (simp add: env_usage_def response_usage_def state_saved_def)
qed

lemma example_two_thirds:
  "to_double 3 = Fin 3"
  "to_double (2 / 3) = Fin (6004799503160661 / 9007199254740992)"
  "to_double (6004799503160661 / 9007199254740992 * 10000) = Fin (3665038759253333 / 549755813888)"
  "\<lfloor>(3665038759253333 :: rat) / 549755813888 + 1 / 2\<rfloor> = 6667"
  "to_double (6667 / 100) = Fin (4691484174324859 / 70368744177664)"
  using to_double_eval [of 3 1 "- 51" 6755399441055744]
        to_double_eval [of "2 / 3" "- 1" "- 53" 6004799503160661]
        to_double_eval [of "6004799503160661 / 9007199254740992 * 10000" 12 "- 40" 7330077518506666]
        to_double_eval [of "6667 / 100" 6 "- 46" 4691484174324859]
  by (simp_all add: power_int_minus floor_eq_iff)

lemma example_smallest:
  "to_double (1 / 2 ^ 1074) = Fin (1 / 2 ^ 1074)"
  using to_double_eval [of "1 / 2 ^ 1074" "- 1074" "- 1074" 1]
  by (simp add: power_int_minus)

lemma example_smallest_percent: "usedPercent_of 0 (1 / 2 ^ 1074) = Fin 100"
proof -
  have "js_add (Fin 0) (Fin (1 / 2 ^ 1074)) = Fin (1 / 2 ^ 1074)"
    using example_smallest by simp
  moreover have "js_div (Fin (1 / 2 ^ 1074)) (Fin (1 / 2 ^ 1074)) = Fin 1"
    by (simp add: to_double_1)
  moreover have "\<lfloor>(10000 :: rat) + 1 / 2\<rfloor> = 10000" by (simp add: floor_eq_iff)
  ultimately show ?thesis
    by (simp add: usedPercent_of_def to_double_10000 to_double_100)
qed

theorem C10_usedPercent_safe_and_bounded_witness:
  "0 \<le> (743 :: rat) \<and> 0 \<le> (57 :: rat) \<and> is_double 743 \<and> is_double 57
   \<and> js_add (Fin 743) (Fin 57) = Fin 800
   \<and> js_div (Fin 57) (Fin 800) = Fin (5134103575202365 / 72057594037927936)
   \<and> js_mul (Fin (5134103575202365 / 72057594037927936)) (Fin 10000)
       = Fin (6267216278323199 / 8796093022208)
   \<and> Math_round (Fin (6267216278323199 / 8796093022208)) = Fin 712
   \<and> usedPercent_of 743 57 = Fin (8016407336719483 / 1125899906842624)
   \<and> Math_round (Fin (3665038759253333 / 549755813888)) = Fin 6667
   \<and> usedPercent_of 1 2 = Fin (4691484174324859 / 70368744177664)
   \<and> usedPercent_of 0 (1 / 2 ^ 1074) = Fin 100
   \<and> js_add (Fin (2 ^ 1023)) (Fin (2 ^ 1023)) = PInf
   \<and> usedPercent_of (2 ^ 1023) (2 ^ 1023) = Fin 0
   \<and> usedPercent_of 0 0 = Fin 0
   \<and> fst (getUsage env_usage ''https://open.cherryin.ai'' state_saved) =
       Inr \<lparr>requestCount = 12, usedPercent = Fin (8016407336719483 / 1125899906842624)\<rparr>"
proof -
  note c = C10_usedPercent_safe_and_bounded [of 743 57 env_usage "''https://open.cherryin.ai''" state_saved]
  have s: "js_add (Fin 743) (Fin 57) = Fin 800" using example_doubles(3) by simp
  from c s have u: "usedPercent_of 743 57 =
      js_div (Math_round (js_mul (js_div (Fin 57) (Fin 800)) (Fin 10000))) (Fin 100)" by simp
  have r: "js_div (Fin 57) (Fin 800) = Fin (5134103575202365 / 72057594037927936)"
    by (simp add: example_ratio)
  have p: "js_mul (Fin (5134103575202365 / 72057594037927936)) (Fin 10000)
       = Fin (6267216278323199 / 8796093022208)"
    by (simp only: js_mul.simps example_product)
  have m: "Math_round (Fin (6267216278323199 / 8796093022208)) = Fin 712"
    by (simp only: Math_round.simps example_round) simp
  have v: "usedPercent_of 743 57 = Fin (8016407336719483 / 1125899906842624)"
    unfolding u r p m using example_quotient by simp
  have o: "js_add (Fin (2 ^ 1023)) (Fin (2 ^ 1023)) = PInf"
    using to_double_overflow [of "2 ^ 1023 + 2 ^ 1023"] by simp
  from C10_usedPercent_safe_and_bounded [of "2 ^ 1023" "2 ^ 1023"] o
  have w: "usedPercent_of (2 ^ 1023) (2 ^ 1023) = Fin 0" by simp
  from C10_usedPercent_safe_and_bounded [of 0 0] have z: "usedPercent_of 0 0 = Fin 0" by simp
  have parse: "UsageResponseSchema_parse
          (JObj [(''success'', JBool True),
                 (''data'', JObj [(''request_count'', JNum 12), (''used_quota'', JNum 57),
                                  (''quota'', JNum 743)])])
        = Inr (True, \<lparr>ud_request_count = 12, ud_used_quota = 57, ud_quota = 743\<rparr>)"
    using c by blast
  have ok: "resp_ok response_usage" by (simp add: resp_ok_def response_usage_def)
  have js: "resp_json response_usage =
         Some (JObj [(''success'', JBool True),
                 (''data'', JObj [(''request_count'', JNum 12), (''used_quota'', JNum 57),
                                  (''quota'', JNum 743)])])"
    by (simp add: response_usage_def)
  from c have "\<forall>response json d.
          fst (authenticatedFetch env_usage ''https://open.cherryin.ai'' ''/api/v1/oauth/usage''
                 state_saved) = Inr response
          \<and> resp_ok response \<and> resp_json response = Some json
          \<and> UsageResponseSchema_parse json = Inr (True, d) \<longrightarrow>
          getUsage env_usage ''https://open.cherryin.ai'' state_saved =
            (Inr \<lparr>requestCount = ud_request_count d,
                  usedPercent = usedPercent_of (ud_quota d) (ud_used_quota d)\<rparr>,
             snd (authenticatedFetch env_usage ''https://open.cherryin.ai'' ''/api/v1/oauth/usage''
                    state_saved))"
    by blast
  with example_usage_fetch ok js parse
  have g: "fst (getUsage env_usage ''https://open.cherryin.ai'' state_saved) =
       Inr \<lparr>requestCount = 12, usedPercent = usedPercent_of 743 57\<rparr>"
    by simp
  have m2: "Math_round (Fin (3665038759253333 / 549755813888)) = Fin 6667"
    by (simp only: Math_round.simps example_two_thirds(4)) simp
  have s2: "js_add (Fin 1) (Fin 2) = Fin 3" using example_two_thirds(1) by simp
  from C10_usedPercent_safe_and_bounded [of 1 2] s2
  have "usedPercent_of 1 2 =
      js_div (Math_round (js_mul (js_div (Fin 2) (Fin 3)) (Fin 10000))) (Fin 100)" by simp
  also have "js_div (Fin 2) (Fin 3) = Fin (6004799503160661 / 9007199254740992)"
    by (simp add: example_two_thirds(2))
  also have "js_mul (Fin (6004799503160661 / 9007199254740992)) (Fin 10000)
       = Fin (3665038759253333 / 549755813888)"
    by (simp only: js_mul.simps example_two_thirds(3))
  also note m2
  also have "js_div (Fin 6667) (Fin 100) = Fin (4691484174324859 / 70368744177664)"
    using example_two_thirds(5) by simp
  finally have v2: "usedPercent_of 1 2 = Fin (4691484174324859 / 70368744177664)" .
  from s r p m v m2 v2 example_smallest_percent o w z g example_doubles show ?thesis by simp
qed

section \<open>PKCE parameters\<close>

lemma length_generateRandomString [simp]: "length (generateRandomString en d n) = n"
  by (simp add: generateRandomString_def getRandomValues_def)

lemma charset_unreserved: "list_all unreserved charset"
  by (simp add: charset_def unreserved_def)

lemma length_charset: "length charset = 66"
  by (simp add: charset_def)

lemma generateRandomString_unreserved: "list_all unreserved (generateRandomString en d n)"
proof -
  have "unreserved (charset ! (k mod length charset))" for k
  proof -
    have "k mod length charset < length charset" by (simp add: length_charset)
    then have "charset ! (k mod length charset) \<in> set charset" by (rule nth_mem)
    with charset_unreserved show ?thesis by (simp add: list_all_iff)
  qed
  then show ?thesis by (simp add: generateRandomString_def list_all_iff)
qed

lemma replace_twice:
  "replace_all (CHR ''/'') (CHR ''_'') (replace_all (CHR ''+'') (CHR ''-'') t) = map url_safe t"
  by (simp add: replace_all_def url_safe_def Let_def)

lemma url_safe_alphabet: "map url_safe b64_alphabet = b64url_alphabet"
  by (simp add: b64_alphabet_def b64url_alphabet_def url_safe_def)

lemma url_safe_b64_char: "i < 64 \<Longrightarrow> url_safe (b64_char i) = b64url_char i"
proof -
  assume i: "i < 64"
  have "length b64_alphabet = 64" by (simp add: b64_alphabet_def)
  with i have "map url_safe b64_alphabet ! i = url_safe (b64_alphabet ! i)" by simp
  then show ?thesis by (simp add: url_safe_alphabet b64_char_def b64url_char_def)
qed

lemma url_safe_eq [simp]: "url_safe (CHR ''='') = CHR ''=''"
  by (simp add: url_safe_def)

lemma b64url_char_not_eq: "i < 64 \<Longrightarrow> b64url_char i \<noteq> CHR ''=''"
proof -
  assume i: "i < 64"
  have l: "length b64url_alphabet = 64" by (simp add: b64url_alphabet_def)
  have "CHR ''='' \<notin> set b64url_alphabet" by (simp add: b64url_alphabet_def)
  moreover from i l have "b64url_alphabet ! i \<in> set b64url_alphabet" by simp
  ultimately show ?thesis by (auto simp: b64url_char_def)
qed

lemma b64url_alphabet_unreserved: "list_all unreserved b64url_alphabet"
  by (simp add: b64url_alphabet_def unreserved_def)

lemma b64url_char_unreserved: "i < 64 \<Longrightarrow> unreserved (b64url_char i)"
proof -
  assume i: "i < 64"
  have l: "length b64url_alphabet = 64" by (simp add: b64url_alphabet_def)
  from i l have "b64url_alphabet ! i \<in> set b64url_alphabet" by simp
  with b64url_alphabet_unreserved show ?thesis by (simp add: list_all_iff b64url_char_def)
qed

lemma byte_bound: "unat (a :: 8 word) < 256"
  using unsigned_less [of a, where ?'a = nat] by simp

lemma byte_mod [simp]: "unat (a :: 8 word) mod 256 = unat a"
  using byte_bound [of a] by simp

lemma sextet_bounds:
  fixes x y z :: nat
  assumes "x < 256" "y < 256" "z < 256"
  shows "x div 4 < 64" "x mod 4 * 16 < 64" "x mod 4 * 16 + y div 16 < 64"
    "y mod 16 * 4 < 64" "y mod 16 * 4 + z div 64 < 64" "z mod 64 < 64"
proof -
  have x4: "x mod 4 < 4" and y16: "y mod 16 < 16" by simp_all
  from assms(1) show xd: "x div 4 < 64" by (simp add: less_mult_imp_div_less)
  from assms(2) have yd: "y div 16 < 16" by (simp add: less_mult_imp_div_less)
  from assms(3) have zd: "z div 64 < 4" by (simp add: less_mult_imp_div_less)
  from x4 show "x mod 4 * 16 < 64" by linarith
  from x4 yd show "x mod 4 * 16 + y div 16 < 64" by linarith
  from y16 show "y mod 16 * 4 < 64" by linarith
  from y16 zd show "y mod 16 * 4 + z div 64 < 64" by linarith
  show "z mod 64 < 64" by simp
qed

lemma sextets:
  "unat (a :: 8 word) div 4 < 64"
  "unat (a :: 8 word) mod 4 * 16 < 64"
  "unat (a :: 8 word) mod 4 * 16 + unat (b :: 8 word) div 16 < 64"
  "unat (b :: 8 word) mod 16 * 4 < 64"
  "unat (b :: 8 word) mod 16 * 4 + unat (c :: 8 word) div 64 < 64"
  "unat (c :: 8 word) mod 64 < 64"
  using sextet_bounds [OF byte_bound [of a] byte_bound [of b] byte_bound [of c]] by blast+

lemma strip_trailing_eq_append:
  assumes "pre \<noteq> []" "last pre \<noteq> CHR ''=''"
  shows "strip_trailing_eq (pre @ t) = pre @ strip_trailing_eq t"
proof -
  from assms obtain ys y where p: "pre = ys @ [y]" "y \<noteq> CHR ''=''"
    by (metis append_butlast_last_id)
  show ?thesis
    by (simp add: strip_trailing_eq_def p dropWhile_append)
qed

lemma strip_trailing_eq_pad:
  "strip_trailing_eq [CHR ''=''] = []" "strip_trailing_eq [CHR ''='', CHR ''=''] = []"
  "strip_trailing_eq [] = []"
  by (simp_all add: strip_trailing_eq_def)

lemma base64UrlEncode_eq: "base64UrlEncode buffer = base64url_nopad buffer"
proof (induction buffer rule: base64url_nopad.induct)
  case 1
  show ?case by (simp add: base64UrlEncode_def replace_twice strip_trailing_eq_pad)
next
  case (2 a)
  have "base64UrlEncode [a] =
          strip_trailing_eq ([b64url_char (unat a div 4), b64url_char (unat a mod 4 * 16)]
                             @ [CHR ''='', CHR ''=''])"
    by (simp add: base64UrlEncode_def replace_twice url_safe_b64_char sextets)
  also have "\<dots> = [b64url_char (unat a div 4), b64url_char (unat a mod 4 * 16)]"
    by (subst strip_trailing_eq_append) (simp_all add: b64url_char_not_eq sextets strip_trailing_eq_pad)
  finally show ?case by simp
next
  case (3 a b)
  have "base64UrlEncode [a, b] =
          strip_trailing_eq ([b64url_char (unat a div 4),
                              b64url_char (unat a mod 4 * 16 + unat b div 16),
                              b64url_char (unat b mod 16 * 4)] @ [CHR ''=''])"
    by (simp add: base64UrlEncode_def replace_twice url_safe_b64_char sextets)
  also have "\<dots> = [b64url_char (unat a div 4), b64url_char (unat a mod 4 * 16 + unat b div 16),
                     b64url_char (unat b mod 16 * 4)]"
    by (subst strip_trailing_eq_append) (simp_all add: b64url_char_not_eq sextets strip_trailing_eq_pad)
  finally show ?case by simp
next
  case (4 a b c rest)
  have "base64UrlEncode (a # b # c # rest) =
          strip_trailing_eq ([b64url_char (unat a div 4),
                              b64url_char (unat a mod 4 * 16 + unat b div 16),
                              b64url_char (unat b mod 16 * 4 + unat c div 64),
                              b64url_char (unat c mod 64)]
                             @ map url_safe (btoa (binary_of rest)))"
    by (simp add: base64UrlEncode_def replace_twice url_safe_b64_char sextets)
  also have "\<dots> = [b64url_char (unat a div 4), b64url_char (unat a mod 4 * 16 + unat b div 16),
                     b64url_char (unat b mod 16 * 4 + unat c div 64), b64url_char (unat c mod 64)]
                    @ strip_trailing_eq (map url_safe (btoa (binary_of rest)))"
    by (subst strip_trailing_eq_append) (simp_all add: b64url_char_not_eq sextets)
  also have "strip_trailing_eq (map url_safe (btoa (binary_of rest))) = base64UrlEncode rest"
    by (simp add: base64UrlEncode_def replace_twice)
  finally show ?case using 4 by simp
qed

lemma base64url_nopad_unreserved: "list_all unreserved (base64url_nopad buffer)"
  by (induction buffer rule: base64url_nopad.induct) (simp_all add: b64url_char_unreserved sextets)

lemma length_base64url_nopad: "length (base64url_nopad buffer) = (4 * length buffer + 2) div 3"
  by (induction buffer rule: base64url_nopad.induct) simp_all


section \<open>Starting a flow\<close>

lemma cleanupExpiredFlows_filter:
  "cleanupExpiredFlows now flows = filter (\<lambda>(st, flow). \<not> now - timestamp flow > 10 * 60 * 1000) flows"
  by (induction flows) auto

lemma set_cleanupExpiredFlows:
  "set (cleanupExpiredFlows now flows) =
     {(st, flow) \<in> set flows. now - timestamp flow \<le> 600000}"
  by (auto simp: cleanupExpiredFlows_filter)

lemma distinct_cleanupExpiredFlows:
  "distinct (map fst flows) \<Longrightarrow> distinct (map fst (cleanupExpiredFlows now flows))"
  by (simp add: cleanupExpiredFlows_filter distinct_map_filter)

lemma map_of_build_authUrl:
  "map_of (au_searchParams (build_authUrl rc st challenge)) ''code_challenge'' = Some challenge"
  "map_of (au_searchParams (build_authUrl rc st challenge)) ''code_challenge_method'' = Some ''S256''"
  "map_of (au_searchParams (build_authUrl rc st challenge)) ''state'' = Some st"
  by (simp_all add: build_authUrl_def update_conv')

lemma start_pending:
  "pendingOAuthFlows (snd (oauthWithCherryIn_start e cfg now now' st)) =
     AList.update (inv_state (fst (oauthWithCherryIn_start e cfg now now' st)))
       \<lparr>codeVerifier = generateRandomString (entropy e) (drawn st) 64,
        config = resolve_config cfg, timestamp = now'\<rparr>
       (cleanupExpiredFlows now (pendingOAuthFlows st))"
  by (simp add: oauthWithCherryIn_start_def Let_def)

lemma start_invocation:
  "fst (oauthWithCherryIn_start e cfg now now' st) =
     \<lparr>inv_state = generateRandomString (entropy e) (drawn st + 64) 32, listening = True,
      timeoutId = True, promise = Pending\<rparr>"
  by (simp add: oauthWithCherryIn_start_def Let_def)

lemma start_opened:
  "opened (snd (oauthWithCherryIn_start e cfg now now' st)) =
     opened st @ [build_authUrl (resolve_config cfg)
                    (inv_state (fst (oauthWithCherryIn_start e cfg now now' st)))
                    (generateCodeChallenge (sha256 e) (generateRandomString (entropy e) (drawn st) 64))]"
  by (simp add: oauthWithCherryIn_start_def Let_def)

text \<open>
  Claim C2. In every call of \<open>oauthWithCherryIn\<close> the code verifier stored for the flow
  has 64 characters (within the 43 to 128 of RFC 7636), all of them unreserved; the
  \<open>code_challenge\<close> of the authorization URL is the unpadded base64url encoding (RFC 4648
  section 5) of the SHA-256 digest of that verifier, itself made of unreserved characters
  only; and \<open>code_challenge_method\<close> is S256.
\<close>

theorem C2_pkce_S256:
  fixes e :: renv and cfg :: NewApiOAuthConfig and now now' :: int and st :: rstate
  defines "verifier \<equiv> generateRandomString (entropy e) (drawn st) 64"
  defines "started \<equiv> oauthWithCherryIn_start e cfg now now' st"
  shows "length verifier = 64 \<and> 43 \<le> length verifier \<and> length verifier \<le> 128
     \<and> list_all unreserved verifier
     \<and> (\<exists>flow. map_of (pendingOAuthFlows (snd started)) (inv_state (fst started)) = Some flow
           \<and> codeVerifier flow = verifier)
     \<and> (\<exists>authUrl. opened (snd started) = opened st @ [authUrl]
           \<and> map_of (au_searchParams authUrl) ''code_challenge''
               = Some (base64url_nopad (sha256 e (TextEncoder_encode verifier)))
           \<and> map_of (au_searchParams authUrl) ''code_challenge_method'' = Some ''S256'')
     \<and> generateCodeChallenge (sha256 e) verifier
         = base64url_nopad (sha256 e (TextEncoder_encode verifier))
     \<and> list_all unreserved (generateCodeChallenge (sha256 e) verifier)"
proof -
  have c: "generateCodeChallenge (sha256 e) verifier
         = base64url_nopad (sha256 e (TextEncoder_encode verifier))"
    by (simp add: generateCodeChallenge_def base64UrlEncode_eq)
  have p: "\<exists>flow. map_of (pendingOAuthFlows (snd started)) (inv_state (fst started)) = Some flow
           \<and> codeVerifier flow = verifier"
    unfolding started_def verifier_def by (simp add: start_pending update_conv')
  have u: "\<exists>authUrl. opened (snd started) = opened st @ [authUrl]
           \<and> map_of (au_searchParams authUrl) ''code_challenge''
               = Some (base64url_nopad (sha256 e (TextEncoder_encode verifier)))
           \<and> map_of (au_searchParams authUrl) ''code_challenge_method'' = Some ''S256''"
    using c unfolding started_def verifier_def by (simp add: start_opened map_of_build_authUrl)
  have l: "length verifier = 64" by (simp add: verifier_def)
  from l c p u show ?thesis
    by (simp add: generateRandomString_unreserved verifier_def base64url_nopad_unreserved)
qed


section \<open>The callback handler\<close>

lemma wp_reject [simp]:
  "wp (reject err) w Q =
     Q (Inr ()) ((fst w)\<lparr>promise := settle (promise (fst w)) (Rejected err)\<rparr>, snd w)"
  by (cases w) (simp add: wp_def reject_def)

lemma wp_resolve [simp]:
  "wp (resolve v) w Q =
     Q (Inr ()) ((fst w)\<lparr>promise := settle (promise (fst w)) (Resolved v)\<rparr>, snd w)"
  by (cases w) (simp add: wp_def resolve_def)

lemma wp_cleanup [simp]:
  "wp cleanup w Q =
     Q (Inr ()) ((fst w)\<lparr>listening := False, timeoutId := False\<rparr>,
                 (snd w)\<lparr>pendingOAuthFlows :=
                            AList.delete (inv_state (fst w)) (pendingOAuthFlows (snd w))\<rparr>)"
  by (cases w) (simp add: wp_def cleanup_def)

lemma wp_fetch_io [simp]:
  "wp (fetch_io e rq) w Q =
     Q (case fetch e (fetched (snd w)) rq of None \<Rightarrow> Inl FetchFailed | Some r \<Rightarrow> Inr r)
       (fst w, (snd w)\<lparr>fetched := fetched (snd w) @ [rq]\<rparr>)"
  by (cases w) (simp add: wp_def fetch_io_def)

lemma wp_ipc_saveToken [simp]:
  "wp (ipc_saveToken a r) w Q =
     Q (Inr ()) (fst w, (snd w)\<lparr>ipc_saveToken_calls := ipc_saveToken_calls (snd w) @ [(a, r)]\<rparr>)"
  by (cases w) (simp add: wp_def ipc_saveToken_def)

lemma wp_setKey [simp]:
  "wp (setKey k) w Q = Q (Inr ()) (fst w, (snd w)\<lparr>setKey_calls := setKey_calls (snd w) @ [k]\<rparr>)"
  by (cases w) (simp add: wp_def setKey_def)

lemma wp_state_checks:
  "wp (state_checks e code returnedState) w Q =
     (case returnedState of
        None \<Rightarrow> Q (Inr ()) w
      | Some rs \<Rightarrow>
          if rs = [] \<or> map_of (pendingOAuthFlows (snd w)) rs = None then Q (Inr ()) w
          else if rs \<noteq> inv_state (fst w) then Q (Inr ()) w
          else
            (case map_of (pendingOAuthFlows (snd w)) rs of
               None \<Rightarrow> wp (io_bind (reject (Error ''OAuth flow expired or not found'')) (\<lambda>_. cleanup)) w Q
             | Some flowData \<Rightarrow>
                 wp (exchange e code flowData)
                    (fst w, (snd w)\<lparr>pendingOAuthFlows := AList.delete rs (pendingOAuthFlows (snd w))\<rparr>) Q))"
  by (cases w) (auto simp: state_checks_def wp_def split: option.split)

lemma wp_case_list [simp]:
  "wp (case xs of [] \<Rightarrow> m | y # ys \<Rightarrow> n y ys) s Q =
     (case xs of [] \<Rightarrow> wp m s Q | y # ys \<Rightarrow> wp (n y ys) s Q)"
  by (simp split: list.split)

lemma wp_Let [simp]: "wp (Let x f) s Q = wp (f x) s Q"
  by simp

lemma set_delete_subset: "set (AList.delete k al) \<subseteq> set al"
  by (induction al) auto

lemma map_of_delete_same [simp]: "map_of (AList.delete k al) k = None"
  by (simp add: delete_conv)

lemma map_of_delete_twice [simp]: "map_of (AList.delete k (AList.delete k' al)) k = None"
  by (simp add: delete_conv)

lemma set_delete_twice_subset: "set (AList.delete k (AList.delete k' al)) \<subseteq> set al"
  using set_delete_subset [of k "AList.delete k' al"] set_delete_subset [of k' al] by blast

lemma exchange_handled:
  "wp (io_catch (exchange e code flowData) (\<lambda>err. io_bind (reject err) (\<lambda>_. cleanup)))
      (iv, st\<lparr>pendingOAuthFlows := AList.delete (inv_state iv) (pendingOAuthFlows st)\<rparr>)
      (handled iv st)"
  by (simp add: exchange_def handled_def set_delete_twice_subset
        split: sum.split option.split)


lemma handled_unchanged: "handled iv st (Inr ()) (iv, st)"
  by (simp add: handled_def)

lemma handled_rejected:
  "wp (io_bind (reject err) (\<lambda>_. cleanup)) (iv, st) (handled iv st)"
  by (simp add: handled_def set_delete_subset)

lemma exchange_caught:
  "wp (exchange e code flowData)
      (iv, st\<lparr>pendingOAuthFlows := AList.delete (inv_state iv) (pendingOAuthFlows st)\<rparr>)
      (\<lambda>r s'. case r of
                 Inl err \<Rightarrow> wp (io_bind (reject err) (\<lambda>_. cleanup)) s' (handled iv st)
               | Inr x \<Rightarrow> handled iv st (Inr x) s')"
  using exchange_handled [of e code flowData iv st] by (simp only: wp_catch)

lemma state_checks_caught:
  "wp (state_checks e code returnedState) (iv, st)
      (\<lambda>r s'. case r of
                 Inl err \<Rightarrow> wp (io_bind (reject err) (\<lambda>_. cleanup)) s' (handled iv st)
               | Inr x \<Rightarrow> handled iv st (Inr x) s')"
proof (cases returnedState)
  case None
  then show ?thesis by (simp add: wp_state_checks handled_unchanged)
next
  case (Some rs)
  show ?thesis
  proof (cases "rs = [] \<or> map_of (pendingOAuthFlows st) rs = None \<or> rs \<noteq> inv_state iv")
    case True
    with Some show ?thesis by (auto simp: wp_state_checks handled_unchanged)
  next
    case False
    then obtain flowData where f: "map_of (pendingOAuthFlows st) rs = Some flowData" by auto
    from False have rs: "rs = inv_state iv" "rs \<noteq> []" by auto
    have "wp (state_checks e code returnedState) (iv, st) Q =
          wp (exchange e code flowData)
             (iv, st\<lparr>pendingOAuthFlows := AList.delete (inv_state iv) (pendingOAuthFlows st)\<rparr>) Q" for Q
      using Some f rs by (simp add: wp_state_checks)
    then show ?thesis using exchange_caught [of e code flowData iv st] by simp
  qed
qed

lemma onReceiveData_handled: "wp (onReceiveData e data) (iv, st) (handled iv st)"
proof (cases data)
  case None
  then show ?thesis
    using handled_rejected [of TypeError iv st] by (simp add: onReceiveData_def)
next
  case (Some url)
  show ?thesis
  proof (cases "hostname url \<noteq> ''oauth'' \<or> pathname url \<noteq> ''/callback''")
    case True
    with Some show ?thesis by (auto simp: onReceiveData_def handled_unchanged)
  next
    case route: False
    show ?thesis
    proof (cases "map_of (searchParams url) ''error''")
      case None
      show ?thesis
      proof (cases "map_of (searchParams url) ''code''")
        case nocode: None
        with Some route None show ?thesis
          using handled_rejected [of "Error ''No authorization code received''" iv st]
          by (simp add: onReceiveData_def)
      next
        case code: (Some c)
        show ?thesis
        proof (cases c)
          case Nil
          with Some route None code show ?thesis
            using handled_rejected [of "Error ''No authorization code received''" iv st]
            by (simp add: onReceiveData_def)
        next
          case (Cons x xs)
          with Some route None code show ?thesis
            using state_checks_caught [of e "x # xs" "map_of (searchParams url) ''state''" iv st]
            by (simp add: onReceiveData_def)
        qed
      qed
    next
      case err: (Some er)
      show ?thesis
      proof (cases er)
        case Nil
        show ?thesis
        proof (cases "map_of (searchParams url) ''code''")
          case nocode: None
          with Some route err Nil show ?thesis
            using handled_rejected [of "Error ''No authorization code received''" iv st]
            by (simp add: onReceiveData_def)
        next
          case code: (Some c)
          show ?thesis
          proof (cases c)
            case cnil: Nil
            with Some route err Nil code show ?thesis
              using handled_rejected [of "Error ''No authorization code received''" iv st]
              by (simp add: onReceiveData_def)
          next
            case (Cons x xs)
            with Some route err Nil code show ?thesis
              using state_checks_caught [of e "x # xs" "map_of (searchParams url) ''state''" iv st]
              by (simp add: onReceiveData_def)
          qed
        qed
      next
        case (Cons x xs)
        with Some route err show ?thesis
          using handled_rejected [of _ iv st]
          by (simp add: onReceiveData_def Let_def)
      qed
    qed
  qed
qed

lemma deliver_handled:
  "inv_state (fst (deliver e data (iv, st))) = inv_state iv
   \<and> set (pendingOAuthFlows (snd (deliver e data (iv, st)))) \<subseteq> set (pendingOAuthFlows st)
   \<and> (promise (fst (deliver e data (iv, st))) \<noteq> promise iv \<longrightarrow>
         map_of (pendingOAuthFlows (snd (deliver e data (iv, st)))) (inv_state iv) = None
         \<and> \<not> listening (fst (deliver e data (iv, st)))
         \<and> \<not> timeoutId (fst (deliver e data (iv, st))))"
  using onReceiveData_handled [of e data iv st]
  by (auto simp: deliver_def wp_def handled_def)

lemma timeout_fires_removes:
  assumes "timeoutId iv"
  shows "map_of (pendingOAuthFlows (snd (timeout_fires (iv, st)))) (inv_state iv) = None
       \<and> set (pendingOAuthFlows (snd (timeout_fires (iv, st)))) \<subseteq> set (pendingOAuthFlows st)
       \<and> \<not> listening (fst (timeout_fires (iv, st)))
       \<and> (promise iv = Pending \<longrightarrow>
            promise (fst (timeout_fires (iv, st))) = Rejected (Error ''OAuth flow timed out''))"
proof -
  have "wp (io_bind cleanup (\<lambda>_. reject (Error ''OAuth flow timed out''))) (iv, st)
          (\<lambda>r w'. map_of (pendingOAuthFlows (snd w')) (inv_state iv) = None
             \<and> set (pendingOAuthFlows (snd w')) \<subseteq> set (pendingOAuthFlows st)
             \<and> \<not> listening (fst w')
             \<and> (promise iv = Pending \<longrightarrow> promise (fst w') = Rejected (Error ''OAuth flow timed out'')))"
    by (simp add: set_delete_subset)
  then show ?thesis using assms by (simp add: timeout_fires_def wp_def)
qed

lemma settle_not_Pending [simp]: "p \<noteq> Pending \<Longrightarrow> settle q p \<noteq> Pending"
  by (cases q) simp_all

lemma settle_settled [simp]: "q \<noteq> Pending \<Longrightarrow> settle q p = q"
  by (cases q) simp_all

lemma settle_twice [simp]: "p \<noteq> Pending \<Longrightarrow> settle (settle q p) p' = settle q p"
  by (cases q; cases p) simp_all

lemma rejected_settled:
  "inv_state iv' = inv_state iv \<Longrightarrow> (promise iv \<noteq> Pending \<longrightarrow> promise iv' = promise iv) \<Longrightarrow>
   wp (io_bind (reject err) (\<lambda>_. cleanup)) (iv', st') (settled iv)"
  by (auto simp: settled_def)

lemma exchange_settled:
  "wp (io_catch (exchange e code flowData) (\<lambda>err. io_bind (reject err) (\<lambda>_. cleanup)))
      (iv, st') (settled iv)"
  by (simp add: exchange_def settled_def split: sum.split option.split)

lemma own_callback_settled:
  assumes route: "hostname url = ''oauth''" "pathname url = ''/callback''"
      and own: "map_of (searchParams url) ''state'' = Some (inv_state iv)"
      and present: "map_of (pendingOAuthFlows st) (inv_state iv) = Some flowData"
      and nonempty: "inv_state iv \<noteq> []"
  shows "wp (onReceiveData e (Some url)) (iv, st) (settled iv)"
proof -
  have rej: "wp (io_bind (reject err) (\<lambda>_. cleanup)) (iv, st) (settled iv)" for err
    by (rule rejected_settled) simp_all
  have ex: "wp (io_catch (state_checks e code (Some (inv_state iv)))
                  (\<lambda>err. io_bind (reject err) (\<lambda>_. cleanup))) (iv, st) (settled iv)" for code
  proof -
    have "wp (state_checks e code (Some (inv_state iv))) (iv, st) Q =
          wp (exchange e code flowData)
             (iv, st\<lparr>pendingOAuthFlows := AList.delete (inv_state iv) (pendingOAuthFlows st)\<rparr>) Q" for Q
      using present nonempty by (simp add: wp_state_checks)
    then show ?thesis
      using exchange_settled [of e code flowData iv
          "st\<lparr>pendingOAuthFlows := AList.delete (inv_state iv) (pendingOAuthFlows st)\<rparr>"]
      by (simp only: wp_catch)
  qed
  show ?thesis
  proof (cases "map_of (searchParams url) ''error''")
    case None
    show ?thesis
    proof (cases "map_of (searchParams url) ''code''")
      case nocode: None
      with route None show ?thesis
        using rej [of "Error ''No authorization code received''"]
        by (simp add: onReceiveData_def)
    next
      case code: (Some c)
      show ?thesis
      proof (cases c)
        case Nil
        with route None code show ?thesis
          using rej [of "Error ''No authorization code received''"]
          by (simp add: onReceiveData_def)
      next
        case (Cons x xs)
        with route None code own show ?thesis
          using ex [of "x # xs"]
          by (simp add: onReceiveData_def)
      qed
    qed
  next
    case err: (Some er)
    show ?thesis
    proof (cases er)
      case Nil
      show ?thesis
      proof (cases "map_of (searchParams url) ''code''")
        case nocode: None
        with route err Nil show ?thesis
          using rej [of "Error ''No authorization code received''"]
          by (simp add: onReceiveData_def)
      next
        case code: (Some c)
        show ?thesis
        proof (cases c)
          case cnil: Nil
          with route err Nil code show ?thesis
            using rej [of "Error ''No authorization code received''"]
            by (simp add: onReceiveData_def)
        next
          case (Cons x xs)
          with route err Nil code own show ?thesis
            using ex [of "x # xs"]
            by (simp add: onReceiveData_def)
        qed
      qed
    next
      case (Cons x xs)
      with route err show ?thesis
        using rej
        by (simp add: onReceiveData_def Let_def)
    qed
  qed
qed

lemma own_callback_deliver:
  assumes "listening iv" "hostname url = ''oauth''" "pathname url = ''/callback''"
      and "map_of (searchParams url) ''state'' = Some (inv_state iv)"
      and "map_of (pendingOAuthFlows st) (inv_state iv) = Some flowData"
      and "inv_state iv \<noteq> []"
  shows "map_of (pendingOAuthFlows (snd (deliver e (Some url) (iv, st)))) (inv_state iv) = None
       \<and> \<not> listening (fst (deliver e (Some url) (iv, st)))
       \<and> \<not> timeoutId (fst (deliver e (Some url) (iv, st)))
       \<and> promise (fst (deliver e (Some url) (iv, st))) \<noteq> Pending
       \<and> (promise iv \<noteq> Pending \<longrightarrow> promise (fst (deliver e (Some url) (iv, st))) = promise iv)"
  using own_callback_settled [OF assms(2-6), of e] assms(1)
  by (simp add: deliver_def wp_def settled_def)

lemma bad_url_deliver:
  assumes "listening iv"
  shows "deliver e None (iv, st) =
           (iv\<lparr>listening := False, timeoutId := False,
               promise := settle (promise iv) (Rejected TypeError)\<rparr>,
            st\<lparr>pendingOAuthFlows := AList.delete (inv_state iv) (pendingOAuthFlows st)\<rparr>)"
  using assms
  by (simp add: deliver_def onReceiveData_def io_catch_def io_bind_def io_throw_def reject_def cleanup_def)

lemma map_of_None_subset:
  assumes "set al' \<subseteq> set al" "map_of al k = None"
  shows "map_of al' k = None"
proof -
  from assms(2) have "k \<notin> fst ` set al" by (simp add: map_of_eq_None_iff)
  with assms(1) have "k \<notin> fst ` set al'" by blast
  then show ?thesis by (simp add: map_of_eq_None_iff)
qed

lemma own_callback_entry_gone:
  assumes "listening iv" "hostname url = ''oauth''" "pathname url = ''/callback''"
      and "map_of (searchParams url) ''state'' = Some (inv_state iv)"
      and "inv_state iv \<noteq> []"
  shows "map_of (pendingOAuthFlows (snd (deliver e (Some url) (iv, st)))) (inv_state iv) = None"
proof (cases "map_of (pendingOAuthFlows st) (inv_state iv)")
  case None
  have "set (pendingOAuthFlows (snd (deliver e (Some url) (iv, st)))) \<subseteq> set (pendingOAuthFlows st)"
    using deliver_handled [of e "Some url" iv st] by blast
  then show ?thesis using None by (rule map_of_None_subset)
next
  case (Some flowData)
  with own_callback_deliver [OF assms(1-4) _ assms(5), of st flowData e] show ?thesis by blast
qed

lemma start_entry:
  "map_of (pendingOAuthFlows (snd (oauthWithCherryIn_start e cfg now now' st)))
     (inv_state (fst (oauthWithCherryIn_start e cfg now now' st))) =
   Some \<lparr>codeVerifier = generateRandomString (entropy e) (drawn st) 64,
         config = resolve_config cfg, timestamp = now'\<rparr>"
  by (simp add: start_pending update_conv')

lemma start_state_nonempty: "inv_state (fst (oauthWithCherryIn_start e cfg now now' st)) \<noteq> []"
proof -
  have "length (inv_state (fst (oauthWithCherryIn_start e cfg now now' st))) = 32"
    by (simp add: start_invocation)
  then show ?thesis by auto
qed

text \<open>
  Claim C3. Every pending entry carries its timestamp and is stored under the flow's
  state parameter, which is not empty; each call of \<open>oauthWithCherryIn\<close> first drops the
  entries older than ten minutes and keeps the others. While the listener is registered,
  the flow's own callback (the \<^verbatim>\<open>oauth/callback\<close> URL carrying the flow's state, the entry
  still pending) always ends with the entry removed, the listener removed, the timer
  cleared and the promise settled, whether the exchange succeeds, is refused or throws
  (if the entry was dropped before, the callback finds none and none is there after); a
  message whose URL cannot be parsed rejects the promise and removes the entry; and
  whenever any message changes the promise, the entry, the listener and the timer are
  gone. When the timer fires the entry is gone and a pending promise is rejected. Neither
  the listener nor the timer ever adds an entry, so an entry that is gone stays gone.
\<close>

theorem C3_pending_flows_cleaned_up:
  "set (cleanupExpiredFlows now flows) = {(k, flow) \<in> set flows. now - timestamp flow \<le> 600000}
   \<and> pendingOAuthFlows (snd (oauthWithCherryIn_start e cfg now now' st)) =
       AList.update (inv_state (fst (oauthWithCherryIn_start e cfg now now' st)))
         \<lparr>codeVerifier = generateRandomString (entropy e) (drawn st) 64,
          config = resolve_config cfg, timestamp = now'\<rparr>
         (cleanupExpiredFlows now (pendingOAuthFlows st))
   \<and> map_of (pendingOAuthFlows (snd (oauthWithCherryIn_start e cfg now now' st)))
         (inv_state (fst (oauthWithCherryIn_start e cfg now now' st))) =
       Some \<lparr>codeVerifier = generateRandomString (entropy e) (drawn st) 64,
             config = resolve_config cfg, timestamp = now'\<rparr>
   \<and> fst (oauthWithCherryIn_start e cfg now now' st) =
       \<lparr>inv_state = generateRandomString (entropy e) (drawn st + 64) 32, listening = True,
        timeoutId = True, promise = Pending\<rparr>
   \<and> inv_state (fst (oauthWithCherryIn_start e cfg now now' st)) \<noteq> []
   \<and> inv_state (fst (deliver e data (iv, st))) = inv_state iv
   \<and> (promise (fst (deliver e data (iv, st))) \<noteq> promise iv \<longrightarrow>
         map_of (pendingOAuthFlows (snd (deliver e data (iv, st)))) (inv_state iv) = None
         \<and> \<not> listening (fst (deliver e data (iv, st)))
         \<and> \<not> timeoutId (fst (deliver e data (iv, st))))
   \<and> (listening iv \<and> hostname url = ''oauth'' \<and> pathname url = ''/callback''
        \<and> map_of (searchParams url) ''state'' = Some (inv_state iv)
        \<and> inv_state iv \<noteq> [] \<and> map_of (pendingOAuthFlows st) (inv_state iv) \<noteq> None \<longrightarrow>
         map_of (pendingOAuthFlows (snd (deliver e (Some url) (iv, st)))) (inv_state iv) = None
         \<and> \<not> listening (fst (deliver e (Some url) (iv, st)))
         \<and> \<not> timeoutId (fst (deliver e (Some url) (iv, st)))
         \<and> promise (fst (deliver e (Some url) (iv, st))) \<noteq> Pending
         \<and> (promise iv \<noteq> Pending \<longrightarrow> promise (fst (deliver e (Some url) (iv, st))) = promise iv))
   \<and> (listening iv \<and> hostname url = ''oauth'' \<and> pathname url = ''/callback''
        \<and> map_of (searchParams url) ''state'' = Some (inv_state iv) \<and> inv_state iv \<noteq> [] \<longrightarrow>
         map_of (pendingOAuthFlows (snd (deliver e (Some url) (iv, st)))) (inv_state iv) = None)
   \<and> (listening iv \<longrightarrow>
         deliver e None (iv, st) =
           (iv\<lparr>listening := False, timeoutId := False,
               promise := settle (promise iv) (Rejected TypeError)\<rparr>,
            st\<lparr>pendingOAuthFlows := AList.delete (inv_state iv) (pendingOAuthFlows st)\<rparr>)
         \<and> map_of (pendingOAuthFlows (snd (deliver e None (iv, st)))) (inv_state iv) = None)
   \<and> (timeoutId iv \<longrightarrow>
         map_of (pendingOAuthFlows (snd (timeout_fires (iv, st)))) (inv_state iv) = None
         \<and> (promise iv = Pending \<longrightarrow>
              promise (fst (timeout_fires (iv, st))) = Rejected (Error ''OAuth flow timed out'')))
   \<and> set (pendingOAuthFlows (snd (deliver e data (iv, st)))) \<subseteq> set (pendingOAuthFlows st)
   \<and> set (pendingOAuthFlows (snd (timeout_fires (iv, st)))) \<subseteq> set (pendingOAuthFlows st)"
proof -
  have t: "set (pendingOAuthFlows (snd (timeout_fires (iv, st)))) \<subseteq> set (pendingOAuthFlows st)"
    using timeout_fires_removes [of iv st] by (cases "timeoutId iv") (simp_all add: timeout_fires_def)
  have own: "listening iv \<and> hostname url = ''oauth'' \<and> pathname url = ''/callback''
        \<and> map_of (searchParams url) ''state'' = Some (inv_state iv)
        \<and> inv_state iv \<noteq> [] \<and> map_of (pendingOAuthFlows st) (inv_state iv) \<noteq> None \<longrightarrow>
         map_of (pendingOAuthFlows (snd (deliver e (Some url) (iv, st)))) (inv_state iv) = None
         \<and> \<not> listening (fst (deliver e (Some url) (iv, st)))
         \<and> \<not> timeoutId (fst (deliver e (Some url) (iv, st)))
         \<and> promise (fst (deliver e (Some url) (iv, st))) \<noteq> Pending
         \<and> (promise iv \<noteq> Pending \<longrightarrow> promise (fst (deliver e (Some url) (iv, st))) = promise iv)"
    using own_callback_deliver [of iv url st _ e] by blast
  have gone: "listening iv \<and> hostname url = ''oauth'' \<and> pathname url = ''/callback''
        \<and> map_of (searchParams url) ''state'' = Some (inv_state iv) \<and> inv_state iv \<noteq> [] \<longrightarrow>
         map_of (pendingOAuthFlows (snd (deliver e (Some url) (iv, st)))) (inv_state iv) = None"
    using own_callback_entry_gone [of iv url e st] by blast
  have bad: "listening iv \<longrightarrow>
         deliver e None (iv, st) =
           (iv\<lparr>listening := False, timeoutId := False,
               promise := settle (promise iv) (Rejected TypeError)\<rparr>,
            st\<lparr>pendingOAuthFlows := AList.delete (inv_state iv) (pendingOAuthFlows st)\<rparr>)
         \<and> map_of (pendingOAuthFlows (snd (deliver e None (iv, st)))) (inv_state iv) = None"
    using bad_url_deliver [of iv e st] by simp
  note rest = t set_cleanupExpiredFlows [of now flows] start_pending [of e cfg now now' st]
    start_entry [of e cfg now now' st] start_invocation [of e cfg now now' st]
    start_state_nonempty [of e cfg now now' st]
    deliver_handled [of e data iv st] timeout_fires_removes [of iv st]
  show ?thesis
    apply (intro conjI)
    using own gone bad rest by blast+
qed


lemmas flow_example_defs =
  renv_example_def example_config_def flow_mine_def flow_other_def rstate_two_def inv_mine_def
  callback_error_other_def

lemma example_own_code:
  "deliver renv_server (Some callback_own_code) (inv_mine, rstate_two) =
     (inv_mine\<lparr>listening := False, timeoutId := False, promise := Resolved ''sk-1,sk-2''\<rparr>,
      rstate_two\<lparr>pendingOAuthFlows := [(''other'', flow_other)],
                 fetched := [token_request example_config ''abc'' ''verifier-of-mine'',
                             apiKeys_request renv_server example_config (JStr ''tok'')],
                 ipc_saveToken_calls := [(JStr ''tok'', JStr ''ref'')],
                 setKey_calls := [''sk-1,sk-2'']\<rparr>)"
  by (simp add: deliver_def onReceiveData_def state_checks_def exchange_def
        io_catch_def io_bind_def io_throw_def io_return_def io_lift_def reject_def resolve_def cleanup_def
        fetch_io_def ipc_saveToken_def setKey_def response_json_def resp_ok_def
        apiKeys_of_def keys_of_items_def
        renv_server_def response_keys_def response_token_def callback_own_code_def
        token_request_def apiKeys_request_def
        renv_example_def example_config_def resolve_config_def flow_mine_def flow_other_def
        rstate_two_def inv_mine_def)

theorem C3_pending_flows_cleaned_up_witness:
  "timeoutId inv_mine \<and> listening inv_mine
   \<and> hostname callback_own_code = ''oauth'' \<and> pathname callback_own_code = ''/callback''
   \<and> map_of (searchParams callback_own_code) ''state'' = Some (inv_state inv_mine)
   \<and> inv_state inv_mine = ''mine''
   \<and> map_of (pendingOAuthFlows rstate_two) ''mine'' = Some flow_mine
   \<and> deliver renv_server (Some callback_own_code) (inv_mine, rstate_two) =
       (inv_mine\<lparr>listening := False, timeoutId := False, promise := Resolved ''sk-1,sk-2''\<rparr>,
        rstate_two\<lparr>pendingOAuthFlows := [(''other'', flow_other)],
                   fetched := [token_request example_config ''abc'' ''verifier-of-mine'',
                               apiKeys_request renv_server example_config (JStr ''tok'')],
                   ipc_saveToken_calls := [(JStr ''tok'', JStr ''ref'')],
                   setKey_calls := [''sk-1,sk-2'']\<rparr>)
   \<and> map_of (pendingOAuthFlows (snd (deliver renv_server (Some callback_own_code)
                                        (inv_mine, rstate_two)))) ''mine'' = None
   \<and> \<not> listening (fst (deliver renv_server (Some callback_own_code) (inv_mine, rstate_two)))
   \<and> \<not> timeoutId (fst (deliver renv_server (Some callback_own_code) (inv_mine, rstate_two)))
   \<and> promise (fst (deliver renv_server (Some callback_own_code) (inv_mine, rstate_two))) \<noteq> Pending
   \<and> map_of (pendingOAuthFlows (snd (deliver renv_server None (inv_mine, rstate_two)))) ''mine'' = None
   \<and> promise (fst (deliver renv_server None (inv_mine, rstate_two))) = Rejected TypeError
   \<and> map_of (pendingOAuthFlows (snd (timeout_fires (inv_mine, rstate_two)))) ''mine'' = None
   \<and> promise (fst (timeout_fires (inv_mine, rstate_two))) = Rejected (Error ''OAuth flow timed out'')
   \<and> promise (fst (deliver renv_server callback_error_other (inv_mine, rstate_two))) \<noteq> Pending
   \<and> map_of (pendingOAuthFlows (snd (deliver renv_server callback_error_other (inv_mine, rstate_two))))
        ''mine'' = None
   \<and> set (cleanupExpiredFlows 700000 (pendingOAuthFlows rstate_two)) = {(''other'', flow_other)}"
proof -
  have d: "promise (fst (deliver renv_server callback_error_other (inv_mine, rstate_two))) \<noteq> Pending"
    by (simp add: deliver_def onReceiveData_def io_catch_def io_bind_def reject_def cleanup_def
          flow_example_defs)
  have c: "{(k, flow) \<in> set (pendingOAuthFlows rstate_two). 700000 - timestamp flow \<le> 600000}
           = {(''other'', flow_other)}"
    by (auto simp: rstate_two_def flow_mine_def flow_other_def)
  have h: "timeoutId inv_mine" "listening inv_mine" "inv_state inv_mine = ''mine''"
      "promise inv_mine = Pending"
      "hostname callback_own_code = ''oauth''" "pathname callback_own_code = ''/callback''"
      "map_of (searchParams callback_own_code) ''state'' = Some (inv_state inv_mine)"
      "map_of (pendingOAuthFlows rstate_two) ''mine'' = Some flow_mine"
    by (simp_all add: inv_mine_def callback_own_code_def rstate_two_def)
  note c3 = C3_pending_flows_cleaned_up [of 700000 "pendingOAuthFlows rstate_two" renv_server _ _
      rstate_two callback_error_other inv_mine callback_own_code]
  from c3 h have own:
     "map_of (pendingOAuthFlows (snd (deliver renv_server (Some callback_own_code)
                                        (inv_mine, rstate_two)))) ''mine'' = None
      \<and> \<not> listening (fst (deliver renv_server (Some callback_own_code) (inv_mine, rstate_two)))
      \<and> \<not> timeoutId (fst (deliver renv_server (Some callback_own_code) (inv_mine, rstate_two)))
      \<and> promise (fst (deliver renv_server (Some callback_own_code) (inv_mine, rstate_two))) \<noteq> Pending"
    by simp
  from c3 h have bad:
     "map_of (pendingOAuthFlows (snd (deliver renv_server None (inv_mine, rstate_two)))) ''mine'' = None
      \<and> promise (fst (deliver renv_server None (inv_mine, rstate_two))) = Rejected TypeError"
    by simp
  from c3 h d have rest:
     "map_of (pendingOAuthFlows (snd (timeout_fires (inv_mine, rstate_two)))) ''mine'' = None
      \<and> promise (fst (timeout_fires (inv_mine, rstate_two))) = Rejected (Error ''OAuth flow timed out'')
      \<and> map_of (pendingOAuthFlows (snd (deliver renv_server callback_error_other (inv_mine, rstate_two))))
        ''mine'' = None
      \<and> set (cleanupExpiredFlows 700000 (pendingOAuthFlows rstate_two)) = {(''other'', flow_other)}"
    using c by simp
  from own bad rest d h example_own_code show ?thesis by simp
qed

section \<open>Callbacks of other flows\<close>

text \<open>
  What holds of a callback whose state parameter is missing, unknown or another flow's:
  no request is sent for it; and if it carries a code and no error, the handler returns
  with nothing changed.
\<close>

lemma foreign_state_no_exchange:
  assumes "case map_of (searchParams url) ''state'' of
             None \<Rightarrow> True
           | Some rs \<Rightarrow> rs = [] \<or> map_of (pendingOAuthFlows st) rs = None \<or> rs \<noteq> inv_state iv"
  shows "fetched (snd (snd (onReceiveData e (Some url) (iv, st)))) = fetched st"
proof -
  have "wp (onReceiveData e (Some url)) (iv, st) (\<lambda>r w'. fetched (snd w') = fetched st)"
    using assms
    by (auto simp: onReceiveData_def wp_state_checks Let_def split: option.split list.split)
  then show ?thesis by (simp add: wp_def)
qed

lemma state_checks_foreign:
  assumes "case returnedState of
             None \<Rightarrow> True
           | Some rs \<Rightarrow> rs = [] \<or> map_of (pendingOAuthFlows st) rs = None \<or> rs \<noteq> inv_state iv"
  shows "wp (state_checks e code returnedState) (iv, st) Q = Q (Inr ()) (iv, st)"
  using assms by (cases returnedState) (auto simp: wp_state_checks)

lemma foreign_code_callback_ignored:
  assumes route: "hostname url = ''oauth''" "pathname url = ''/callback''"
      and err: "falsy_string (map_of (searchParams url) ''error'')"
      and code: "\<not> falsy_string (map_of (searchParams url) ''code'')"
      and foreign: "case map_of (searchParams url) ''state'' of
             None \<Rightarrow> True
           | Some rs \<Rightarrow> rs = [] \<or> map_of (pendingOAuthFlows st) rs = None \<or> rs \<noteq> inv_state iv"
  shows "onReceiveData e (Some url) (iv, st) = (Inr (), (iv, st))"
proof -
  from code obtain c cs where c: "map_of (searchParams url) ''code'' = Some (c # cs)"
    by (cases "map_of (searchParams url) ''code''") (auto simp: neq_Nil_conv)
  from err have e: "map_of (searchParams url) ''error'' = None
                    \<or> map_of (searchParams url) ''error'' = Some []"
    by (cases "map_of (searchParams url) ''error''") auto
  have "wp (onReceiveData e (Some url)) (iv, st) (\<lambda>r w'. (r, w') = (Inr (), (iv, st)))"
    using e
  proof
    assume "map_of (searchParams url) ''error'' = None"
    with route c show ?thesis
      by (simp add: onReceiveData_def state_checks_foreign [OF foreign])
  next
    assume "map_of (searchParams url) ''error'' = Some []"
    with route c show ?thesis
      by (simp add: onReceiveData_def state_checks_foreign [OF foreign])
  qed
  then show ?thesis by (rule wp_eqD)
qed

text \<open>
  Claim C4, at the input where the code departs from it: the callback
  \<^verbatim>\<open>cherrystudio://oauth/callback?error=access_denied&state=other\<close> belongs to the flow
  \<^verbatim>\<open>other\<close>, yet the listener of the flow \<^verbatim>\<open>mine\<close> rejects its own promise, removes
  itself, clears its timer and deletes its own pending entry. The \<^verbatim>\<open>error\<close> and \<^verbatim>\<open>code\<close>
  checks come before the state checks.
\<close>

theorem C4_error_callback_of_other_flow:
  "map_of [(''error'', ''access_denied''), (''state'', ''other'')] ''state'' = Some ''other''
   \<and> ''other'' \<noteq> inv_state inv_mine
   \<and> deliver e callback_error_other (inv_mine, rstate_two) =
       (inv_mine\<lparr>listening := False, timeoutId := False,
                 promise := Rejected (Error ''OAuth error: access_denied'')\<rparr>,
        rstate_two\<lparr>pendingOAuthFlows := [(''other'', flow_other)]\<rparr>)"
  by (simp add: deliver_def onReceiveData_def io_catch_def io_bind_def reject_def cleanup_def
        flow_example_defs)



section \<open>Region visibility\<close>

lemma isVisibleForRegion_Global_iff:
  "isVisibleForRegion app Global \<longleftrightarrow>
     (\<exists>rs. supportedRegions app = Some rs \<and> rs \<noteq> [] \<and> Global \<in> set rs)"
  by (auto split: option.splits)

text \<open>
  Claim C8. For every app, \<open>isVisibleForRegion\<close> is true for region CN; for region Global
  it is true exactly when \<open>supportedRegions\<close> is present, non-empty and contains Global, so
  an app without the field is hidden from Global users; and \<open>filterByRegion\<close> keeps
  exactly the visible apps, each as often as it occurs, in their original order.
\<close>

theorem C8_region_visibility:
  "isVisibleForRegion app CN
   \<and> (isVisibleForRegion app Global \<longleftrightarrow>
        (\<exists>rs. supportedRegions app = Some rs \<and> rs \<noteq> [] \<and> Global \<in> set rs))
   \<and> (supportedRegions app = None \<longrightarrow> \<not> isVisibleForRegion app Global)
   \<and> set (filterByRegion apps region) = {a \<in> set apps. isVisibleForRegion a region}
   \<and> mset (filterByRegion apps region) = filter_mset (\<lambda>a. isVisibleForRegion a region) (mset apps)
   \<and> subseq (filterByRegion apps region) apps"
  unfolding filterByRegion_def
  by (simp only: isVisibleForRegion_Global_iff isVisibleForRegion.simps(1) set_filter mset_filter
        subseq_filter_left) simp

theorem C8_region_visibility_witness:
  "isVisibleForRegion \<lparr>app_id = ''translate'', supportedRegions = None\<rparr> CN
   \<and> \<not> isVisibleForRegion \<lparr>app_id = ''translate'', supportedRegions = None\<rparr> Global
   \<and> filterByRegion [\<lparr>app_id = ''a'', supportedRegions = Some [CN, Global]\<rparr>,
                       \<lparr>app_id = ''b'', supportedRegions = None\<rparr>,
                       \<lparr>app_id = ''c'', supportedRegions = Some [Global]\<rparr>] Global
       = [\<lparr>app_id = ''a'', supportedRegions = Some [CN, Global]\<rparr>,
          \<lparr>app_id = ''c'', supportedRegions = Some [Global]\<rparr>]"
  using C8_region_visibility [of "\<lparr>app_id = ''translate'', supportedRegions = None\<rparr>" "[]" Global]
  by (simp add: filterByRegion_def)

section \<open>The write path of the mini-app hook\<close>

lemma getHiddenApps_iff:
  "i \<in> set (getHiddenApps allMinApps region) \<longleftrightarrow>
     (\<exists>t \<in> set allMinApps. app_id t = i \<and> \<not> isVisibleForRegion t region)"
  by (auto simp: getHiddenApps_def getRegionHiddenApps_def)

text \<open>
  What the write path keeps: an app of the stored list whose id is the id of an
  \<open>allMinApps\<close> entry hidden for the region (and, for \<open>updateMinapps\<close>, is not disabled) has
  its id in the dispatched list, and is there itself when the argument has no app of
  that id.
\<close>

lemma updateMinapps_keeps_template_hidden:
  assumes "app \<in> set enabled" "app_id app \<in> set (getHiddenApps allMinApps region)"
      and "app_id app \<notin> app_id ` set disabled"
  shows "app_id app \<in> app_id ` set (updateMinapps allMinApps enabled disabled region visibleApps)
       \<and> (app_id app \<notin> app_id ` set visibleApps \<longrightarrow>
             app \<in> set (updateMinapps allMinApps enabled disabled region visibleApps))"
proof -
  define withoutDisabled where
    "withoutDisabled = filter (\<lambda>a. app_id a \<notin> set (map app_id disabled)) visibleApps"
  define toAppend where
    "toAppend = filter (\<lambda>a. app_id a \<notin> set (map app_id withoutDisabled))
                  (filter (\<lambda>a. app_id a \<in> set (getHiddenApps allMinApps region)
                                \<and> app_id a \<notin> set (map app_id disabled)) enabled)"
  have sub: "set withoutDisabled \<union> set toAppend
               \<subseteq> set (updateMinapps allMinApps enabled disabled region visibleApps)"
    by (auto simp: updateMinapps_def Let_def withoutDisabled_def toAppend_def)
  have vis: "set withoutDisabled \<subseteq> set visibleApps"
    by (auto simp: withoutDisabled_def)
  show ?thesis
  proof (cases "app_id app \<in> app_id ` set withoutDisabled")
    case True
    with sub vis show ?thesis by auto
  next
    case False
    with assms have "app \<in> set toAppend" by (auto simp: toAppend_def)
    with sub show ?thesis by auto
  qed
qed

lemma updateDisabledMinapps_keeps_template_hidden:
  assumes "app \<in> set disabled" "app_id app \<in> set (getHiddenApps allMinApps region)"
  shows "app_id app \<in> app_id ` set (updateDisabledMinapps allMinApps disabled region visibleApps)"
    and "app_id app \<notin> app_id ` set visibleApps \<Longrightarrow>
           app \<in> set (updateDisabledMinapps allMinApps disabled region visibleApps)"
  using assms by (auto simp: updateDisabledMinapps_def Let_def)

lemma updatePinnedMinapps_keeps_template_hidden:
  assumes "app \<in> set pinned" "app_id app \<in> set (getHiddenApps allMinApps region)"
  shows "app_id app \<in> app_id ` set (updatePinnedMinapps allMinApps pinned region visibleApps)"
    and "app_id app \<notin> app_id ` set visibleApps \<Longrightarrow>
           app \<in> set (updatePinnedMinapps allMinApps pinned region visibleApps)"
  using assms by (auto simp: updatePinnedMinapps_def Let_def)

text \<open>
  Claim C9, at the input where the code departs from it. The store holds the app \<^verbatim>\<open>x\<close>,
  which has no \<^verbatim>\<open>supportedRegions\<close> and no entry in \<open>allMinApps\<close>. For region Global the
  read path hides it, so the visible list is \<^verbatim>\<open>[a]\<close> (the disabled one is empty); writing
  that list back dispatches a list without \<^verbatim>\<open>x\<close>: the hidden ids are taken from
  \<open>allMinApps\<close> alone.
\<close>

theorem C9_hidden_app_outside_template_lost:
  "\<not> isVisibleForRegion app_x Global
   \<and> minapps [app_a] [app_a, app_x] [] Global = [app_a]
   \<and> updateMinapps [app_a] [app_a, app_x] [] Global [app_a] = [app_a]
   \<and> disabledApps [app_a] [app_x] Global = []
   \<and> updateDisabledMinapps [app_a] [app_x] Global [] = []
   \<and> updatePinnedMinapps [app_a] [app_x] Global [] = []"
  by (simp add: minapps_def getAllApps_def mapApps_def filterByRegion_def updateMinapps_def
        disabledApps_def updateDisabledMinapps_def updatePinnedMinapps_def getHiddenApps_def
        getRegionHiddenApps_def app_a_def app_x_def Let_def)

end
